(* ===== verification/Prelude.thy ===== *)
theory Prelude
  imports Complex_Main "HOL-Library.Word"
begin

text \<open>
  Shared vocabulary of the development: the collections the component proofs draw on and the
  generic facts about lists and digits that several components use.

  \<^item> \<open>guar_intros\<close>: introduction rules for "every step of this program satisfies a given
    relation" (declared in Async, extended by every component);
  \<^item> \<open>run_simps\<close>: equations that execute a program symbolically.
\<close>

named_theorems guar_intros
named_theorems run_simps

unbundle bit_operations_syntax

section \<open>Lists\<close>

lemma find_map_same:
  assumes "\<And>x. P (f x) = P x"
  shows "find P (map f xs) = map_option f (find P xs)"
  by (induction xs) (simp_all add: assms)

lemma find_append: "find P (xs @ ys) = (case find P xs of None \<Rightarrow> find P ys | Some x \<Rightarrow> Some x)"
  by (induction xs) simp_all

lemma find_filter: "find P xs = (case filter P xs of [] \<Rightarrow> None | x # _ \<Rightarrow> Some x)"
  by (induction xs) simp_all

lemma find_SomeD: "find P xs = Some x \<Longrightarrow> x \<in> set xs \<and> P x"
  by (induction xs) (auto split: if_splits)

lemma find_None_iff_set: "find P xs = None \<longleftrightarrow> (\<forall>x \<in> set xs. \<not> P x)"
  by (induction xs) auto

lemma find_distinct_key:
  assumes "distinct (map k xs)" and "x \<in> set xs"
  shows "find (\<lambda>y. k y = k x) xs = Some x"
  using assms by (induction xs) (auto simp: image_iff)

lemma length_filter_le_1:
  assumes "distinct (map k xs)"
  shows "length (filter (\<lambda>x. k x = i \<and> Q x) xs) = (case find (\<lambda>x. k x = i) xs of
           None \<Rightarrow> 0 | Some x \<Rightarrow> if Q x then 1 else 0)"
  using assms
proof (induction xs)
  case (Cons x xs)
  show ?case
  proof (cases "k x = i")
    case True
    with Cons.prems have "filter (\<lambda>y. k y = i \<and> Q y) xs = []"
      by (auto simp: filter_empty_conv image_iff)
    with True show ?thesis by simp
  next
    case False
    with Cons show ?thesis by simp
  qed
qed simp

lemma filter_id_conv_ne: "c \<notin> set xs \<Longrightarrow> filter (\<lambda>x. x \<noteq> c) xs = xs"
  by (induction xs) auto

section \<open>Positional numerals\<close>

definition horner_nat :: "nat \<Rightarrow> nat list \<Rightarrow> nat" where
  "horner_nat b ds = foldl (\<lambda>acc d. acc * b + d) 0 ds"

lemma horner_nat_Nil [simp]: "horner_nat b [] = 0"
  by (simp add: horner_nat_def)

lemma horner_nat_snoc [simp]: "horner_nat b (ds @ [d]) = horner_nat b ds * b + d"
  by (simp add: horner_nat_def)

primrec digits_fixed :: "nat \<Rightarrow> nat \<Rightarrow> nat \<Rightarrow> nat list" where
  "digits_fixed b 0 n = []"
| "digits_fixed b (Suc k) n = digits_fixed b k (n div b) @ [n mod b]"

lemma digits_fixed_numeral [run_simps]:
  "digits_fixed b (numeral k) n = digits_fixed b (pred_numeral k) (n div b) @ [n mod b]"
  by (simp add: numeral_eq_Suc)

lemma length_digits_fixed [simp]: "length (digits_fixed b k n) = k"
  by (induction k arbitrary: n) simp_all

lemma digits_fixed_less: "0 < b \<Longrightarrow> d \<in> set (digits_fixed b k n) \<Longrightarrow> d < b"
  by (induction k arbitrary: n) auto

lemma horner_digits_fixed: "0 < b \<Longrightarrow> horner_nat b (digits_fixed b k n) = n mod b ^ k"
proof (induction k arbitrary: n)
  case (Suc k)
  then show ?case
    by (simp add: mod_mult2_eq mult.commute)
qed simp

fun digits_of :: "nat \<Rightarrow> nat list" where
  "digits_of n = (if n < 10 then [n] else digits_of (n div 10) @ [n mod 10])"

declare digits_of.simps [simp del]

lemma digits_of_nonempty [simp]: "digits_of n \<noteq> []"
  by (subst digits_of.simps) simp

lemma digits_of_less: "d \<in> set (digits_of n) \<Longrightarrow> d < 10"
proof (induction n rule: digits_of.induct)
  case (1 n)
  then show ?case by (subst (asm) (2) digits_of.simps) (auto split: if_splits)
qed

lemma horner_digits_of [simp]: "horner_nat 10 (digits_of n) = n"
proof (induction n rule: digits_of.induct)
  case (1 n)
  show ?case
  proof (cases "n < 10")
    case True
    then show ?thesis using horner_nat_snoc [of 10 "[]" n] by (simp add: digits_of.simps [of n])
  next
    case False
    with 1 show ?thesis by (simp add: digits_of.simps [of n])
  qed
qed

lemma length_digits_of: "n < 10 ^ k \<Longrightarrow> 0 < k \<Longrightarrow> length (digits_of n) \<le> k"
proof (induction n arbitrary: k rule: digits_of.induct)
  case (1 n)
  show ?case
  proof (cases "n < 10")
    case True
    with 1 show ?thesis by (simp add: digits_of.simps [of n])
  next
    case False
    with "1.prems" obtain k' where k: "k = Suc k'" "0 < k'"
      by (metis One_nat_def Suc_pred gr0I power_one_right)
    with "1.prems" have "n div 10 < 10 ^ k'" by (simp add: less_mult_imp_div_less mult.commute)
    with 1(1) [OF False _ k(2)] k False show ?thesis by (simp add: digits_of.simps [of n])
  qed
qed

end
