(* ===== verification/Python.thy ===== *)
theory Python
  imports Prelude
begin

text \<open>
  The part of Python's language and standard library the program relies on: exceptions,
  \<open>int(str)\<close> and \<open>str(int)\<close>, \<open>uuid.UUID\<close>, \<open>zlib.crc32\<close> and \<open>datetime\<close> time stamps. Strings are
  ASCII (\<open>string\<close>); a \<open>datetime\<close> is its number of microseconds since the epoch, in UTC.
\<close>

section \<open>Exceptions\<close>

text \<open>
  The exception classes the handlers distinguish. \<open>OtherError\<close> stands for every other
  subclass of \<open>Exception\<close> and carries its class name; \<open>TransportError\<close> likewise carries the
  name of the concrete \<open>httpx\<close> subclass.
\<close>

datatype err_class =
    ChaosError | SandboxNotReady | RuntimeError | TimeoutError | ValueError | KeyError
  | OverflowError | OSError | IntegrityError | NotFound | APIError int
  | TransportError string | OtherError string

fun class_name :: "err_class \<Rightarrow> string" where
  "class_name ChaosError = ''ChaosError''"
| "class_name SandboxNotReady = ''SandboxNotReady''"
| "class_name RuntimeError = ''RuntimeError''"
| "class_name TimeoutError = ''TimeoutError''"
| "class_name ValueError = ''ValueError''"
| "class_name KeyError = ''KeyError''"
| "class_name OverflowError = ''OverflowError''"
| "class_name OSError = ''OSError''"
| "class_name IntegrityError = ''IntegrityError''"
| "class_name NotFound = ''NotFound''"
| "class_name (APIError _) = ''APIError''"
| "class_name (TransportError n) = n"
| "class_name (OtherError n) = n"

text \<open>
  \<open>Err c m\<close> is an instance of class \<open>c\<close> whose \<open>str\<close> is \<open>m\<close>. \<open>Retry\<close> (arq) and
  \<open>HTTPException\<close> (FastAPI) are \<open>Exception\<close>s as well; \<open>Cancelled\<close> is \<open>asyncio.CancelledError\<close>,
  which is not: \<open>except Exception\<close> lets it pass.
\<close>

datatype exn =
    Err err_class string
  | Retry (retry_defer: rat)
  | HTTPException (status_code: int) (detail: string) (headers: "(string \<times> string) list")
  | Cancelled

fun is_Exception :: "exn \<Rightarrow> bool" where
  "is_Exception Cancelled = False"
| "is_Exception _ = True"

fun is_class :: "err_class \<Rightarrow> exn \<Rightarrow> bool" where
  "is_class c (Err d _) = (c = d)"
| "is_class _ _ = False"

fun is_TransportError :: "exn \<Rightarrow> bool" where
  "is_TransportError (Err (TransportError _) _) = True"
| "is_TransportError _ = False"

text \<open>
  \<open>docker.errors.NotFound\<close> is the subclass of \<open>APIError\<close> for status 404; \<open>api_status\<close> is
  \<open>exc.status_code\<close> where the exception is caught by \<open>except APIError\<close>.
\<close>

fun api_status :: "exn \<Rightarrow> int option" where
  "api_status (Err (APIError s) _) = Some s"
| "api_status (Err NotFound _) = Some 404"
| "api_status _ = None"

fun exn_name :: "exn \<Rightarrow> string" where
  "exn_name (Err c _) = class_name c"
| "exn_name (Retry _) = ''Retry''"
| "exn_name (HTTPException _ _ _) = ''HTTPException''"
| "exn_name Cancelled = ''CancelledError''"

section \<open>Integers and their decimal text\<close>

definition digit_char :: "nat \<Rightarrow> char" where
  "digit_char d = char_of (if d < 10 then 48 + d else 87 + d)"

definition digit_val :: "char \<Rightarrow> nat option" where
  "digit_val c =
     (let n = of_char c :: nat in
      if 48 \<le> n \<and> n \<le> 57 then Some (n - 48)
      else if 97 \<le> n \<and> n \<le> 122 then Some (n - 87)
      else if 65 \<le> n \<and> n \<le> 90 then Some (n - 55)
      else None)"

definition str_of_nat :: "nat \<Rightarrow> string" where
  "str_of_nat n = map digit_char (digits_of n)"

definition str_of_int :: "int \<Rightarrow> string" where
  "str_of_int i = (if i < 0 then CHR ''-'' # str_of_nat (nat (- i)) else str_of_nat (nat i))"

text \<open>
  \<open>str(exc)\<close>. FastAPI's \<open>HTTPException\<close> prints status and detail; the text of arq's \<open>Retry\<close> is arq's
  own, and no \<open>try\<close> block of the program that looks at the text ever sees one.
\<close>

fun exn_str :: "exn \<Rightarrow> string" where
  "exn_str (Err _ m) = m"
| "exn_str (HTTPException s d _) = str_of_int s @ '': '' @ d"
| "exn_str (Retry _) = []"
| "exn_str Cancelled = []"

definition is_space :: "char \<Rightarrow> bool" where
  "is_space c = (let n = of_char c :: nat in n = 32 \<or> (9 \<le> n \<and> n \<le> 13))"

definition strip_by :: "(char \<Rightarrow> bool) \<Rightarrow> string \<Rightarrow> string" where
  "strip_by P s = rev (dropWhile P (rev (dropWhile P s)))"

text \<open>Digits with single underscores between them; \<open>prev\<close>: the last character was a digit.\<close>

fun scan_digits :: "nat \<Rightarrow> bool \<Rightarrow> string \<Rightarrow> nat list option" where
  "scan_digits b prev [] = (if prev then Some [] else None)"
| "scan_digits b prev (c # cs) =
     (if c = CHR ''_'' then (if prev then scan_digits b False cs else None)
      else case digit_val c of
        Some d \<Rightarrow> if d < b then map_option (Cons d) (scan_digits b True cs) else None
      | None \<Rightarrow> None)"

definition drop_sign :: "string \<Rightarrow> int \<times> string" where
  "drop_sign s = (case s of
       c # cs \<Rightarrow> if c = CHR ''-'' then (- 1, cs) else if c = CHR ''+'' then (1, cs) else (1, s)
     | [] \<Rightarrow> (1, []))"

definition drop_hex_prefix :: "string \<Rightarrow> string" where
  "drop_hex_prefix s = (case s of
       a # x # cs \<Rightarrow>
         if a = CHR ''0'' \<and> (x = CHR ''x'' \<or> x = CHR ''X'')
         then (case cs of c # ds \<Rightarrow> if c = CHR ''_'' then ds else cs | [] \<Rightarrow> [])
         else s
     | _ \<Rightarrow> s)"

text \<open>
  \<open>int(s, b)\<close> for \<open>b\<close> 10 or 16. Decimal text of more than 4300 digits is refused
  (\<open>sys.int_info.default_max_str_digits\<close>).
\<close>

definition py_int :: "nat \<Rightarrow> string \<Rightarrow> exn + int" where
  "py_int b s =
     (let (sg, u) = drop_sign (strip_by is_space s);
          v = (if b = 16 then drop_hex_prefix u else u)
      in case scan_digits b False v of
           None \<Rightarrow> Inl (Err ValueError ''invalid literal for int()'')
         | Some ds \<Rightarrow> if b = 10 \<and> 4300 < length ds
                      then Inl (Err ValueError ''Exceeds the limit for integer string conversion'')
                      else Inr (sg * int (horner_nat b ds)))"

lemma of_char_digit_char: "d < 16 \<Longrightarrow> (of_char (digit_char d) :: nat) = (if d < 10 then 48 + d else 87 + d)"
  by (simp add: digit_char_def)

lemma digit_val_digit_char [simp]: "d < 16 \<Longrightarrow> digit_val (digit_char d) = Some d"
  by (simp add: digit_val_def of_char_digit_char)

lemma digit_char_not_special:
  assumes "d < 16"
  shows "digit_char d \<noteq> CHR ''_''" "digit_char d \<noteq> CHR ''-''" "digit_char d \<noteq> CHR ''+''"
    "digit_char d \<noteq> CHR ''x''" "digit_char d \<noteq> CHR ''X''" "digit_char d \<noteq> CHR ''u''"
    "digit_char d \<noteq> CHR ''{''" "digit_char d \<noteq> CHR ''}''" "\<not> is_space (digit_char d)"
proof -
  have "\<forall>d \<in> set [0..<16]. digit_char d \<noteq> CHR ''_'' \<and> digit_char d \<noteq> CHR ''-'' \<and>
      digit_char d \<noteq> CHR ''+'' \<and> digit_char d \<noteq> CHR ''x'' \<and> digit_char d \<noteq> CHR ''X'' \<and>
      digit_char d \<noteq> CHR ''u'' \<and> digit_char d \<noteq> CHR ''{'' \<and> digit_char d \<noteq> CHR ''}'' \<and>
      \<not> is_space (digit_char d)"
    by code_simp
  moreover have "d \<in> set [0..<16]" using assms by simp
  ultimately have *: "digit_char d \<noteq> CHR ''_'' \<and> digit_char d \<noteq> CHR ''-'' \<and>
      digit_char d \<noteq> CHR ''+'' \<and> digit_char d \<noteq> CHR ''x'' \<and> digit_char d \<noteq> CHR ''X'' \<and>
      digit_char d \<noteq> CHR ''u'' \<and> digit_char d \<noteq> CHR ''{'' \<and> digit_char d \<noteq> CHR ''}'' \<and>
      \<not> is_space (digit_char d)"
    by (rule bspec)
  show "digit_char d \<noteq> CHR ''_''" "digit_char d \<noteq> CHR ''-''" "digit_char d \<noteq> CHR ''+''"
    "digit_char d \<noteq> CHR ''x''" "digit_char d \<noteq> CHR ''X''" "digit_char d \<noteq> CHR ''u''"
    "digit_char d \<noteq> CHR ''{''" "digit_char d \<noteq> CHR ''}''" "\<not> is_space (digit_char d)"
    using * by blast+
qed

lemma digit_text_chars:
  assumes "c \<in> set (map digit_char ds)" "\<forall>d \<in> set ds. d < 16"
  shows "c \<noteq> CHR ''u'' \<and> c \<noteq> CHR ''-'' \<and> c \<noteq> CHR ''{'' \<and> c \<noteq> CHR ''}''"
proof -
  from assms obtain d where "d < 16" "c = digit_char d" by (metis (no_types) imageE set_map)
  from digit_char_not_special [OF this(1)] show ?thesis unfolding \<open>c = digit_char d\<close> by blast
qed

lemma digit_char_table [simp]:
  "digit_char 0 = CHR ''0''" "digit_char (Suc 0) = CHR ''1''" "digit_char 2 = CHR ''2''"
  "digit_char 3 = CHR ''3''" "digit_char 4 = CHR ''4''" "digit_char 5 = CHR ''5''"
  "digit_char 6 = CHR ''6''" "digit_char 7 = CHR ''7''" "digit_char 8 = CHR ''8''"
  "digit_char 9 = CHR ''9''" "digit_char 10 = CHR ''a''" "digit_char 11 = CHR ''b''"
  "digit_char 12 = CHR ''c''" "digit_char 13 = CHR ''d''" "digit_char 14 = CHR ''e''"
  "digit_char 15 = CHR ''f''"
  by code_simp+

lemma minus_not_space: "\<not> is_space (CHR ''-'')"
  by (simp add: is_space_def)

lemma scan_digit_chars:
  "\<forall>d \<in> set ds. d < b \<Longrightarrow> b \<le> 16 \<Longrightarrow> ds \<noteq> [] \<or> prev \<Longrightarrow>
   scan_digits b prev (map digit_char ds) = Some ds"
  by (induction ds arbitrary: prev) (auto simp: digit_char_not_special)

lemma dropWhile_none: "\<forall>c \<in> set s. \<not> P c \<Longrightarrow> dropWhile P s = s"
  by (cases s) auto

lemma strip_by_none: "\<forall>c \<in> set s. \<not> P c \<Longrightarrow> strip_by P s = s"
  using dropWhile_none [of "rev s" P] by (simp add: strip_by_def dropWhile_none)

lemma drop_sign_digits: "ds \<noteq> [] \<Longrightarrow> \<forall>d \<in> set ds. d < 16 \<Longrightarrow> drop_sign (map digit_char ds) = (1, map digit_char ds)"
  by (cases ds) (auto simp: drop_sign_def digit_char_not_special)

lemma drop_hex_prefix_digits:
  "\<forall>d \<in> set ds. d < 16 \<Longrightarrow> drop_hex_prefix (map digit_char ds) = map digit_char ds"
  by (auto simp: drop_hex_prefix_def digit_char_not_special split: list.splits)

lemma py_int_digits:
  assumes "ds \<noteq> []" "\<forall>d \<in> set ds. d < b" "b \<le> 16" "b = 10 \<Longrightarrow> length ds \<le> 4300"
  shows "py_int b (map digit_char ds) = Inr (int (horner_nat b ds))"
proof -
  have lt: "\<forall>d \<in> set ds. d < 16" using assms(2,3) by auto
  then have strip: "strip_by is_space (map digit_char ds) = map digit_char ds"
    by (intro strip_by_none) (auto simp: digit_char_not_special)
  show ?thesis
    using assms(4) scan_digit_chars [OF assms(2,3), of False] assms(1)
    by (auto simp: py_int_def strip drop_sign_digits [OF assms(1) lt] drop_hex_prefix_digits [OF lt])
qed

lemma py_int_neg_digits:
  assumes "ds \<noteq> []" "\<forall>d \<in> set ds. d < 10" "length ds \<le> 4300"
  shows "py_int 10 (CHR ''-'' # map digit_char ds) = Inr (- int (horner_nat 10 ds))"
proof -
  have lt: "\<forall>d \<in> set ds. d < 16" using assms(2) by auto
  have "strip_by is_space (CHR ''-'' # map digit_char ds) = CHR ''-'' # map digit_char ds"
    using lt by (intro strip_by_none) (auto simp: digit_char_not_special minus_not_space)
  then show ?thesis
    using assms(3) scan_digit_chars [OF assms(2), of False] assms(1)
    by (simp add: py_int_def drop_sign_def)
qed

text \<open>\<open>int(str(i)) == i\<close>, for every integer below the conversion limit.\<close>

lemma py_int_str_of_int:
  assumes "\<bar>i\<bar> < 10 ^ k" "0 < k" "k \<le> 4300"
  shows "py_int 10 (str_of_int i) = Inr i"
proof -
  have len: "length (digits_of (nat j)) \<le> 4300" if "0 \<le> j" "j < 10 ^ k" for j
  proof -
    have "nat j < 10 ^ k" using that by (simp add: nat_less_iff)
    then show ?thesis using length_digits_of [of "nat j" k] assms(2,3) by linarith
  qed
  have "py_int 10 (map digit_char (digits_of (nat i))) = Inr i" if "0 \<le> i"
    using py_int_digits [of "digits_of (nat i)" 10] len [of i] that assms(1)
    by (auto dest: digits_of_less)
  moreover have "py_int 10 (CHR ''-'' # map digit_char (digits_of (nat (- i)))) = Inr i" if "i < 0"
    using py_int_neg_digits [of "digits_of (nat (- i))"] len [of "- i"] that assms(1)
    by (auto dest: digits_of_less)
  ultimately show ?thesis
    by (simp add: str_of_int_def str_of_nat_def)
qed

section \<open>UUIDs\<close>

text \<open>
  A \<open>uuid.UUID\<close> is its 128-bit integer. \<open>uuid_str\<close> is \<open>str\<close> (32 hex digits grouped 8-4-4-4-12),
  \<open>uuid_of_str\<close> the constructor \<open>uuid.UUID(s)\<close>: it drops \<open>urn:\<close> and \<open>uuid:\<close>, outer braces and
  all hyphens, then wants 32 characters that \<open>int(_, 16)\<close> reads; \<open>uuid_bytes\<close> is \<open>.bytes\<close>
  (big-endian).
\<close>

type_synonym uuid = "128 word"

fun remove_all :: "string \<Rightarrow> string \<Rightarrow> string" where
  "remove_all p [] = []"
| "remove_all p (c # cs) =
     (if p \<noteq> [] \<and> take (length p) (c # cs) = p then remove_all p (drop (length p - 1) cs)
      else c # remove_all p cs)"

definition uuid_str :: "uuid \<Rightarrow> string" where
  "uuid_str u =
     (let h = map digit_char (digits_fixed 16 32 (unat u)) in
      take 8 h @ ''-'' @ take 4 (drop 8 h) @ ''-'' @ take 4 (drop 12 h) @ ''-''
      @ take 4 (drop 16 h) @ ''-'' @ drop 20 h)"

definition uuid_of_str :: "string \<Rightarrow> exn + uuid" where
  "uuid_of_str s =
     (let h = remove_all ''uuid:'' (remove_all ''urn:'' s);
          h = filter (\<lambda>c. c \<noteq> CHR ''-'') (strip_by (\<lambda>c. c = CHR ''{'' \<or> c = CHR ''}'') h)
      in if length h \<noteq> 32 then Inl (Err ValueError ''badly formed hexadecimal UUID string'')
         else case py_int 16 h of
           Inl e \<Rightarrow> Inl e
         | Inr i \<Rightarrow> if 0 \<le> i \<and> i < 2 ^ 128 then Inr (word_of_int i)
                    else Inl (Err ValueError ''int is out of range (need a 128-bit value)''))"

definition uuid_bytes :: "uuid \<Rightarrow> 8 word list" where
  "uuid_bytes u = map (\<lambda>i. ucast (drop_bit (8 * (15 - i)) u)) [0..<16]"

lemma remove_all_none: "p = x # q \<Longrightarrow> x \<notin> set s \<Longrightarrow> remove_all p s = s"
  by (induction p s rule: remove_all.induct) auto

text \<open>\<open>uuid.UUID(str(u)) == u\<close>: what the API prints into a job, the worker reads back.\<close>

lemma uuid_of_str_uuid_str [simp]: "uuid_of_str (uuid_str u) = Inr u"
proof -
  let ?ds = "digits_fixed 16 32 (unat u)"
  let ?h = "map digit_char ?ds"
  have lt: "\<forall>d \<in> set ?ds. d < 16" by (auto dest: digits_fixed_less [rotated])
  have chars: "c = CHR ''-'' \<or> c \<in> set ?h" if "c \<in> set (uuid_str u)" for c
    using that by (auto simp: uuid_str_def Let_def dest: in_set_takeD in_set_dropD simp del: set_map)
  have special: "c \<noteq> CHR ''u'' \<and> c \<noteq> CHR ''{'' \<and> c \<noteq> CHR ''}''" if "c \<in> set (uuid_str u)" for c
    using chars [OF that]
  proof
    assume "c \<in> set ?h"
    from digit_text_chars [OF this lt] show ?thesis by blast
  qed simp
  have r: "remove_all ''urn:'' (uuid_str u) = uuid_str u" "remove_all ''uuid:'' (uuid_str u) = uuid_str u"
    by (rule remove_all_none [OF refl]; use special in blast)+
  have s: "strip_by (\<lambda>c. c = CHR ''{'' \<or> c = CHR ''}'') (uuid_str u) = uuid_str u"
    by (rule strip_by_none) (use special in blast)
  have minus: "CHR ''-'' \<notin> set ?h" using digit_text_chars [OF _ lt] by blast
  have parts: "filter (\<lambda>c. c \<noteq> CHR ''-'') (take n (drop m ?h)) = take n (drop m ?h)"
    "filter (\<lambda>c. c \<noteq> CHR ''-'') (drop m ?h) = drop m ?h"
    "filter (\<lambda>c. c \<noteq> CHR ''-'') (take n ?h) = take n ?h" for n m
    by (rule filter_id_conv_ne; use minus in \<open>blast dest: in_set_takeD in_set_dropD\<close>)+
  have "take 8 ?h @ take 4 (drop 8 ?h) @ take 4 (drop 12 ?h) @ take 4 (drop 16 ?h) @ drop 20 ?h = ?h"
    using append_take_drop_id [of 8 ?h] append_take_drop_id [of 4 "drop 8 ?h"]
      append_take_drop_id [of 4 "drop 12 ?h"] append_take_drop_id [of 4 "drop 16 ?h"]
    by (simp del: append_take_drop_id)
  then have f: "filter (\<lambda>c. c \<noteq> CHR ''-'') (uuid_str u) = ?h"
    by (simp add: uuid_str_def Let_def parts del: take_map drop_map)
  have "unat u < 16 ^ 32" using unsigned_less [of u, where ?'a = nat] by simp
  then have "py_int 16 ?h = Inr (int (unat u))"
    using py_int_digits [of ?ds 16] lt horner_digits_fixed [of 16 32 "unat u"]
    by (simp add: digits_fixed_less flip: length_greater_0_conv)
  moreover have "int (unat u) < 2 ^ 128" using uint_lt2p [of u] by simp
  ultimately show ?thesis
    by (simp add: uuid_of_str_def r s f)
qed

lemma uuid_str_inject: "uuid_str a = uuid_str b \<longleftrightarrow> a = b"
  by (metis uuid_of_str_uuid_str sum.inject(2))

section \<open>CRC-32\<close>

text \<open>\<open>zlib.crc32\<close>: the reflected polynomial \<open>0xEDB88320\<close>, all-ones initial value and final complement.\<close>

definition crc_bit :: "32 word \<Rightarrow> 32 word" where
  "crc_bit c = (if bit c 0 then drop_bit 1 c XOR 0xEDB88320 else drop_bit 1 c)"

definition crc_byte :: "32 word \<Rightarrow> 8 word \<Rightarrow> 32 word" where
  "crc_byte c b = (crc_bit ^^ 8) (c XOR ucast b)"

definition crc32 :: "8 word list \<Rightarrow> 32 word" where
  "crc32 bs = NOT (foldl crc_byte (NOT 0) bs)"

lemma crc_byte_unfold:
  "crc_byte c b =
     crc_bit (crc_bit (crc_bit (crc_bit (crc_bit (crc_bit (crc_bit (crc_bit (c XOR ucast b))))))))"
  by (simp add: crc_byte_def numeral_eq_Suc)

text \<open>The published check value: the CRC of the ASCII text \<open>123456789\<close>.\<close>

lemma crc32_check: "crc32 [0x31, 0x32, 0x33, 0x34, 0x35, 0x36, 0x37, 0x38, 0x39] = 0xCBF43926"
  by (simp add: crc32_def crc_byte_unfold crc_bit_def)

section \<open>Time stamps\<close>

text \<open>
  A \<open>datetime\<close> in UTC is an \<open>int\<close>: microseconds since the epoch. \<open>int_timestamp\<close> is
  \<open>int(d.timestamp())\<close>, which truncates towards zero; \<open>fromtimestamp\<close> is
  \<open>datetime.fromtimestamp(n, UTC)\<close> for an integer \<open>n\<close>, with CPython's three ways to fail on a
  platform whose \<open>time_t\<close> has 64 bits: \<open>n\<close> is no \<open>time_t\<close> (OverflowError), its year is no C
  \<open>int\<close> (\<open>gmtime\<close> fails: OSError), or its year is outside 1..9999 (ValueError).
\<close>

type_synonym datetime = int

definition seconds :: "int \<Rightarrow> int" where
  "seconds n = n * 1000000"

definition int_timestamp :: "datetime \<Rightarrow> int" where
  "int_timestamp d = (if 0 \<le> d then d div 1000000 else - ((- d) div 1000000))"

definition fromtimestamp :: "int \<Rightarrow> exn + datetime" where
  "fromtimestamp n =
     (if n < - (2 ^ 63) \<or> 2 ^ 63 \<le> n then Inl (Err OverflowError ''timestamp out of range for platform time_t'')
      else if n < - 67768040609740800 \<or> 67768036191676799 < n
      then Inl (Err OSError ''Value too large for defined data type'')
      else if n < - 62135596800 \<or> 253402300799 < n then Inl (Err ValueError ''year is out of range'')
      else Inr (seconds n))"

text \<open>A stamp written with whole seconds reads back at most one second early, never late.\<close>

lemma fromtimestamp_int_timestamp:
  assumes "0 \<le> d" "d < seconds 253402300800"
  shows "\<exists>d'. fromtimestamp (int_timestamp d) = Inr d' \<and> d' \<le> d \<and> d < d' + seconds 1"
proof -
  have "d div 1000000 \<le> 253402300799" "0 \<le> d div 1000000"
    using assms by (simp_all add: seconds_def)
  then show ?thesis
    using assms by (auto simp: fromtimestamp_def int_timestamp_def seconds_def)
qed

end
