(* ===== verification/Async.thy ===== *)
theory Async
  imports Python
begin

text \<open>
  Asynchronous programs. A coroutine of the source runs on a shared world and can be suspended
  at every \<open>await\<close>; between two of its awaits no other coroutine runs, at an await anything may.
  A program is therefore a tree: it returns, raises, or makes one atomic step on the world and
  goes on with a rest that depends on the world it found. Trees are finite in depth, so a
  program always ends; a loop of the source has to be shown to stop before it becomes one.

  \<open>run\<close> executes a program alone; \<open>run_with I\<close> lets the environment change the world by \<open>I n\<close>
  before the \<open>n\<close>-th step. \<open>guar G\<close> says that every step a program may ever make, from whatever
  world, relates the world before and after it by \<open>G\<close>: the guarantee of rely/guarantee reasoning.
\<close>

datatype ('w, 'a) prog =
    Return 'a
  | Raise exn
  | Step "'w \<Rightarrow> 'w" "'w \<Rightarrow> ('w, 'a) prog"

section \<open>Atomic steps, sequence, \<open>try\<close>\<close>

definition atomically :: "('w \<Rightarrow> (exn + 'a) \<times> 'w) \<Rightarrow> ('w, 'a) prog" where
  "atomically f =
     Step (\<lambda>w. snd (f w)) (\<lambda>w. case fst (f w) of Inl e \<Rightarrow> Raise e | Inr a \<Rightarrow> Return a)"

definition reads :: "('w \<Rightarrow> 'a) \<Rightarrow> ('w, 'a) prog" where
  "reads f = Step (\<lambda>w. w) (\<lambda>w. Return (f w))"

definition does :: "('w \<Rightarrow> 'w) \<Rightarrow> ('w, unit) prog" where
  "does f = Step f (\<lambda>_. Return ())"

definition of_sum :: "exn + 'a \<Rightarrow> ('w, 'a) prog" where
  "of_sum r = (case r of Inl e \<Rightarrow> Raise e | Inr a \<Rightarrow> Return a)"

primrec pbind :: "('w, 'a) prog \<Rightarrow> ('a \<Rightarrow> ('w, 'b) prog) \<Rightarrow> ('w, 'b) prog" where
  "pbind (Return a) k = k a"
| "pbind (Raise e) k = Raise e"
| "pbind (Step f n) k = Step f (\<lambda>w. pbind (n w) k)"

definition andthen :: "('w, 'a) prog \<Rightarrow> ('w, 'b) prog \<Rightarrow> ('w, 'b) prog" where
  "andthen p q = pbind p (\<lambda>_. q)"

text \<open>
  \<open>try_catch p ok h\<close> is \<open>try: x = p; except \<dots>: h else: ok x\<close>: the handler decides on the exception
  and re-raises what it does not catch; exceptions of \<open>ok\<close> are not caught.
\<close>

primrec try_catch ::
    "('w, 'a) prog \<Rightarrow> ('a \<Rightarrow> ('w, 'b) prog) \<Rightarrow> (exn \<Rightarrow> ('w, 'b) prog) \<Rightarrow> ('w, 'b) prog" where
  "try_catch (Return a) ok h = ok a"
| "try_catch (Raise e) ok h = h e"
| "try_catch (Step f n) ok h = Step f (\<lambda>w. try_catch (n w) ok h)"

definition except_Exception :: "(exn \<Rightarrow> ('w, 'a) prog) \<Rightarrow> exn \<Rightarrow> ('w, 'a) prog" where
  "except_Exception h e = (if is_Exception e then h e else Raise e)"

definition try_finally :: "('w, 'a) prog \<Rightarrow> ('w, unit) prog \<Rightarrow> ('w, 'a) prog" where
  "try_finally p fin = try_catch p (\<lambda>a. andthen fin (Return a)) (\<lambda>e. andthen fin (Raise e))"

text \<open>
  \<open>asyncio.timeout\<close>: before every await inside the block the deadline may turn out to have passed
  (\<open>hit\<close>, consumed by \<open>pop\<close>); the await is then abandoned and the block raises TimeoutError.
\<close>

primrec with_deadline ::
    "('w \<Rightarrow> bool) \<Rightarrow> ('w \<Rightarrow> 'w) \<Rightarrow> ('w, 'a) prog \<Rightarrow> ('w, 'a) prog" where
  "with_deadline hit pop (Return a) = Return a"
| "with_deadline hit pop (Raise e) = Raise e"
| "with_deadline hit pop (Step f n) =
     Step (\<lambda>w. if hit w then pop w else f (pop w))
          (\<lambda>w. if hit w then Raise (Err TimeoutError []) else with_deadline hit pop (n (pop w)))"

primrec pfor :: "'x list \<Rightarrow> ('x \<Rightarrow> ('w, unit) prog) \<Rightarrow> ('w, unit) prog" where
  "pfor [] body = Return ()"
| "pfor (x # xs) body = andthen (body x) (pfor xs body)"

text \<open>A loop that threads a local variable through its iterations.\<close>

primrec pfold :: "'x list \<Rightarrow> 's \<Rightarrow> ('x \<Rightarrow> 's \<Rightarrow> ('w, 's) prog) \<Rightarrow> ('w, 's) prog" where
  "pfold [] s body = Return s"
| "pfold (x # xs) s body = pbind (body x s) (\<lambda>s'. pfold xs s' body)"

section \<open>Execution\<close>

primrec run :: "('w, 'a) prog \<Rightarrow> 'w \<Rightarrow> (exn + 'a) \<times> 'w" where
  "run (Return a) = (\<lambda>w. (Inr a, w))"
| "run (Raise e) = (\<lambda>w. (Inl e, w))"
| "run (Step f n) = (\<lambda>w. run (n w) (f w))"

primrec run_with :: "('w, 'a) prog \<Rightarrow> (nat \<Rightarrow> 'w \<Rightarrow> 'w) \<Rightarrow> nat \<Rightarrow> 'w \<Rightarrow> (exn + 'a) \<times> 'w" where
  "run_with (Return a) = (\<lambda>I i w. (Inr a, w))"
| "run_with (Raise e) = (\<lambda>I i w. (Inl e, w))"
| "run_with (Step f n) = (\<lambda>I i w. run_with (n (I i w)) I (Suc i) (f (I i w)))"

lemma run_with_id: "run_with p (\<lambda>_ w. w) i w = run p w"
  by (induction p arbitrary: i w) auto

text \<open>In an environment, too, a sequence runs its first part and goes on from there, some steps later.\<close>

lemma run_with_pbind:
  "\<exists>j. run_with (pbind p k) I i w =
     (case run_with p I i w of (Inl e, v) \<Rightarrow> (Inl e, v) | (Inr a, v) \<Rightarrow> run_with (k a) I j v)"
  by (induction p arbitrary: i w) auto

lemma run_pbind [run_simps]:
  "run (pbind p k) w = (case run p w of (Inl e, w') \<Rightarrow> (Inl e, w') | (Inr a, w') \<Rightarrow> run (k a) w')"
  by (induction p arbitrary: w) auto

lemma run_andthen [run_simps]:
  "run (andthen p q) w = (case run p w of (Inl e, w') \<Rightarrow> (Inl e, w') | (Inr a, w') \<Rightarrow> run q w')"
  by (simp add: andthen_def run_pbind)

lemma run_try_catch [run_simps]:
  "run (try_catch p ok h) w =
     (case run p w of (Inl e, w') \<Rightarrow> run (h e) w' | (Inr a, w') \<Rightarrow> run (ok a) w')"
  by (induction p arbitrary: w) auto

lemma run_atomically [run_simps]: "run (atomically f) w = f w"
  by (cases "f w") (simp add: atomically_def split: sum.splits)

lemma run_reads [run_simps]: "run (reads f) w = (Inr (f w), w)"
  by (simp add: reads_def)

lemma run_does [run_simps]: "run (does f) w = (Inr (), f w)"
  by (simp add: does_def)

lemma run_of_sum [run_simps]: "run (of_sum r) w = (r, w)"
  by (cases r) (simp_all add: of_sum_def)

lemma of_sum_simps [simp]: "of_sum (Inl e) = Raise e" "of_sum (Inr a) = Return a"
  by (simp_all add: of_sum_def)

lemma except_Exception_simps [simp]:
  "is_Exception e \<Longrightarrow> except_Exception h e = h e"
  "except_Exception h Cancelled = Raise Cancelled"
  by (simp_all add: except_Exception_def)

lemma run_try_finally [run_simps]:
  "run (try_finally p fin) w =
     (case run p w of (r, w') \<Rightarrow> case run fin w' of (Inl e, w'') \<Rightarrow> (Inl e, w'') | (Inr _, w'') \<Rightarrow> (r, w''))"
  by (cases "run p w") (simp add: try_finally_def run_try_catch run_andthen split: sum.splits prod.splits)

lemma pbind_assoc: "pbind (pbind p k) l = pbind p (\<lambda>a. pbind (k a) l)"
  by (induction p) auto

lemma pbind_Return [simp]: "pbind p Return = p"
  by (induction p) auto

lemma andthen_assoc: "andthen (andthen p q) r = andthen p (andthen q r)"
  by (simp add: andthen_def pbind_assoc)

lemma andthen_Return [simp]: "andthen (Return a) q = q"
  by (simp add: andthen_def)

section \<open>Guarantees\<close>

primrec guar :: "('w \<Rightarrow> 'w \<Rightarrow> bool) \<Rightarrow> ('w, 'a) prog \<Rightarrow> bool" where
  "guar G (Return a) = True"
| "guar G (Raise e) = True"
| "guar G (Step f n) = (\<forall>w. G w (f w) \<and> guar G (n w))"

lemma guar_Return [guar_intros]: "guar G (Return a)"
  by simp

lemma guar_Raise [guar_intros]: "guar G (Raise e)"
  by simp

lemma guar_pbind [guar_intros]: "guar G p \<Longrightarrow> (\<And>a. guar G (k a)) \<Longrightarrow> guar G (pbind p k)"
  by (induction p) auto

lemma guar_andthen [guar_intros]: "guar G p \<Longrightarrow> guar G q \<Longrightarrow> guar G (andthen p q)"
  by (simp add: andthen_def guar_pbind)

lemma guar_try_catch [guar_intros]:
  "guar G p \<Longrightarrow> (\<And>a. guar G (ok a)) \<Longrightarrow> (\<And>e. guar G (h e)) \<Longrightarrow> guar G (try_catch p ok h)"
  by (induction p) auto

lemma guar_except_Exception [guar_intros]: "guar G (h e) \<Longrightarrow> guar G (except_Exception h e)"
  by (simp add: except_Exception_def)

lemma guar_try_finally [guar_intros]: "guar G p \<Longrightarrow> guar G fin \<Longrightarrow> guar G (try_finally p fin)"
  by (simp add: try_finally_def guar_try_catch guar_andthen)

lemma guar_atomically: "(\<And>w. G w (snd (f w))) \<Longrightarrow> guar G (atomically f)"
  by (simp add: atomically_def split: sum.splits)

lemma guar_does: "(\<And>w. G w (f w)) \<Longrightarrow> guar G (does f)"
  by (simp add: does_def)

lemma guar_of_sum [guar_intros]: "guar G (of_sum r)"
  by (simp add: of_sum_def split: sum.split)

lemma guar_pfor [guar_intros]: "(\<And>x. x \<in> set xs \<Longrightarrow> guar G (body x)) \<Longrightarrow> guar G (pfor xs body)"
  by (induction xs) (simp_all add: guar_andthen)

lemma guar_pfold [guar_intros]:
  "(\<And>x s. x \<in> set xs \<Longrightarrow> guar G (body x s)) \<Longrightarrow> guar G (pfold xs s body)"
  by (induction xs arbitrary: s) (simp_all add: guar_pbind)

lemma guar_if [guar_intros]: "(b \<Longrightarrow> guar G p) \<Longrightarrow> (\<not> b \<Longrightarrow> guar G q) \<Longrightarrow> guar G (if b then p else q)"
  by simp

lemma guar_case_option [guar_intros]:
  "(x = None \<Longrightarrow> guar G p) \<Longrightarrow> (\<And>a. x = Some a \<Longrightarrow> guar G (q a)) \<Longrightarrow> guar G (case x of None \<Rightarrow> p | Some a \<Rightarrow> q a)"
  by (simp split: option.split)

lemma guar_case_sum [guar_intros]:
  "(\<And>a. x = Inl a \<Longrightarrow> guar G (p a)) \<Longrightarrow> (\<And>b. x = Inr b \<Longrightarrow> guar G (q b)) \<Longrightarrow> guar G (case x of Inl a \<Rightarrow> p a | Inr b \<Rightarrow> q b)"
  by (simp split: sum.split)

lemma guar_case_prod [guar_intros]:
  "(\<And>a b. x = (a, b) \<Longrightarrow> guar G (p a b)) \<Longrightarrow> guar G (case x of (a, b) \<Rightarrow> p a b)"
  by (simp split: prod.split)

lemma guar_Let [guar_intros]: "guar G (p x) \<Longrightarrow> guar G (let y = x in p y)"
  by simp

lemma guar_mono: "guar G p \<Longrightarrow> (\<And>w w'. G w w' \<Longrightarrow> H w w') \<Longrightarrow> guar H p"
  by (induction p) auto

lemma guar_conj: "guar G p \<Longrightarrow> guar H p \<Longrightarrow> guar (\<lambda>w w'. G w w' \<and> H w w') p"
  by (induction p) auto

text \<open>
  Inside a deadline that never strikes (\<open>quiet\<close> worlds, which the program keeps quiet), the
  block is its body.
\<close>

lemma run_with_deadline:
  assumes "guar (\<lambda>w w'. quiet w \<longrightarrow> quiet w') p"
    and "\<And>w. quiet w \<Longrightarrow> \<not> hit w \<and> pop w = w"
    and "quiet w"
  shows "run (with_deadline hit pop p) w = run p w"
  using assms(1,3)
proof (induction p arbitrary: w)
  case (Step f n)
  with assms(2) [of w] show ?case by simp
qed simp_all

text \<open>
  The interface between a program's steps and what may be concluded of its runs: any reflexive
  and transitive relation that every step respects relates the ends of every run, alone or in
  an environment that respects it too, and the ends of every run of a pool of programs.
\<close>

inductive pool_step ::
    "(('w, unit) prog \<Rightarrow> bool) \<Rightarrow> ('w \<Rightarrow> 'w \<Rightarrow> bool) \<Rightarrow>
     'w \<times> ('w, unit) prog list \<Rightarrow> 'w \<times> ('w, unit) prog list \<Rightarrow> bool"
  for spawnable environment where
  exec: "pool_step spawnable environment (w, xs @ Step f n # ys) (f w, xs @ n w # ys)"
| spawn: "spawnable p \<Longrightarrow> pool_step spawnable environment (w, xs) (w, p # xs)"
| crash: "pool_step spawnable environment (w, xs @ p # ys) (w, xs @ ys)"
| env: "environment w w' \<Longrightarrow> pool_step spawnable environment (w, xs) (w', xs)"

inductive_cases pool_stepE: "pool_step spawnable environment (w, xs) (w', xs')"

abbreviation pool_steps where
  "pool_steps spawnable environment \<equiv> (pool_step spawnable environment)\<^sup>*\<^sup>*"

locale guarantee =
  fixes G :: "'w \<Rightarrow> 'w \<Rightarrow> bool"
  assumes G_refl: "G w w"
    and G_trans: "G u v \<Longrightarrow> G v w \<Longrightarrow> G u w"
begin

lemma guar_reads: "guar G (reads f)"
  by (simp add: reads_def G_refl)

lemma guar_with_deadline:
  assumes pop: "\<And>w. G w (pop w)"
  shows "guar G p \<Longrightarrow> guar G (with_deadline hit pop p)"
proof (induction p)
  case (Step f n)
  then show ?case by (auto intro: pop G_trans [OF pop])
qed simp_all

lemma run_guarantee: "guar G p \<Longrightarrow> G w (snd (run p w))"
proof (induction p arbitrary: w)
  case (Step f n)
  then have "G w (f w)" "G (f w) (snd (run (n w) (f w)))" by auto
  then show ?case by (auto intro: G_trans)
qed (simp_all add: G_refl)

lemma run_with_guarantee:
  assumes I: "\<And>i w. G w (I i w)"
  shows "guar G p \<Longrightarrow> G w (snd (run_with p I i w))"
proof (induction p arbitrary: i w)
  case (Step f n)
  then have "G (I i w) (f (I i w))" "G (f (I i w)) (snd (run_with (n (I i w)) I (Suc i) (f (I i w))))"
    by auto
  then show ?case by (auto intro: G_trans [OF I] G_trans)
qed (simp_all add: G_refl)

lemma pool_step_guarantee:
  assumes "pool_step S E (w, xs) (w', xs')"
    and "\<And>p. S p \<Longrightarrow> guar G p" and "\<And>w w'. E w w' \<Longrightarrow> G w w'" and "list_all (guar G) xs"
  shows "G w w' \<and> list_all (guar G) xs'"
  using assms by (auto elim!: pool_stepE simp: G_refl)

lemma pool_guarantee:
  assumes "pool_steps S E (w, xs) (w', xs')"
    and "\<And>p. S p \<Longrightarrow> guar G p" and "\<And>w w'. E w w' \<Longrightarrow> G w w'" and "list_all (guar G) xs"
  shows "G w w' \<and> list_all (guar G) xs'"
  using assms(1)
proof (induction rule: rtranclp_induct2)
  case refl
  with assms(4) show ?case by (simp add: G_refl)
next
  case (step v ys w' xs')
  with pool_step_guarantee [OF step(2) assms(2,3)] show ?case by (blast intro: G_trans)
qed

end

section \<open>Pools\<close>

text \<open>A program run to its end without interruption is one of the executions of the pool.\<close>

lemma pool_run_steps: "pool_steps S E (w, p # xs) (snd (run p w), xs)"
proof (induction p arbitrary: w)
  case (Return a)
  show ?case using pool_step.crash [of S E w "[]" "Return a" xs] by auto
next
  case (Raise e)
  show ?case using pool_step.crash [of S E w "[]" "Raise e" xs] by auto
next
  case (Step f n)
  have "pool_step S E (w, Step f n # xs) (f w, n w # xs)"
    using pool_step.exec [of S E w "[]" f n xs] by simp
  with Step show ?case by (auto intro: converse_rtranclp_into_rtranclp)
qed

lemma pool_run: "S p \<Longrightarrow> pool_steps S E (w, xs) (snd (run p w), xs)"
  by (rule converse_rtranclp_into_rtranclp [OF pool_step.spawn pool_run_steps])

section \<open>What a program ensures in an environment\<close>

text \<open>
  \<open>ensures R p Q w\<close>: started in \<open>w\<close>, with an environment that relates the world before and after
  its moves by \<open>R\<close> and may move before every step, \<open>p\<close> ends with a result and in a world that
  satisfy \<open>Q\<close>. It is computed backwards over the program, a weakest precondition under a rely.
\<close>

primrec ensures ::
    "('w \<Rightarrow> 'w \<Rightarrow> bool) \<Rightarrow> ('w, 'a) prog \<Rightarrow> (exn + 'a \<Rightarrow> 'w \<Rightarrow> bool) \<Rightarrow> 'w \<Rightarrow> bool" where
  "ensures R (Return a) = (\<lambda>Q w. Q (Inr a) w)"
| "ensures R (Raise e) = (\<lambda>Q w. Q (Inl e) w)"
| "ensures R (Step f n) = (\<lambda>Q w. \<forall>v. R w v \<longrightarrow> ensures R (n v) Q (f v))"

named_theorems ensures_simps

lemma ensures_pbind [ensures_simps]:
  "ensures R (pbind p k) Q w =
     ensures R p (\<lambda>r v. case r of Inl e \<Rightarrow> Q (Inl e) v | Inr a \<Rightarrow> ensures R (k a) Q v) w"
  by (induction p arbitrary: w) simp_all

lemma ensures_andthen [ensures_simps]:
  "ensures R (andthen p q) Q w =
     ensures R p (\<lambda>r v. case r of Inl e \<Rightarrow> Q (Inl e) v | Inr a \<Rightarrow> ensures R q Q v) w"
  by (simp add: andthen_def ensures_pbind)

lemma ensures_try_catch [ensures_simps]:
  "ensures R (try_catch p ok h) Q w =
     ensures R p (\<lambda>r v. case r of Inl e \<Rightarrow> ensures R (h e) Q v | Inr a \<Rightarrow> ensures R (ok a) Q v) w"
  by (induction p arbitrary: w) simp_all

lemma ensures_atomically [ensures_simps]:
  fixes R :: "'w \<Rightarrow> 'w \<Rightarrow> bool"
  shows "ensures R (atomically f) Q w = (\<forall>v. R w v \<longrightarrow> Q (fst (f v)) (snd (f v)))"
proof -
  have "ensures R (case r of Inl e \<Rightarrow> Raise e | Inr a \<Rightarrow> Return a) Q u = Q r u" for r and u :: 'w
    by (cases r) simp_all
  then show ?thesis by (simp add: atomically_def)
qed

lemma ensures_reads [ensures_simps]: "ensures R (reads f) Q w = (\<forall>v. R w v \<longrightarrow> Q (Inr (f v)) v)"
  by (simp add: reads_def)

lemma ensures_does [ensures_simps]: "ensures R (does f) Q w = (\<forall>v. R w v \<longrightarrow> Q (Inr ()) (f v))"
  by (simp add: does_def)

lemma ensures_of_sum [ensures_simps]: "ensures R (of_sum r) Q w = Q r w"
  by (cases r) simp_all

lemma ensures_except_Exception [ensures_simps]:
  "ensures R (except_Exception h e) Q w =
     (if is_Exception e then ensures R (h e) Q w else Q (Inl e) w)"
  by (simp add: except_Exception_def)

lemma ensures_mono:
  "ensures R p Q w \<Longrightarrow> (\<And>r v. Q r v \<Longrightarrow> Q' r v) \<Longrightarrow> ensures R p Q' w"
  by (induction p arbitrary: w) auto

lemma ensures_always: "(\<And>r v. Q r v) \<Longrightarrow> ensures R p Q w"
  by (induction p arbitrary: w) auto

lemma ensures_conj:
  "ensures R p Q w \<Longrightarrow> ensures R p Q' w \<Longrightarrow> ensures R p (\<lambda>r v. Q r v \<and> Q' r v) w"
  by (induction p arbitrary: w) auto

text \<open>A program is only known by its guarantee: facts that it and the environment keep survive it.\<close>

lemma ensures_frame:
  assumes "\<And>u v. R u v \<Longrightarrow> P u \<Longrightarrow> P v" and "\<And>u v. G u v \<Longrightarrow> P u \<Longrightarrow> P v"
    and "\<And>r v. P v \<Longrightarrow> Q r v"
  shows "guar G p \<Longrightarrow> P w \<Longrightarrow> ensures R p Q w"
proof (induction p arbitrary: w)
  case (Step f n)
  then show ?case using assms(1,2) by fastforce
qed (simp_all add: assms(3))

text \<open>Under a deadline a block ends as it does without, or with TimeoutError in a world it may leave behind.\<close>

lemma ensures_with_deadline:
  assumes "\<And>u v. R u v \<Longrightarrow> R u (pop v)" and "\<And>u v. R u v \<Longrightarrow> P u \<Longrightarrow> P v"
    and "\<And>u v. G u v \<Longrightarrow> P u \<Longrightarrow> P v" and "\<And>v. P v \<Longrightarrow> Q (Inl (Err TimeoutError [])) v"
  shows "guar G p \<Longrightarrow> P w \<Longrightarrow> ensures R p Q w \<Longrightarrow> ensures R (with_deadline hit pop p) Q w"
proof (induction p arbitrary: w)
  case (Step f n)
  show ?case
    unfolding with_deadline.simps ensures.simps
  proof (intro allI impI)
    fix v assume v: "R w v"
    then have pop: "R w (pop v)" by (rule assms(1))
    then have P: "P (pop v)" by (rule assms(2)) (rule Step.prems(2))
    show "ensures R (if hit v then Raise (Err TimeoutError []) else with_deadline hit pop (n (pop v))) Q
        (if hit v then pop v else f (pop v))"
    proof (cases "hit v")
      case True
      with assms(4) [OF P] show ?thesis by simp
    next
      case False
      have "G (pop v) (f (pop v))" "guar G (n (pop v))" using Step.prems(1) by simp_all
      moreover from this(1) P have "P (f (pop v))" by (rule assms(3))
      moreover have "ensures R (n (pop v)) Q (f (pop v))" using Step.prems(3) pop by simp
      ultimately show ?thesis using False Step.IH by simp
    qed
  qed
qed simp_all

text \<open>Soundness: every run in such an environment ends as ensured.\<close>

lemma run_with_ensures:
  assumes "\<And>i w. R w (I i w)"
  shows "ensures R p Q w \<Longrightarrow> Q (fst (run_with p I i w)) (snd (run_with p I i w))"
  by (induction p arbitrary: i w) (use assms in auto)

lemma run_ensures:
  assumes "\<And>w. R w w" "ensures R p Q w"
  shows "Q (fst (run p w)) (snd (run p w))"
  using run_with_ensures [where I = "\<lambda>_ w. w", OF assms(1,2)] by (simp add: run_with_id)

end
