(* ===== verification/Models.thy ===== *)
theory Models
  imports Python
begin

text \<open>
  The data model (\<open>src/app/models.py\<close>): the enumerations, the row of table \<open>sandboxes\<close>, the set
  of active statuses, and the life cycle of a row as an abstract specification: which status may
  follow which.
\<close>

section \<open>Enumerations\<close>

datatype sandbox_type = HTTP

datatype deployment = STABLE | CANARY

datatype status = QUEUED | STARTING | RUNNING | STOPPING | STOPPED | FAILED

fun sandbox_type_value :: "sandbox_type \<Rightarrow> string" where
  "sandbox_type_value HTTP = ''http''"

fun deployment_value :: "deployment \<Rightarrow> string" where
  "deployment_value STABLE = ''stable''"
| "deployment_value CANARY = ''canary''"

fun status_value :: "status \<Rightarrow> string" where
  "status_value QUEUED = ''queued''"
| "status_value STARTING = ''starting''"
| "status_value RUNNING = ''running''"
| "status_value STOPPING = ''stopping''"
| "status_value STOPPED = ''stopped''"
| "status_value FAILED = ''failed''"

lemma status_value_inject [simp]: "status_value a = status_value b \<longleftrightarrow> a = b"
  by (cases a; cases b) simp_all

text \<open>Statuses are ordered by their position in the life cycle.\<close>

fun status_rank :: "status \<Rightarrow> nat" where
  "status_rank QUEUED = 0"
| "status_rank STARTING = 1"
| "status_rank RUNNING = 2"
| "status_rank STOPPING = 3"
| "status_rank STOPPED = 4"
| "status_rank FAILED = 5"

lemma status_rank_inject: "status_rank a = status_rank b \<Longrightarrow> a = b"
  by (cases a; cases b) simp_all

instantiation status :: linorder
begin

definition less_eq_status :: "status \<Rightarrow> status \<Rightarrow> bool" where
  "a \<le> b \<longleftrightarrow> status_rank a \<le> status_rank b"

definition less_status :: "status \<Rightarrow> status \<Rightarrow> bool" where
  "a < b \<longleftrightarrow> status_rank a < status_rank b"

instance
  by standard (auto simp: less_eq_status_def less_status_def intro: status_rank_inject)

end

section \<open>Rows\<close>

text \<open>Statuses that hold (or are about to hold) a container: they count against the cap.\<close>

definition ACTIVE_STATUSES :: "status set" where
  "ACTIVE_STATUSES = {QUEUED, STARTING, RUNNING, STOPPING}"

abbreviation terminal :: "status \<Rightarrow> bool" where
  "terminal s \<equiv> s \<notin> ACTIVE_STATUSES"

lemma active_iff [simp]:
  "QUEUED \<in> ACTIVE_STATUSES" "STARTING \<in> ACTIVE_STATUSES" "RUNNING \<in> ACTIVE_STATUSES"
  "STOPPING \<in> ACTIVE_STATUSES" "STOPPED \<notin> ACTIVE_STATUSES" "FAILED \<notin> ACTIVE_STATUSES"
  by (simp_all add: ACTIVE_STATUSES_def)

lemma active_cases: "s \<in> ACTIVE_STATUSES \<longleftrightarrow> s \<noteq> STOPPED \<and> s \<noteq> FAILED"
  by (cases s) simp_all

record sandbox =
  sid :: uuid
  type_of :: sandbox_type
  status :: status
  url :: "string option"
  error :: "string option"
  attempts :: int
  pool :: deployment
  expires_at :: datetime
  idempotency_key :: "string option"
  created_at :: datetime
  updated_at :: datetime

text \<open>
  \<open>Sandbox(id=\<dots>, type=\<dots>, status=\<dots>, deployment=\<dots>, expires_at=\<dots>, idempotency_key=\<dots>)\<close> with the
  column defaults of the other fields. The column \<open>deployment\<close> is the field \<open>pool\<close>.
\<close>

definition new_sandbox ::
    "uuid \<Rightarrow> sandbox_type \<Rightarrow> status \<Rightarrow> deployment \<Rightarrow> datetime \<Rightarrow> string option \<Rightarrow> datetime \<Rightarrow> sandbox" where
  "new_sandbox i t s d x k now =
     \<lparr>sid = i, type_of = t, status = s, url = None, error = None, attempts = 0, pool = d,
      expires_at = x, idempotency_key = k, created_at = now, updated_at = now\<rparr>"

text \<open>
  The widths of the columns: enumerations are stored by value as \<open>VARCHAR(20)\<close> (\<open>_str_enum\<close>), the
  idempotency key as \<open>VARCHAR(64)\<close>. The URL (\<open>VARCHAR(200)\<close>) holds whatever address the daemon
  published, and a longer one is an error of the statement that writes it.
\<close>

definition str_enum_length :: nat where
  "str_enum_length = 20"

definition fits_columns :: "sandbox \<Rightarrow> bool" where
  "fits_columns r \<longleftrightarrow>
     length (sandbox_type_value (type_of r)) \<le> str_enum_length \<and>
     length (status_value (status r)) \<le> str_enum_length \<and>
     length (deployment_value (pool r)) \<le> str_enum_length \<and>
     (case idempotency_key r of None \<Rightarrow> True | Some k \<Rightarrow> length k \<le> 64)"

text \<open>
  The status as the tag of the nullable columns: a row that has not run has no URL, a failed one says
  why, a running one has its URL and no error. The job's try number is never negative.
\<close>

fun tagged :: "status \<Rightarrow> string option \<Rightarrow> string option \<Rightarrow> bool" where
  "tagged QUEUED u e \<longleftrightarrow> u = None"
| "tagged STARTING u e \<longleftrightarrow> u = None"
| "tagged RUNNING u e \<longleftrightarrow> u \<noteq> None \<and> e = None"
| "tagged STOPPING u e \<longleftrightarrow> True"
| "tagged STOPPED u e \<longleftrightarrow> True"
| "tagged FAILED u e \<longleftrightarrow> e \<noteq> None"

definition well_typed :: "sandbox \<Rightarrow> bool" where
  "well_typed r \<longleftrightarrow> fits_columns r \<and> tagged (status r) (url r) (error r) \<and> 0 \<le> attempts r"

lemma enum_values_fit [simp]:
  "length (sandbox_type_value t) \<le> str_enum_length" "length (status_value s) \<le> str_enum_length"
  "length (deployment_value d) \<le> str_enum_length"
  by (cases t; cases s; cases d; simp add: str_enum_length_def)+

lemma fits_columns_key: "fits_columns r \<longleftrightarrow> (case idempotency_key r of None \<Rightarrow> True | Some k \<Rightarrow> length k \<le> 64)"
  by (simp add: fits_columns_def)

lemma well_typed_updated_at [simp]: "well_typed (r\<lparr>updated_at := t\<rparr>) = well_typed r"
  by (simp add: well_typed_def fits_columns_key)

text \<open>Columns no statement of the program writes after the insert.\<close>

definition same_identity :: "sandbox \<Rightarrow> sandbox \<Rightarrow> bool" where
  "same_identity r r' \<longleftrightarrow>
     sid r' = sid r \<and> type_of r' = type_of r \<and> pool r' = pool r \<and> expires_at r' = expires_at r \<and>
     idempotency_key r' = idempotency_key r \<and> created_at r' = created_at r"

lemma same_identity_refl [simp]: "same_identity r r"
  by (simp add: same_identity_def)

lemma same_identity_trans: "same_identity a b \<Longrightarrow> same_identity b c \<Longrightarrow> same_identity a c"
  by (simp add: same_identity_def)

lemma same_identity_fields [simp]:
  "same_identity r (r\<lparr>status := s\<rparr>) = True" "same_identity r (r'\<lparr>status := s\<rparr>) = same_identity r r'"
  "same_identity r (r'\<lparr>error := e\<rparr>) = same_identity r r'"
  "same_identity r (r'\<lparr>url := u\<rparr>) = same_identity r r'"
  "same_identity r (r'\<lparr>attempts := n\<rparr>) = same_identity r r'"
  "same_identity r (r'\<lparr>updated_at := t\<rparr>) = same_identity r r'"
  by (simp_all add: same_identity_def)

section \<open>The life cycle\<close>

text \<open>
  The abstract specification: one rule per status change the program intends. A row is queued,
  picked up (again after a redelivery), put back for a retry, running; it is stopped on request,
  by its time to live or by the reaper, and it fails for good. \<open>late_failure\<close> is the write of the
  API after a failed enqueue, which is not a compare-and-set.
\<close>

inductive edge :: "status \<Rightarrow> status \<Rightarrow> bool" where
  pick_up: "s \<in> {QUEUED, STARTING} \<Longrightarrow> edge s STARTING"
| back_off: "edge STARTING QUEUED"
| serve: "edge STARTING RUNNING"
| give_up: "edge STARTING FAILED"
| expire: "s \<in> {QUEUED, STARTING} \<Longrightarrow> edge s STOPPED"
| request_stop: "s \<in> ACTIVE_STATUSES \<Longrightarrow> edge s STOPPING"
| finish_stop: "edge STOPPING STOPPED"
| reap: "s \<in> ACTIVE_STATUSES \<Longrightarrow> edge s STOPPED"
| vanish: "edge RUNNING FAILED"
| late_failure: "edge s FAILED"

inductive_simps edge_simps: "edge s t"

abbreviation edges :: "status \<Rightarrow> status \<Rightarrow> bool" where
  "edges \<equiv> edge\<^sup>*\<^sup>*"

lemma edge_terminal: "edge s t \<Longrightarrow> terminal s \<Longrightarrow> terminal t"
  by (auto simp: edge_simps active_cases)

lemma edge_no_restart: "edge s t \<Longrightarrow> STOPPING \<le> s \<Longrightarrow> STOPPING \<le> t"
  by (cases s; cases t) (auto simp: edge_simps less_eq_status_def)

lemma edge_forward: "edge s t \<Longrightarrow> s \<le> t \<or> (s = STARTING \<and> t = QUEUED)"
  by (cases s; cases t) (auto simp: edge_simps less_eq_status_def)

lemma edges_terminal: "edges s t \<Longrightarrow> terminal s \<Longrightarrow> terminal t"
  by (induction rule: rtranclp_induct) (auto dest: edge_terminal)

lemma edges_no_restart: "edges s t \<Longrightarrow> STOPPING \<le> s \<Longrightarrow> STOPPING \<le> t"
  by (induction rule: rtranclp_induct) (auto dest: edge_no_restart)

lemma edges_failed: "edges s t \<Longrightarrow> s = FAILED \<Longrightarrow> t = FAILED"
  by (induction rule: rtranclp_induct) (auto simp: edge_simps)

text \<open>Over any number of writes a status only moves forward, but for the retry of a start.\<close>

lemma edges_forward: "edges s t \<Longrightarrow> s \<le> t \<or> (s = STARTING \<and> t = QUEUED)"
proof (induction rule: rtranclp_induct)
  case (step y z)
  then show ?case
    by (cases s; cases y; cases z) (simp_all add: edge_simps less_eq_status_def)
qed simp

end
