(* ===== verification/Db.thy ===== *)
theory Db
  imports Settings
begin

text \<open>
  The schema at start-up (\<open>src/app/db.py\<close>): \<open>create_all\<close> makes the tables that do not exist, the DDL of
  \<open>_ADD_COLUMNS\<close> then adds to a table of the previous release the columns it lacks. A table is
  the list of its columns; the columns of \<open>sandboxes\<close> are those of \<open>Sandbox\<close> (\<open>src/app/models.py\<close>).
\<close>

text \<open>The arguments of \<open>create_async_engine\<close>; \<open>connect_timeout\<close> and \<open>command_timeout\<close> are its \<open>connect_args\<close>.\<close>

record engine =
  engine_url :: string
  pool_size :: int
  max_overflow :: int
  pool_timeout :: rat
  pool_pre_ping :: bool
  connect_timeout :: rat
  command_timeout :: rat

definition make_engine :: "settings \<Rightarrow> engine" where
  "make_engine s =
     \<lparr>engine_url = database_url s, pool_size = db_pool_size s, max_overflow = db_pool_size s,
      pool_timeout = db_timeout_s s, pool_pre_ping = True, connect_timeout = db_timeout_s s,
      command_timeout = db_timeout_s s\<rparr>"

record sessionmaker =
  session_engine :: engine
  expire_on_commit :: bool

definition make_sessionmaker :: "engine \<Rightarrow> sessionmaker" where
  "make_sessionmaker e = \<lparr>session_engine = e, expire_on_commit = False\<rparr>"

record column =
  col_name :: string
  col_type :: string
  col_nullable :: bool
  col_default :: "string option"
  col_unique :: bool

type_synonym schema = "string \<rightharpoonup> column list"

abbreviation not_null :: "string \<Rightarrow> string \<Rightarrow> column" where
  "not_null n t \<equiv> \<lparr>col_name = n, col_type = t, col_nullable = False, col_default = None, col_unique = False\<rparr>"

text \<open>Enumerations are stored as \<open>VARCHAR(20)\<close>; a primary key is unique and not null.\<close>

definition sandbox_columns :: "column list" where
  "sandbox_columns =
     [(not_null ''id'' ''UUID'')\<lparr>col_unique := True\<rparr>,
      not_null ''type'' ''VARCHAR(20)'',
      not_null ''status'' ''VARCHAR(20)'',
      (not_null ''url'' ''VARCHAR(200)'')\<lparr>col_nullable := True\<rparr>,
      (not_null ''error'' ''TEXT'')\<lparr>col_nullable := True\<rparr>,
      not_null ''attempts'' ''INTEGER'',
      (not_null ''deployment'' ''VARCHAR(20)'')\<lparr>col_default := Some ''stable''\<rparr>,
      not_null ''expires_at'' ''TIMESTAMP WITH TIME ZONE'',
      (not_null ''idempotency_key'' ''VARCHAR(64)'')\<lparr>col_nullable := True, col_unique := True\<rparr>,
      not_null ''created_at'' ''TIMESTAMP WITH TIME ZONE'',
      not_null ''updated_at'' ''TIMESTAMP WITH TIME ZONE'']"

text \<open>\<open>Base.metadata\<close>, and the statements of \<open>_ADD_COLUMNS\<close> as pairs of a table and a column.\<close>

definition metadata :: "(string \<times> column list) list" where
  "metadata = [(''sandboxes'', sandbox_columns)]"

definition ADD_COLUMNS :: "(string \<times> column) list" where
  "ADD_COLUMNS = [(''sandboxes'', (not_null ''deployment'' ''VARCHAR(20)'')\<lparr>col_default := Some ''stable''\<rparr>)]"

definition create_table :: "string \<times> column list \<Rightarrow> schema \<Rightarrow> schema" where
  "create_table tc sch = (case sch (fst tc) of None \<Rightarrow> sch(fst tc \<mapsto> snd tc) | Some _ \<Rightarrow> sch)"

definition create_all :: "schema \<Rightarrow> schema" where
  "create_all sch = fold create_table metadata sch"

text \<open>\<open>ALTER TABLE t ADD COLUMN IF NOT EXISTS c\<close>.\<close>

definition add_column :: "string \<times> column \<Rightarrow> schema \<Rightarrow> exn + schema" where
  "add_column tc sch =
     (case sch (fst tc) of
        None \<Rightarrow> Inl (Err (OtherError ''ProgrammingError'') ''relation does not exist'')
      | Some cols \<Rightarrow>
          if col_name (snd tc) \<in> set (map col_name cols) then Inr sch
          else Inr (sch(fst tc \<mapsto> cols @ [snd tc])))"

primrec add_columns :: "(string \<times> column) list \<Rightarrow> schema \<Rightarrow> exn + schema" where
  "add_columns [] sch = Inr sch"
| "add_columns (tc # tcs) sch = (case add_column tc sch of Inl e \<Rightarrow> Inl e | Inr sch' \<Rightarrow> add_columns tcs sch')"

text \<open>The body of the transaction of \<open>create_schema\<close>.\<close>

definition schema_ddl :: "schema \<Rightarrow> exn + schema" where
  "schema_ddl sch = add_columns ADD_COLUMNS (create_all sch)"

section \<open>Expand-only\<close>

text \<open>
  A table may take the place of another for the code written against it if it has the same
  columns and further ones that an insert may leave out.
\<close>

definition optional :: "column \<Rightarrow> bool" where
  "optional c \<longleftrightarrow> col_nullable c \<or> col_default c \<noteq> None"

definition expands :: "column list \<Rightarrow> column list \<Rightarrow> bool" where
  "expands cols cols' \<longleftrightarrow> (\<exists>new. cols' = cols @ new \<and> list_all optional new)"

definition schema_expands :: "schema \<Rightarrow> schema \<Rightarrow> bool" where
  "schema_expands sch sch' \<longleftrightarrow>
     (\<forall>t cols. sch t = Some cols \<longrightarrow> (\<exists>cols'. sch' t = Some cols' \<and> expands cols cols'))"

text \<open>An insert that names the columns \<open>ns\<close> is well formed: they exist, and it names the required ones.\<close>

definition insert_ok :: "string set \<Rightarrow> column list \<Rightarrow> bool" where
  "insert_ok ns cols \<longleftrightarrow>
     ns \<subseteq> set (map col_name cols) \<and> (\<forall>c \<in> set cols. optional c \<or> col_name c \<in> ns)"

lemma insert_ok_expands: "insert_ok ns cols \<Longrightarrow> expands cols cols' \<Longrightarrow> insert_ok ns cols'"
  by (auto simp: insert_ok_def expands_def list_all_iff)

lemma schema_ddl_eq:
  "schema_ddl sch = Inr (case sch ''sandboxes'' of
     None \<Rightarrow> sch(''sandboxes'' \<mapsto> sandbox_columns)
   | Some cols \<Rightarrow>
       if ''deployment'' \<in> set (map col_name cols) then sch
       else sch(''sandboxes'' \<mapsto> cols @ [(not_null ''deployment'' ''VARCHAR(20)'')\<lparr>col_default := Some ''stable''\<rparr>]))"
  by (auto simp: schema_ddl_def create_all_def metadata_def create_table_def ADD_COLUMNS_def add_column_def
      sandbox_columns_def split: option.split)

text \<open>C34. Creating the schema is expand-only and idempotent: on any database it succeeds, a second run
  changes nothing, tables and columns are never dropped or altered, and every insert that the
  previous release makes is still well formed; where there was no table, it makes that of the
  model.\<close>

theorem create_schema_is_expand_only:
  "\<exists>sch'. schema_ddl sch = Inr sch' \<and> schema_ddl sch' = Inr sch' \<and> schema_expands sch sch' \<and>
     (\<forall>t cols ns. sch t = Some cols \<longrightarrow> insert_ok ns cols \<longrightarrow> insert_ok ns (the (sch' t))) \<and>
     (sch ''sandboxes'' = None \<longrightarrow> sch' ''sandboxes'' = Some sandbox_columns)"
proof -
  obtain sch' where sch': "schema_ddl sch = Inr sch'" by (simp add: schema_ddl_eq)
  have expands: "schema_expands sch sch'"
    using sch' by (auto simp: schema_ddl_eq schema_expands_def expands_def optional_def split: option.splits if_splits)
  have "schema_ddl sch' = Inr sch'"
    using sch' by (auto simp: schema_ddl_eq sandbox_columns_def split: option.splits if_splits)
  moreover have "insert_ok ns (the (sch' t))" if "sch t = Some cols" "insert_ok ns cols" for t cols ns
    using expands that insert_ok_expands unfolding schema_expands_def by force
  moreover have "sch' ''sandboxes'' = Some sandbox_columns" if "sch ''sandboxes'' = None"
    using sch' that by (auto simp: schema_ddl_eq)
  ultimately show ?thesis using sch' expands by (intro exI [of _ sch'] conjI allI impI)
qed

text \<open>The table of the release before pools existed.\<close>

definition previous_columns :: "column list" where
  "previous_columns = filter (\<lambda>c. col_name c \<noteq> ''deployment'') sandbox_columns"

theorem create_schema_is_expand_only_witness:
  "\<exists>sch'. schema_ddl [''sandboxes'' \<mapsto> previous_columns] = Inr sch' \<and>
     insert_ok (set (map col_name previous_columns)) (the (sch' ''sandboxes''))"
proof -
  let ?sch = "[''sandboxes'' \<mapsto> previous_columns] :: schema"
  have "?sch ''sandboxes'' = Some previous_columns" by simp
  moreover have "insert_ok (set (map col_name previous_columns)) previous_columns" by (auto simp: insert_ok_def)
  ultimately show ?thesis
    using create_schema_is_expand_only [of ?sch] by metis
qed

end
