(* ===== verification/World.thy ===== *)
theory World
  imports Async Settings Db
begin

text \<open>
  What the processes share: the schema and the table \<open>sandboxes\<close> in Postgres, the key-value store in Redis, the
  clock, the metrics they emit, and everything outside the repository as one abstract state
  \<open>'e\<close> reached through the calls of a \<open>services\<close> record (Docker daemon, sandbox web servers,
  arq's queue). The statements the program sends to Postgres and Redis are given their documented
  meaning; any of them may fail, as \<open>faults\<close> decides, before or after it took effect.
  The clock only moves between steps (the environment moves it).
\<close>

section \<open>Services: code outside the repository\<close>

record container =
  c_id :: string
  c_name :: string
  c_status :: string
  c_ports :: "(string \<times> string list) list"  \<comment> \<open>container port to host ports\<close>
  c_labels :: "(string \<times> string) list"

text \<open>The keyword arguments of \<open>client.containers.run\<close>.\<close>

record run_spec =
  run_image :: string
  command :: "string list"
  name :: string
  detach :: bool
  labels :: "(string \<times> string) list"
  network :: string
  ports :: "(string \<times> string) list"  \<comment> \<open>container port to host address; the host port is left open\<close>
  user :: string
  read_only :: bool
  cap_drop :: "string list"
  security_opt :: "string list"
  mem_limit :: string
  nano_cpus :: int
  pids_limit :: int

text \<open>
  \<open>http_get\<close> also tells how long the request took; \<open>enqueue_job f arg id queue\<close> returns whether
  a job was created (arq returns None for a known id).
\<close>

record 'e services =
  containers_get :: "string \<Rightarrow> 'e \<Rightarrow> (exn + container) \<times> 'e"
  containers_run :: "run_spec \<Rightarrow> 'e \<Rightarrow> (exn + container) \<times> 'e"
  container_remove :: "container \<Rightarrow> 'e \<Rightarrow> (exn + unit) \<times> 'e"
  container_reload :: "container \<Rightarrow> 'e \<Rightarrow> (exn + container) \<times> 'e"
  containers_list :: "string \<Rightarrow> 'e \<Rightarrow> (exn + container list) \<times> 'e"
  images_get :: "string \<Rightarrow> 'e \<Rightarrow> (exn + unit) \<times> 'e"
  images_pull :: "string \<Rightarrow> 'e \<Rightarrow> (exn + unit) \<times> 'e"
  http_get :: "string \<Rightarrow> 'e \<Rightarrow> ((exn + int) \<times> int) \<times> 'e"
  enqueue_job :: "string \<Rightarrow> string \<Rightarrow> string \<Rightarrow> string \<Rightarrow> 'e \<Rightarrow> (exn + bool) \<times> 'e"
  zcount :: "string \<Rightarrow> int \<Rightarrow> 'e \<Rightarrow> (exn + int) \<times> 'e"
  redis_ping :: "'e \<Rightarrow> (exn + unit) \<times> 'e"
  docker_from_env :: "'e \<Rightarrow> (exn + unit) \<times> 'e"
  start_http_server :: "int \<Rightarrow> 'e \<Rightarrow> (exn + unit) \<times> 'e"

section \<open>Metrics\<close>

text \<open>
  The samples of \<open>src/app/metrics.py\<close>: counters by their labels, histograms by their labels and the
  observed time in microseconds. \<open>Inserted\<close>, \<open>Sent\<close> and \<open>ACCESS_LOG\<close> are no metrics: they record, in
  the same order, when a row was committed, when a job was handed to the queue, and the access log
  line of a request (its id, method, route and status).
\<close>

datatype event =
    JOBS_ENQUEUED string string deployment
  | JOB_QUEUE_WAIT string deployment int
  | JOBS string string deployment
  | JOB_LATENCY string deployment int
  | TIME_TO_RUNNING deployment int
  | SANDBOXES_REAPED string
  | RECONCILE_RUNS string
  | HTTP_REQUESTS string string string
  | HTTP_LATENCY string string int
  | ACCESS_LOG string string string int
  | WORKER_INFO deployment string
  | Inserted uuid
  | Sent string uuid deployment

text \<open>Gauges have a value per label; a gauge without labels has its value under the empty string.\<close>

datatype gauge = QUEUE_DEPTH | ROLLOUT_CANARY_WEIGHT | SANDBOXES_ACTIVE | SANDBOX_OLDEST | SANDBOX_CAPACITY

type_synonym gauge_values = "gauge \<Rightarrow> string \<Rightarrow> rat option"

section \<open>The world\<close>

datatype fault = Fine | Before exn | After exn

record 'e world =
  tables :: schema
  sandboxes :: "sandbox list"
  redis :: "string \<rightharpoonup> string"
  ext :: 'e
  clock :: datetime
  faults :: "fault list"
  deadlines :: "bool list"
  emitted :: "event list"
  gauges :: gauge_values

definition emit :: "event \<Rightarrow> ('e world, unit) prog" where
  "emit ev = does (\<lambda>w. w\<lparr>emitted := emitted w @ [ev]\<rparr>)"

definition get_now :: "('e world, datetime) prog" where
  "get_now = reads clock"

text \<open>A call of a service, and a statement sent to Postgres or Redis.\<close>

definition call :: "('e \<Rightarrow> (exn + 'a) \<times> 'e) \<Rightarrow> ('e world, 'a) prog" where
  "call f = atomically (\<lambda>w. let (r, x) = f (ext w) in (r, w\<lparr>ext := x\<rparr>))"

text \<open>The call that hands a job to the queue; \<open>ev\<close> records it.\<close>

definition recorded_call :: "event \<Rightarrow> ('e \<Rightarrow> (exn + 'a) \<times> 'e) \<Rightarrow> ('e world, 'a) prog" where
  "recorded_call ev f =
     atomically (\<lambda>w. let (r, x) = f (ext w) in (r, w\<lparr>ext := x, emitted := emitted w @ [ev]\<rparr>))"

definition next_fault :: "'e world \<Rightarrow> fault" where
  "next_fault w = (case faults w of [] \<Rightarrow> Fine | f # _ \<Rightarrow> f)"

definition statement :: "('e world \<Rightarrow> (exn + 'a) \<times> 'e world) \<Rightarrow> ('e world, 'a) prog" where
  "statement f = atomically (\<lambda>w.
     let v = w\<lparr>faults := tl (faults w)\<rparr> in
     case next_fault w of
       Fine \<Rightarrow> f v
     | Before e \<Rightarrow> (Inl e, v)
     | After e \<Rightarrow> (Inl e, snd (f v)))"

text \<open>
  \<open>asyncio.timeout(s)\<close>. The length of the block's deadline is not part of the model: it may pass at
  any await inside (\<open>deadlines\<close> decides), so every theorem holds for every length.
\<close>

definition asyncio_timeout :: "rat \<Rightarrow> ('e world, 'a) prog \<Rightarrow> ('e world, 'a) prog" where
  "asyncio_timeout s p =
     with_deadline (\<lambda>w. deadlines w \<noteq> [] \<and> hd (deadlines w)) (\<lambda>w. w\<lparr>deadlines := tl (deadlines w)\<rparr>) p"

section \<open>Statements on the table\<close>

definition find_row :: "uuid \<Rightarrow> sandbox list \<Rightarrow> sandbox option" where
  "find_row i = find (\<lambda>r. sid r = i)"

text \<open>\<open>UPDATE sandboxes SET \<dots> WHERE \<dots>\<close>; the column \<open>updated_at\<close> has \<open>onupdate=_now\<close>.\<close>

definition update_rows :: "(sandbox \<Rightarrow> bool) \<Rightarrow> (sandbox \<Rightarrow> sandbox) \<Rightarrow> datetime \<Rightarrow> sandbox list \<Rightarrow> sandbox list" where
  "update_rows P f now = map (\<lambda>r. if P r then (f r)\<lparr>updated_at := now\<rparr> else r)"

text \<open>The primary key and the unique constraint on \<open>idempotency_key\<close> (NULLs are distinct).\<close>

definition violates_unique :: "sandbox \<Rightarrow> sandbox list \<Rightarrow> bool" where
  "violates_unique r rows \<longleftrightarrow>
     (\<exists>q \<in> set rows. sid q = sid r \<or> (idempotency_key r \<noteq> None \<and> idempotency_key q = idempotency_key r))"

definition db_get :: "uuid \<Rightarrow> ('e world, sandbox option) prog" where
  "db_get i = statement (\<lambda>w. (Inr (find_row i (sandboxes w)), w))"

definition db_select :: "(sandbox \<Rightarrow> bool) \<Rightarrow> ('e world, sandbox list) prog" where
  "db_select P = statement (\<lambda>w. (Inr (filter P (sandboxes w)), w))"

text \<open>
  An UPDATE together with the commit that follows it, and its row count. The row locks of the
  UPDATE are held until the commit and nothing is visible before, so the pair is one atomic step.
\<close>

definition db_update :: "(sandbox \<Rightarrow> bool) \<Rightarrow> (sandbox \<Rightarrow> sandbox) \<Rightarrow> ('e world, nat) prog" where
  "db_update P f = statement (\<lambda>w.
     (Inr (length (filter P (sandboxes w))), w\<lparr>sandboxes := update_rows P f (clock w) (sandboxes w)\<rparr>))"

text \<open>\<open>session.add(r)\<close> and the commit that inserts it.\<close>

definition db_insert :: "sandbox \<Rightarrow> ('e world, unit) prog" where
  "db_insert r = statement (\<lambda>w.
     if violates_unique r (sandboxes w) then (Inl (Err IntegrityError ''duplicate key''), w)
     else (Inr (), w\<lparr>sandboxes := sandboxes w @ [r], emitted := emitted w @ [Inserted (sid r)]\<rparr>))"

text \<open>The commit that ends a read-only transaction.\<close>

definition db_commit :: "('e world, unit) prog" where
  "db_commit = statement (\<lambda>w. (Inr (), w))"

definition redis_get :: "string \<Rightarrow> ('e world, string option) prog" where
  "redis_get k = statement (\<lambda>w. (Inr (redis w k), w))"

text \<open>\<open>SET key value GET\<close>: stores and returns the previous value.\<close>

definition redis_set :: "string \<Rightarrow> string \<Rightarrow> ('e world, string option) prog" where
  "redis_set k v = statement (\<lambda>w. (Inr (redis w k), w\<lparr>redis := (redis w)(k \<mapsto> v)\<rparr>))"

section \<open>Worlds without faults\<close>

definition quiet :: "'e world \<Rightarrow> bool" where
  "quiet w \<longleftrightarrow> faults w = [] \<and> deadlines w = []"

lemma quiet_update [simp]:
  "quiet (w\<lparr>emitted := ev\<rparr>) = quiet w" "quiet (w\<lparr>sandboxes := rows\<rparr>) = quiet w"
  "quiet (w\<lparr>ext := x\<rparr>) = quiet w" "quiet (w\<lparr>redis := m\<rparr>) = quiet w"
  "quiet (w\<lparr>gauges := g\<rparr>) = quiet w" "quiet (w\<lparr>tables := d\<rparr>) = quiet w"
  by (simp_all add: quiet_def)

lemma next_fault_simps [simp]: "faults w = [] \<Longrightarrow> next_fault w = Fine"
  by (simp add: next_fault_def)

lemma run_emit [run_simps]: "run (emit ev) w = (Inr (), w\<lparr>emitted := emitted w @ [ev]\<rparr>)"
  by (simp add: emit_def run_does)

lemma run_get_now [run_simps]: "run get_now w = (Inr (clock w), w)"
  by (simp add: get_now_def run_reads)

lemma run_call [run_simps]: "run (call f) w = (fst (f (ext w)), w\<lparr>ext := snd (f (ext w))\<rparr>)"
  by (simp add: call_def run_atomically split: prod.split)

lemma run_recorded_call [run_simps]:
  "run (recorded_call ev f) w =
     (fst (f (ext w)), w\<lparr>ext := snd (f (ext w)), emitted := emitted w @ [ev]\<rparr>)"
  by (simp add: recorded_call_def run_atomically split: prod.split)

lemma run_statement_quiet:
  "faults w = [] \<Longrightarrow> run (statement f) w = f w"
  by (cases w) (simp add: statement_def run_atomically)

lemma run_db_get [run_simps]: "faults w = [] \<Longrightarrow> run (db_get i) w = (Inr (find_row i (sandboxes w)), w)"
  by (simp add: db_get_def run_statement_quiet)

lemma run_db_select [run_simps]:
  "faults w = [] \<Longrightarrow> run (db_select P) w = (Inr (filter P (sandboxes w)), w)"
  by (simp add: db_select_def run_statement_quiet)

lemma run_db_update [run_simps]:
  "faults w = [] \<Longrightarrow> run (db_update P f) w =
     (Inr (length (filter P (sandboxes w))), w\<lparr>sandboxes := update_rows P f (clock w) (sandboxes w)\<rparr>)"
  by (simp add: db_update_def run_statement_quiet)

lemma run_db_insert [run_simps]:
  "faults w = [] \<Longrightarrow> run (db_insert r) w =
     (if violates_unique r (sandboxes w) then (Inl (Err IntegrityError ''duplicate key''), w)
      else (Inr (), w\<lparr>sandboxes := sandboxes w @ [r], emitted := emitted w @ [Inserted (sid r)]\<rparr>))"
  by (simp add: db_insert_def run_statement_quiet)

lemma run_db_commit [run_simps]: "faults w = [] \<Longrightarrow> run db_commit w = (Inr (), w)"
  by (simp add: db_commit_def run_statement_quiet)

lemma run_redis_get [run_simps]: "faults w = [] \<Longrightarrow> run (redis_get k) w = (Inr (redis w k), w)"
  by (simp add: redis_get_def run_statement_quiet)

lemma run_redis_set [run_simps]:
  "faults w = [] \<Longrightarrow> run (redis_set k v) w = (Inr (redis w k), w\<lparr>redis := (redis w)(k \<mapsto> v)\<rparr>)"
  by (simp add: redis_set_def run_statement_quiet)

end
