(* ===== verification/Table.thy ===== *)
theory Table
  imports World
begin

text \<open>
  Facts about the table: what a lookup returns after an update or an insert, the
  compare-and-set contract every status change of the program relies on, and the relation
  \<open>evolves\<close>: how the table may change when only legal writes happen.
\<close>

section \<open>Lookup after update and insert\<close>

lemma find_row_update_rows:
  assumes "\<And>r. sid (f r) = sid r"
  shows "find_row i (update_rows P f now rows) =
    map_option (\<lambda>r. if P r then (f r)\<lparr>updated_at := now\<rparr> else r) (find_row i rows)"
  unfolding find_row_def update_rows_def
  by (rule find_map_same) (simp add: assms)

lemma find_row_append:
  "find_row i (rows @ [r]) =
     (case find_row i rows of Some q \<Rightarrow> Some q | None \<Rightarrow> if sid r = i then Some r else None)"
  by (simp add: find_row_def find_append split: option.split)

lemma find_row_sid: "find_row i rows = Some r \<Longrightarrow> sid r = i"
  unfolding find_row_def by (auto dest: find_SomeD)

lemma find_row_in: "find_row i rows = Some r \<Longrightarrow> r \<in> set rows"
  unfolding find_row_def by (auto dest: find_SomeD)

lemma find_row_mem: "distinct (map sid rows) \<Longrightarrow> r \<in> set rows \<Longrightarrow> find_row (sid r) rows = Some r"
  unfolding find_row_def by (rule find_distinct_key)

lemma find_row_None: "find_row i rows = None \<longleftrightarrow> i \<notin> sid ` set rows"
  unfolding find_row_def by (auto simp: find_None_iff_set)

lemma map_sid_update_rows [simp]:
  "(\<And>r. sid (f r) = sid r) \<Longrightarrow> map sid (update_rows P f now rows) = map sid rows"
  by (simp add: update_rows_def)

lemma update_rows_id: "(\<And>r. r \<in> set rows \<Longrightarrow> \<not> P r) \<Longrightarrow> update_rows P f now rows = rows"
  by (induction rows) (auto simp: update_rows_def)

section \<open>Compare-and-set\<close>

text \<open>
  The contract of a compare-and-set on the state of a record: it changes the record exactly when
  its state is among the expected ones, says whether it did, and touches nothing else.
\<close>

locale compare_and_set =
  fixes lookup :: "'k \<Rightarrow> 't \<Rightarrow> 'r option"
    and state :: "'r \<Rightarrow> 's"
    and cas :: "'k \<Rightarrow> 's set \<Rightarrow> ('r \<Rightarrow> 'r) \<Rightarrow> 't \<Rightarrow> bool \<times> 't"
    and ok :: "'t \<Rightarrow> ('r \<Rightarrow> 'r) \<Rightarrow> bool"
  assumes cas_result: "ok t f \<Longrightarrow> fst (cas k S f t) \<longleftrightarrow> (\<exists>r. lookup k t = Some r \<and> state r \<in> S)"
    and cas_hit: "ok t f \<Longrightarrow> lookup k t = Some r \<Longrightarrow> state r \<in> S \<Longrightarrow> lookup k (snd (cas k S f t)) = Some (f r)"
    and cas_miss: "ok t f \<Longrightarrow> \<not> fst (cas k S f t) \<Longrightarrow> snd (cas k S f t) = t"
    and cas_other: "ok t f \<Longrightarrow> j \<noteq> k \<Longrightarrow> lookup j (snd (cas k S f t)) = lookup j t"
    and cas_ok: "ok t f \<Longrightarrow> ok t g \<Longrightarrow> ok (snd (cas k S f t)) g"
begin

text \<open>Of two writers that leave the expected states, at most one succeeds.\<close>

lemma second_writer_loses:
  assumes "ok t f" "ok t g" "fst (cas k S f t)" "\<And>r. state (f r) \<notin> S"
  shows "\<not> fst (cas k S g (snd (cas k S f t)))"
proof -
  from assms(1,3) obtain r where "lookup k t = Some r" "state r \<in> S"
    by (auto simp: cas_result)
  with assms(1) have "lookup k (snd (cas k S f t)) = Some (f r)" by (rule cas_hit)
  with assms(1,2,4) show ?thesis by (auto simp: cas_result cas_ok)
qed

text \<open>A record whose state no writer expects is never changed again.\<close>

lemma unexpected_state_stays:
  assumes "ok t f" "lookup k t = Some r" "state r \<notin> S"
  shows "\<not> fst (cas k S f t) \<and> snd (cas k S f t) = t"
  using assms cas_miss by (auto simp: cas_result)

end

text \<open>The table's compare-and-set, as one UPDATE with its row count compared to 1.\<close>

definition cas_rows ::
    "datetime \<Rightarrow> uuid \<Rightarrow> status set \<Rightarrow> (sandbox \<Rightarrow> sandbox) \<Rightarrow> sandbox list \<Rightarrow> bool \<times> sandbox list" where
  "cas_rows now i S f rows =
     (length (filter (\<lambda>r. sid r = i \<and> status r \<in> S) rows) = 1,
      update_rows (\<lambda>r. sid r = i \<and> status r \<in> S) f now rows)"

definition cas_safe :: "datetime \<Rightarrow> sandbox list \<Rightarrow> (sandbox \<Rightarrow> sandbox) \<Rightarrow> bool" where
  "cas_safe now rows f \<longleftrightarrow>
     distinct (map sid rows) \<and> (\<forall>r. sid (f r) = sid r) \<and> (\<forall>r. (f r)\<lparr>updated_at := now\<rparr> = f r)"

lemma rowcount_1:
  assumes "distinct (map sid rows)"
  shows "length (filter (\<lambda>r. sid r = i \<and> Q r) rows) = 1 \<longleftrightarrow> (\<exists>r. find_row i rows = Some r \<and> Q r)"
  using length_filter_le_1 [OF assms, of i Q] by (auto simp: find_row_def split: option.splits)

interpretation cas: compare_and_set find_row status "cas_rows now" "cas_safe now" for now
proof unfold_locales
  fix t :: "sandbox list" and f g :: "sandbox \<Rightarrow> sandbox" and k j :: uuid and S r
  show "cas_safe now t f \<Longrightarrow> fst (cas_rows now k S f t) \<longleftrightarrow> (\<exists>r. find_row k t = Some r \<and> status r \<in> S)"
    by (simp add: cas_rows_def cas_safe_def rowcount_1 del: One_nat_def)
  show "cas_safe now t f \<Longrightarrow> find_row k t = Some r \<Longrightarrow> status r \<in> S \<Longrightarrow>
      find_row k (snd (cas_rows now k S f t)) = Some (f r)"
    by (simp add: cas_rows_def cas_safe_def find_row_update_rows find_row_sid)
  show "cas_safe now t f \<Longrightarrow> \<not> fst (cas_rows now k S f t) \<Longrightarrow> snd (cas_rows now k S f t) = t"
    using find_row_mem [of t] by (auto simp: cas_rows_def cas_safe_def rowcount_1 intro!: update_rows_id simp del: One_nat_def)
  show "cas_safe now t f \<Longrightarrow> j \<noteq> k \<Longrightarrow> find_row j (snd (cas_rows now k S f t)) = find_row j t"
    by (cases "find_row j t")
       (auto simp: cas_rows_def cas_safe_def find_row_update_rows dest: find_row_sid)
  show "cas_safe now t f \<Longrightarrow> cas_safe now t g \<Longrightarrow> cas_safe now (snd (cas_rows now k S f t)) g"
    by (simp add: cas_rows_def cas_safe_def)
qed

section \<open>Legal evolution of the table\<close>

text \<open>A running row has the URL it serves on and no error.\<close>

definition row_ok :: "sandbox \<Rightarrow> bool" where
  "row_ok r \<longleftrightarrow> (status r = RUNNING \<longrightarrow> url r \<noteq> None \<and> error r = None)"

definition legal_write :: "sandbox \<Rightarrow> sandbox \<Rightarrow> bool" where
  "legal_write r r' \<longleftrightarrow> same_identity r r' \<and> edge (status r) (status r') \<and> row_ok r'"

definition unique_keys :: "sandbox list \<Rightarrow> bool" where
  "unique_keys rows \<longleftrightarrow>
     distinct (map sid rows) \<and> distinct (filter (\<lambda>k. k \<noteq> None) (map idempotency_key rows))"

definition table_ok :: "sandbox list \<Rightarrow> bool" where
  "table_ok rows \<longleftrightarrow> unique_keys rows \<and> (\<forall>r \<in> set rows. row_ok r)"

definition evolves :: "sandbox list \<Rightarrow> sandbox list \<Rightarrow> bool" where
  "evolves rows rows' \<longleftrightarrow>
     (\<forall>i r. find_row i rows = Some r \<longrightarrow>
        (\<exists>r'. find_row i rows' = Some r' \<and> same_identity r r' \<and> edges (status r) (status r'))) \<and>
     (table_ok rows \<longrightarrow> table_ok rows')"

lemma evolves_refl [simp]: "evolves rows rows"
  by (auto simp: evolves_def)

lemma evolves_trans: "evolves a b \<Longrightarrow> evolves b c \<Longrightarrow> evolves a c"
  unfolding evolves_def by (metis (no_types, lifting) rtranclp_trans same_identity_trans)

lemma legal_write_row: "legal_write r r' \<Longrightarrow> sid r' = sid r \<and> idempotency_key r' = idempotency_key r"
  by (simp add: legal_write_def same_identity_def)

lemma unique_keys_update_rows:
  assumes "\<And>r. P r \<Longrightarrow> same_identity r (f r)"
  shows "unique_keys (update_rows P f now rows) = unique_keys rows"
proof -
  have "map sid (update_rows P f now rows) = map sid rows"
    "map idempotency_key (update_rows P f now rows) = map idempotency_key rows"
    using assms by (auto simp: update_rows_def same_identity_def)
  then show ?thesis by (simp add: unique_keys_def)
qed

lemma evolves_update_rows:
  assumes "\<And>r. P r \<Longrightarrow> legal_write r (f r)"
  shows "evolves rows (update_rows P f now rows)"
proof -
  let ?g = "\<lambda>r. if P r then (f r)\<lparr>updated_at := now\<rparr> else r"
  have id: "same_identity r (?g r)" and ed: "edges (status r) (status (?g r))" for r
    using assms by (auto simp: legal_write_def)
  have "find_row i (update_rows P f now rows) = map_option ?g (find_row i rows)" for i
    unfolding find_row_def update_rows_def using id by (intro find_map_same) (simp add: same_identity_def)
  with id ed have "\<exists>r'. find_row i (update_rows P f now rows) = Some r' \<and> same_identity r r' \<and> edges (status r) (status r')"
    if "find_row i rows = Some r" for i r using that by simp
  moreover have "table_ok (update_rows P f now rows)" if "table_ok rows"
    using that assms unique_keys_update_rows [of P f now rows]
    by (auto simp: table_ok_def legal_write_def update_rows_def row_ok_def)
  ultimately show ?thesis by (simp add: evolves_def)
qed

lemma evolves_insert:
  assumes "\<not> violates_unique r rows" "row_ok r"
  shows "evolves rows (rows @ [r])"
proof -
  have "unique_keys (rows @ [r])" if "unique_keys rows"
    using that assms(1) by (auto simp: unique_keys_def violates_unique_def)
  with assms(2) show ?thesis
    by (auto simp: evolves_def table_ok_def find_row_append)
qed

definition db_evolves :: "'e world \<Rightarrow> 'e world \<Rightarrow> bool" where
  "db_evolves w w' \<longleftrightarrow> evolves (sandboxes w) (sandboxes w')"

interpretation db: guarantee db_evolves
  by unfold_locales (auto simp: db_evolves_def intro: evolves_trans)

text \<open>Steps that leave the table alone; a program may be shown to take only such steps.\<close>

definition same_db :: "'e world \<Rightarrow> 'e world \<Rightarrow> bool" where
  "same_db w w' \<longleftrightarrow> sandboxes w' = sandboxes w"

interpretation frame: guarantee same_db
  by unfold_locales (auto simp: same_db_def)

lemma guar_same_db: "guar same_db p \<Longrightarrow> guar db_evolves p"
  by (erule guar_mono) (simp add: same_db_def db_evolves_def)

section \<open>Which statements and calls keep the table, and which evolve it\<close>

lemma guar_statement:
  assumes "\<And>w. G w (w\<lparr>faults := tl (faults w)\<rparr>)"
    and "\<And>w. G w (snd (f (w\<lparr>faults := tl (faults w)\<rparr>)))"
  shows "guar G (statement f)"
  unfolding statement_def
  by (rule guar_atomically) (simp add: Let_def assms split: fault.split)

lemma same_db_steps:
  "guar same_db (emit ev)" "guar same_db get_now" "guar same_db (call f)" "guar same_db (recorded_call ev f)"
  "guar same_db (db_get i)" "guar same_db (db_select P)" "guar same_db db_commit"
  "guar same_db (redis_get k)" "guar same_db (redis_set k v)"
  by (auto simp: emit_def get_now_def call_def recorded_call_def db_get_def db_select_def db_commit_def
      redis_get_def redis_set_def same_db_def Let_def split: prod.split
      intro!: guar_does guar_atomically guar_statement frame.guar_reads)

lemma same_db_asyncio_timeout: "guar same_db p \<Longrightarrow> guar same_db (asyncio_timeout s p)"
  unfolding asyncio_timeout_def by (erule frame.guar_with_deadline [rotated]) (simp add: same_db_def)

lemma db_asyncio_timeout: "guar db_evolves p \<Longrightarrow> guar db_evolves (asyncio_timeout s p)"
  unfolding asyncio_timeout_def by (erule db.guar_with_deadline [rotated]) (simp add: db_evolves_def)

lemma db_update_evolves:
  assumes "\<And>r. P r \<Longrightarrow> legal_write r (f r)"
  shows "guar db_evolves (db_update P f)"
  unfolding db_update_def
  by (rule guar_statement) (simp_all add: db_evolves_def evolves_update_rows assms)

lemma db_insert_evolves: "row_ok r \<Longrightarrow> guar db_evolves (db_insert r)"
  unfolding db_insert_def
  by (rule guar_statement) (simp_all add: db_evolves_def evolves_insert)

lemmas same_db_intros [guar_intros] = same_db_steps same_db_asyncio_timeout
lemmas db_steps [guar_intros] = same_db_steps [THEN guar_same_db] db_asyncio_timeout db_insert_evolves

text \<open>A block with a deadline in a quiet world is its body, if the body keeps the world quiet.\<close>

definition keeps_quiet :: "'e world \<Rightarrow> 'e world \<Rightarrow> bool" where
  "keeps_quiet w w' \<longleftrightarrow> (quiet w \<longrightarrow> quiet w')"

interpretation quiet: guarantee keeps_quiet
  by unfold_locales (auto simp: keeps_quiet_def)

lemma keeps_quiet_steps [guar_intros]:
  "guar keeps_quiet (emit ev)" "guar keeps_quiet get_now" "guar keeps_quiet (call f)"
  "guar keeps_quiet (recorded_call ev f)" "guar keeps_quiet (db_get i)" "guar keeps_quiet (db_select P)"
  "guar keeps_quiet db_commit" "guar keeps_quiet (db_update P u)" "guar keeps_quiet (db_insert r)"
  "guar keeps_quiet (redis_get k)" "guar keeps_quiet (redis_set k v)"
  by (auto simp: emit_def get_now_def call_def recorded_call_def db_get_def db_select_def db_commit_def
      db_update_def db_insert_def redis_get_def redis_set_def keeps_quiet_def quiet_def Let_def
      split: prod.split intro!: guar_does guar_atomically guar_statement quiet.guar_reads)

lemma keeps_quiet_asyncio_timeout [guar_intros]:
  "guar keeps_quiet p \<Longrightarrow> guar keeps_quiet (asyncio_timeout s p)"
  unfolding asyncio_timeout_def
  by (erule quiet.guar_with_deadline [rotated]) (simp add: keeps_quiet_def quiet_def)

lemma run_asyncio_timeout:
  assumes "guar keeps_quiet p" "quiet w"
  shows "run (asyncio_timeout s p) w = run p w"
  unfolding asyncio_timeout_def
  by (rule run_with_deadline [where quiet = quiet])
     (use assms in \<open>auto simp: keeps_quiet_def quiet_def elim: guar_mono\<close>)

lemma run_keeps_quiet: "guar keeps_quiet p \<Longrightarrow> quiet w \<Longrightarrow> quiet (snd (run p w))"
  using quiet.run_guarantee [of p w] by (simp add: keeps_quiet_def)

lemma quiet_faults [simp]: "quiet w \<Longrightarrow> faults w = []"
  by (simp add: quiet_def)

section \<open>Rows in a changing world\<close>

text \<open>
  The rely of a job on its own row: others leave the row as it is and keep ids unique, and the
  databases only raise exceptions of \<open>E\<close>. Everything else (other rows, the daemon, the queue, the
  clock, which statements fail) may change at every await.
\<close>

definition row_is :: "uuid \<Rightarrow> sandbox \<Rightarrow> 'e world \<Rightarrow> bool" where
  "row_is i r w \<longleftrightarrow> find_row i (sandboxes w) = Some r \<and> distinct (map sid (sandboxes w))"

fun fault_exn :: "fault \<Rightarrow> exn option" where
  "fault_exn Fine = None"
| "fault_exn (Before e) = Some e"
| "fault_exn (After e) = Some e"

definition faults_in :: "exn set \<Rightarrow> 'e world \<Rightarrow> bool" where
  "faults_in E w \<longleftrightarrow> (\<forall>f \<in> set (faults w). \<forall>e. fault_exn f = Some e \<longrightarrow> e \<in> E)"

definition undisturbed :: "exn set \<Rightarrow> uuid \<Rightarrow> 'e world \<Rightarrow> 'e world \<Rightarrow> bool" where
  "undisturbed E i w v \<longleftrightarrow> (\<forall>r. row_is i r w \<longrightarrow> row_is i r v) \<and> faults_in E v"

lemma row_is_same_db: "same_db u v \<Longrightarrow> row_is i r u \<Longrightarrow> row_is i r v"
  by (simp add: same_db_def row_is_def)

lemma row_is_undisturbed: "undisturbed E i u v \<Longrightarrow> row_is i r u \<Longrightarrow> row_is i r v"
  by (simp add: undisturbed_def)

lemma ensures_statement [ensures_simps]:
  "ensures R (statement f) Q w \<longleftrightarrow>
     (\<forall>v. R w v \<longrightarrow>
       (let u = v\<lparr>faults := tl (faults v)\<rparr> in
        case next_fault v of
          Fine \<Rightarrow> Q (fst (f u)) (snd (f u))
        | Before e \<Rightarrow> Q (Inl e) u
        | After e \<Rightarrow> Q (Inl e) (snd (f u))))"
  unfolding statement_def ensures_simps
  by (intro all_cong1 imp_cong refl) (simp add: Let_def split: fault.split)

lemma ensures_emit [ensures_simps]:
  "ensures R (emit ev) Q w = (\<forall>v. R w v \<longrightarrow> Q (Inr ()) (v\<lparr>emitted := emitted v @ [ev]\<rparr>))"
  by (simp add: emit_def ensures_simps)

lemma ensures_get_now [ensures_simps]:
  "ensures R get_now Q w = (\<forall>v. R w v \<longrightarrow> Q (Inr (clock v)) v)"
  by (simp add: get_now_def ensures_simps)

lemma next_fault_in: "faults_in E v \<Longrightarrow> fault_exn (next_fault v) = Some e \<Longrightarrow> e \<in> E"
  by (cases "faults v") (auto simp: faults_in_def next_fault_def)

text \<open>A program that is only known not to touch the table keeps the row, whatever it returns.\<close>

lemma ensures_keeps_row:
  assumes "guar same_db p" "row_is i r w" "\<And>res v. row_is i r v \<Longrightarrow> Q res v"
  shows "ensures (undisturbed E i) p Q w"
  by (rule ensures_frame [where P = "row_is i r" and G = same_db])
     (use assms in \<open>auto intro: row_is_same_db row_is_undisturbed\<close>)

text \<open>A read of the own row, and the compare-and-set on it.\<close>

lemma ensures_db_get:
  assumes "row_is i r w"
    and "\<And>v. row_is i r v \<Longrightarrow> Q (Inr (Some r)) v"
    and "\<And>e v. e \<in> E \<Longrightarrow> row_is i r v \<Longrightarrow> Q (Inl e) v"
  shows "ensures (undisturbed E i) (db_get i) Q w"
  unfolding db_get_def ensures_statement
proof (intro allI impI)
  fix v assume v: "undisturbed E i w v"
  with assms(1) have "row_is i r (v\<lparr>faults := tl (faults v)\<rparr>)"
    by (auto simp: row_is_def undisturbed_def)
  moreover have "e \<in> E" if "fault_exn (next_fault v) = Some e" for e
    using v that by (auto simp: undisturbed_def next_fault_in)
  ultimately show "let u = v\<lparr>faults := tl (faults v)\<rparr> in
      case next_fault v of
        Fine \<Rightarrow> Q (fst (Inr (find_row i (sandboxes u)), u)) (snd (Inr (find_row i (sandboxes u)), u))
      | Before e \<Rightarrow> Q (Inl e) u | After e \<Rightarrow> Q (Inl e) (snd (Inr (find_row i (sandboxes u)), u))"
    by (auto simp: assms(2,3) Let_def row_is_def split: fault.split)
qed

lemma row_is_update:
  assumes "row_is i r w" "\<And>q. sid (f q) = sid q"
  shows "row_is i (if P r then (f r)\<lparr>updated_at := t\<rparr> else r) (w\<lparr>sandboxes := update_rows P f t (sandboxes w)\<rparr>)"
  using assms by (simp add: row_is_def find_row_update_rows)

lemma rowcount_row_is:
  assumes "row_is i r w"
  shows "length (filter (\<lambda>q. sid q = i \<and> Q q) (sandboxes w)) = 1 \<longleftrightarrow> Q r"
  using assms rowcount_1 [of "sandboxes w" i Q] by (auto simp: row_is_def)

lemma ensures_db_update:
  assumes "row_is i r w" "\<And>q. sid (f q) = sid q"
    and "\<And>t n v. row_is i (if P r then (f r)\<lparr>updated_at := t\<rparr> else r) v \<Longrightarrow>
           (P = (\<lambda>q. sid q = i \<and> S q) \<longrightarrow> (n = 1) = S r) \<Longrightarrow> Q (Inr n) v"
    and "\<And>e q v. e \<in> E \<Longrightarrow> same_identity r q \<Longrightarrow> row_is i q v \<Longrightarrow> Q (Inl e) v"
    and "same_identity r (f r)"
  shows "ensures (undisturbed E i) (db_update P f) Q w"
  unfolding db_update_def ensures_statement
proof (intro allI impI)
  fix v assume v: "undisturbed E i w v"
  let ?u = "v\<lparr>faults := tl (faults v)\<rparr>"
  let ?v = "?u\<lparr>sandboxes := update_rows P f (clock ?u) (sandboxes ?u)\<rparr>"
  have u: "row_is i r ?u" using v assms(1) by (auto simp: row_is_def undisturbed_def)
  then have r: "row_is i (if P r then (f r)\<lparr>updated_at := clock ?u\<rparr> else r) ?v"
    by (rule row_is_update) (rule assms(2))
  have same: "same_identity r (if P r then (f r)\<lparr>updated_at := clock ?u\<rparr> else r)"
    using assms(5) by simp
  have n: "P = (\<lambda>q. sid q = i \<and> S q) \<longrightarrow> (length (filter P (sandboxes ?u)) = 1) = S r"
    using rowcount_row_is [OF u, of S] by simp
  have "e \<in> E" if "fault_exn (next_fault v) = Some e" for e
    using v that by (auto simp: undisturbed_def next_fault_in)
  then show "let u = ?u in
      case next_fault v of
        Fine \<Rightarrow> Q (fst (Inr (length (filter P (sandboxes u))), u\<lparr>sandboxes := update_rows P f (clock u) (sandboxes u)\<rparr>))
          (snd (Inr (length (filter P (sandboxes u))), u\<lparr>sandboxes := update_rows P f (clock u) (sandboxes u)\<rparr>))
      | Before e \<Rightarrow> Q (Inl e) u
      | After e \<Rightarrow> Q (Inl e) (snd (Inr (length (filter P (sandboxes u))), u\<lparr>sandboxes := update_rows P f (clock u) (sandboxes u)\<rparr>))"
    using assms(3) [OF r n] assms(4) [OF _ same r] assms(4) [OF _ same_identity_refl u]
    by (simp add: Let_def split: fault.split)
qed

end
