(* ===== verification/Queue.thy ===== *)
theory Queue
  imports Table
begin

text \<open>
  Queue plumbing (\<open>src/app/queue.py\<close>): one arq queue per worker pool, deterministic job ids, and
  the bounded call that hands a job to arq.
\<close>

definition START_SANDBOX :: string where "START_SANDBOX = ''start_sandbox''"
definition STOP_SANDBOX :: string where "STOP_SANDBOX = ''stop_sandbox''"

text \<open>\<open>arq.constants.default_queue_name\<close>, as \<open>tests/test_rollout.py\<close> pins it.\<close>

definition default_queue_name :: string where "default_queue_name = ''arq:queue''"

fun QUEUES :: "deployment \<Rightarrow> string" where
  "QUEUES STABLE = default_queue_name"
| "QUEUES CANARY = default_queue_name @ '':canary''"

text \<open>arq's \<open>RedisSettings\<close>, as far as a DSN sets them; \<open>from_dsn\<close> parses it, or raises.\<close>

record redis_params =
  redis_host :: string
  redis_port :: int
  redis_database :: int
  redis_password :: "string option"

definition redis_settings :: "(string \<Rightarrow> exn + redis_params) \<Rightarrow> settings \<Rightarrow> exn + redis_params" where
  "redis_settings from_dsn s = from_dsn (redis_url s)"

definition sandbox_job_id :: "string \<Rightarrow> uuid \<Rightarrow> string" where
  "sandbox_job_id job i = job @ '':'' @ uuid_str i"

definition enqueue_sandbox_job ::
    "'e services \<Rightarrow> string \<Rightarrow> uuid \<Rightarrow> rat \<Rightarrow> deployment \<Rightarrow> ('e world, bool) prog" where
  "enqueue_sandbox_job S job i timeout_s d =
     asyncio_timeout timeout_s
       (recorded_call (Sent job i d)
         (enqueue_job S job (uuid_str i) (sandbox_job_id job i) (QUEUES d)))"

lemma same_db_enqueue [guar_intros]: "guar same_db (enqueue_sandbox_job S job i t d)"
  unfolding enqueue_sandbox_job_def by (intro guar_intros)

lemmas db_enqueue [guar_intros] = same_db_enqueue [THEN guar_same_db]

lemma keeps_quiet_enqueue [guar_intros]: "guar keeps_quiet (enqueue_sandbox_job S job i t d)"
  unfolding enqueue_sandbox_job_def by (intro guar_intros)

lemma run_enqueue [run_simps]:
  "quiet w \<Longrightarrow> run (enqueue_sandbox_job S job i t d) w =
     (let (r, x) = enqueue_job S job (uuid_str i) (sandbox_job_id job i) (QUEUES d) (ext w)
      in (r, w\<lparr>ext := x, emitted := emitted w @ [Sent job i d]\<rparr>))"
  unfolding enqueue_sandbox_job_def
  by (simp add: run_asyncio_timeout guar_intros run_simps split: prod.split)

lemma length_uuid_str [simp]: "length (uuid_str i) = 36"
  by (simp add: uuid_str_def Let_def)

lemma sandbox_job_id_inject:
  "sandbox_job_id job i = sandbox_job_id job' j \<longleftrightarrow> job = job' \<and> i = j"
  by (auto simp: sandbox_job_id_def uuid_str_inject append_eq_append_conv)

end
