(* ===== verification/Rollout.thy ===== *)
theory Rollout
  imports Queue
begin

text \<open>
  Canary routing (\<open>src/app/rollout.py\<close>) and the API over its weight (\<open>src/app/routes/rollout.py\<close>):
  a job goes to the canary pool when the CRC of its sandbox id, modulo 100, is below a weight kept
  in Redis.
\<close>

section \<open>Routing\<close>

text \<open>What a router by weight promises, for any hash into 0..99.\<close>

locale weighted_router =
  fixes hash :: "'k \<Rightarrow> int"
  assumes hash_range: "0 \<le> hash k \<and> hash k < 100"
begin

definition pick_pool :: "'k \<Rightarrow> int \<Rightarrow> deployment" where
  "pick_pool k weight = (if hash k < weight then CANARY else STABLE)"

lemma pick_pool_none: "weight \<le> 0 \<Longrightarrow> pick_pool k weight = STABLE"
  using hash_range [of k] by (simp add: pick_pool_def)

lemma pick_pool_all: "100 \<le> weight \<Longrightarrow> pick_pool k weight = CANARY"
  using hash_range [of k] by (simp add: pick_pool_def)

lemma pick_pool_mono: "weight \<le> weight' \<Longrightarrow> pick_pool k weight = CANARY \<Longrightarrow> pick_pool k weight' = CANARY"
  by (simp add: pick_pool_def split: if_splits)

end

definition WEIGHT_KEY :: string where "WEIGHT_KEY = ''rollout:canary_weight''"

definition bucket :: "uuid \<Rightarrow> int" where
  "bucket i = uint (crc32 (uuid_bytes i)) mod 100"

definition route :: "uuid \<Rightarrow> int \<Rightarrow> deployment" where
  "route i canary_weight = (if bucket i < canary_weight then CANARY else STABLE)"

interpretation router: weighted_router bucket
  rewrites "weighted_router.pick_pool bucket = route"
proof -
  show b: "weighted_router bucket"
    by unfold_locales (simp add: bucket_def)
  show "weighted_router.pick_pool bucket = route"
    by (intro ext) (simp add: weighted_router.pick_pool_def [OF b] route_def)
qed

section \<open>The weight\<close>

definition clamp_weight :: "int \<Rightarrow> int" where
  "clamp_weight n = min (max n 0) 100"

definition get_weight :: "rat \<Rightarrow> ('e world, int) prog" where
  "get_weight timeout_s =
     pbind (asyncio_timeout timeout_s (redis_get WEIGHT_KEY)) (\<lambda>raw.
       case raw of
         None \<Rightarrow> Return 0
       | Some s \<Rightarrow> pbind (of_sum (py_int 10 s)) (\<lambda>n. Return (clamp_weight n)))"

definition set_weight :: "int \<Rightarrow> rat \<Rightarrow> ('e world, int) prog" where
  "set_weight weight timeout_s =
     pbind (asyncio_timeout timeout_s (redis_set WEIGHT_KEY (str_of_int weight))) (\<lambda>previous.
       case previous of None \<Rightarrow> Return 0 | Some s \<Rightarrow> of_sum (py_int 10 s))"

definition pick_deployment :: "uuid \<Rightarrow> rat \<Rightarrow> ('e world, deployment) prog" where
  "pick_deployment i timeout_s =
     try_catch (get_weight timeout_s)
       (\<lambda>weight. Return (route i weight))
       (except_Exception (\<lambda>exc. Return STABLE))"

section \<open>GET and PUT /rollout\<close>

definition rollout_503 :: exn where
  "rollout_503 = HTTPException 503 ''rollout state unavailable, retry later'' []"

definition get_rollout :: "settings \<Rightarrow> ('e world, int) prog" where
  "get_rollout s =
     try_catch (get_weight (redis_timeout_s s))
       (\<lambda>weight. Return weight)
       (except_Exception (\<lambda>_. Raise rollout_503))"

definition put_rollout :: "int \<Rightarrow> settings \<Rightarrow> ('e world, int) prog" where
  "put_rollout canary_weight s =
     try_catch (set_weight canary_weight (redis_timeout_s s))
       (\<lambda>previous. Return canary_weight)
       (except_Exception (\<lambda>_. Raise rollout_503))"

lemma same_db_rollout [guar_intros]:
  "guar same_db (get_weight t)" "guar same_db (set_weight n t)" "guar same_db (pick_deployment i t)"
  "guar same_db (get_rollout s)" "guar same_db (put_rollout n s)"
  unfolding get_weight_def set_weight_def pick_deployment_def get_rollout_def put_rollout_def
  by (intro guar_intros)+

lemmas db_rollout [guar_intros] = same_db_rollout [THEN guar_same_db]

lemma keeps_quiet_rollout [guar_intros]:
  "guar keeps_quiet (get_weight t)" "guar keeps_quiet (set_weight n t)"
  "guar keeps_quiet (pick_deployment i t)"
  unfolding get_weight_def set_weight_def pick_deployment_def
  by (intro guar_intros)+

lemma run_get_weight [run_simps]:
  "quiet w \<Longrightarrow> run (get_weight t) w =
     (case redis w WEIGHT_KEY of None \<Rightarrow> Inr 0
      | Some s \<Rightarrow> (case py_int 10 s of Inl e \<Rightarrow> Inl e | Inr n \<Rightarrow> Inr (clamp_weight n)), w)"
  unfolding get_weight_def
  by (simp add: run_pbind run_asyncio_timeout guar_intros run_simps split: option.split sum.split)

lemma run_set_weight [run_simps]:
  "quiet w \<Longrightarrow> run (set_weight n t) w =
     (case redis w WEIGHT_KEY of None \<Rightarrow> Inr 0 | Some s \<Rightarrow> py_int 10 s,
      w\<lparr>redis := (redis w)(WEIGHT_KEY \<mapsto> str_of_int n)\<rparr>)"
  unfolding set_weight_def
  by (simp add: run_pbind run_asyncio_timeout guar_intros run_simps split: option.split)

lemma py_int_error_is_Exception: "py_int b s = Inl e \<Longrightarrow> is_Exception e"
  by (auto simp: py_int_def Let_def split: prod.splits option.splits if_splits)

lemma run_pick_deployment [run_simps]:
  "quiet w \<Longrightarrow> run (pick_deployment i t) w =
     (Inr (case redis w WEIGHT_KEY of None \<Rightarrow> STABLE
           | Some s \<Rightarrow> (case py_int 10 s of Inl _ \<Rightarrow> STABLE | Inr n \<Rightarrow> route i (clamp_weight n))), w)"
  unfolding pick_deployment_def
  by (auto simp: run_simps router.pick_pool_none split: option.split sum.split dest: py_int_error_is_Exception)

end
