(* ===== verification/Runtime.thy ===== *)
theory Runtime
  imports Table
begin

text \<open>
  The sandbox runtime (\<open>src/app/runtime.py\<close>): one Docker container per sandbox, found again by
  its deterministic name. The Docker SDK and the probed web server are \<open>services\<close>; each of their
  calls is one step, so other workers' calls may come between any two of them.
\<close>

definition LABEL_ID :: string where "LABEL_ID = ''duvo.sandbox.id''"
definition LABEL_EXPIRES :: string where "LABEL_EXPIRES = ''duvo.sandbox.expires_at''"
definition PULL_DEADLINE_S :: rat where "PULL_DEADLINE_S = 120"

record runtime_sandbox =
  rs_sandbox_id :: uuid
  rs_expires_at :: datetime

text \<open>The protocol \<open>SandboxRuntime\<close>, which the worker is written against.\<close>

record 'e runtime =
  rt_launch :: "uuid \<Rightarrow> datetime \<Rightarrow> ('e world, string) prog"
  rt_remove :: "uuid \<Rightarrow> ('e world, bool) prog"
  rt_list_sandboxes :: "('e world, runtime_sandbox list) prog"

definition container_name :: "uuid \<Rightarrow> string" where
  "container_name i = ''sandbox-'' @ uuid_str i"

section \<open>\<open>DockerRuntime\<close>\<close>

text \<open>\<open>_run\<close>: a call (or a sequence of calls) in a thread, under a deadline.\<close>

definition run_bounded :: "settings \<Rightarrow> rat option \<Rightarrow> ('e world, 'a) prog \<Rightarrow> ('e world, 'a) prog" where
  "run_bounded s deadline_s p =
     asyncio_timeout (case deadline_s of Some d \<Rightarrow> if d = 0 then docker_timeout_s s * 3 else d
                                       | None \<Rightarrow> docker_timeout_s s * 3) p"

definition prepare :: "'e services \<Rightarrow> settings \<Rightarrow> ('e world, unit) prog" where
  "prepare S s =
     try_catch (run_bounded s None (call (images_get S (sandbox_image s))))
       (\<lambda>_. Return ())
       (\<lambda>e. if is_class NotFound e
            then try_catch (run_bounded s (Some PULL_DEADLINE_S) (call (images_pull S (sandbox_image s))))
                   (\<lambda>_. Return ())
                   (except_Exception (\<lambda>exc. Return ()))
            else Raise e)"

definition docker_get :: "'e services \<Rightarrow> string \<Rightarrow> ('e world, container option) prog" where
  "docker_get S n =
     try_catch (call (containers_get S n))
       (\<lambda>c. Return (Some c))
       (\<lambda>e. if is_class NotFound e then Return None else Raise e)"

definition docker_remove :: "'e services \<Rightarrow> string \<Rightarrow> ('e world, bool) prog" where
  "docker_remove S n =
     try_catch (pbind (call (containers_get S n)) (\<lambda>c. call (container_remove S c)))
       (\<lambda>_. Return True)
       (\<lambda>e. if is_class NotFound e then Return False else Raise e)"

definition tcp_port :: "settings \<Rightarrow> string" where
  "tcp_port s = str_of_int (sandbox_port s) @ ''/tcp''"

text \<open>\<open>int\<close> of a float: truncation towards zero.\<close>

definition py_trunc :: "rat \<Rightarrow> int" where
  "py_trunc x = (if 0 \<le> x then \<lfloor>x\<rfloor> else - \<lfloor>- x\<rfloor>)"

definition sandbox_spec :: "settings \<Rightarrow> uuid \<Rightarrow> datetime \<Rightarrow> run_spec" where
  "sandbox_spec s i x =
     \<lparr>run_image = sandbox_image s,
      command = [''--port'', str_of_int (sandbox_port s)],
      name = container_name i,
      detach = True,
      labels = [(LABEL_ID, uuid_str i), (LABEL_EXPIRES, str_of_int (int_timestamp x))],
      network = sandbox_network s,
      ports = [(tcp_port s, ''127.0.0.1'')],
      user = ''65534:65534'',
      read_only = True,
      cap_drop = [''ALL''],
      security_opt = [''no-new-privileges''],
      mem_limit = sandbox_memory s,
      nano_cpus = py_trunc (sandbox_cpus s * 1000000000),
      pids_limit = sandbox_pids s\<rparr>"

definition host_port :: "settings \<Rightarrow> string \<Rightarrow> container \<Rightarrow> exn + string" where
  "host_port s n c =
     (case map_of (c_ports c) (tcp_port s) of
        Some (p # _) \<Rightarrow> Inr p
      | _ \<Rightarrow> Inl (Err RuntimeError (n @ '': no host port published'')))"

definition ensure_container :: "'e services \<Rightarrow> settings \<Rightarrow> uuid \<Rightarrow> datetime \<Rightarrow> ('e world, string) prog" where
  "ensure_container S s i x =
     (let n = container_name i in
      pbind (docker_get S n) (\<lambda>found.
      pbind (case found of
               Some c \<Rightarrow> if c_status c \<noteq> ''running''
                         then andthen (call (container_remove S c)) (Return None)
                         else Return (Some c)
             | None \<Rightarrow> Return None) (\<lambda>kept.
      pbind (case kept of
               Some c \<Rightarrow> Return c
             | None \<Rightarrow> try_catch (call (containers_run S (sandbox_spec s i x)))
                 (\<lambda>c. Return c)
                 (\<lambda>exc. if api_status exc = Some 409 then call (containers_get S n) else Raise exc))
        (\<lambda>container.
      pbind (call (container_reload S container)) (\<lambda>container.
      of_sum (host_port s n container))))))"

text \<open>
  \<open>str\<close> of a non-negative float, for the values a timeout has (a decimal of at most 15 digits).
\<close>

primrec fraction_digits :: "nat \<Rightarrow> rat \<Rightarrow> string" where
  "fraction_digits 0 x = []"
| "fraction_digits (Suc k) x =
     (if x = 0 then [] else digit_char (nat \<lfloor>10 * x\<rfloor>) # fraction_digits k (10 * x - of_int \<lfloor>10 * x\<rfloor>))"

definition str_of_float :: "rat \<Rightarrow> string" where
  "str_of_float x =
     (let f = fraction_digits 15 (x - of_int \<lfloor>x\<rfloor>) in
      str_of_int \<lfloor>x\<rfloor> @ ''.'' @ (if f = [] then ''0'' else f))"

text \<open>
  The probe loop of \<open>_wait_ready\<close>, inside its deadline: \<open>budget\<close> is what is left of it, in
  microseconds. A probe that ends after the deadline is cut off by it, and so is the pause of
  200 ms after a refused probe.
\<close>

definition probe :: "'e services \<Rightarrow> string \<Rightarrow> ('e world, (exn + int) \<times> int) prog" where
  "probe S u = call (\<lambda>x. let (r, x') = http_get S u x in (Inr r, x'))"

function wait_ready_loop :: "'e services \<Rightarrow> string \<Rightarrow> int \<Rightarrow> ('e world, unit) prog" where
  "wait_ready_loop S u budget =
     (if budget \<le> 0 then Raise (Err TimeoutError [])
      else pbind (probe S u) (\<lambda>(r, elapsed).
        if budget \<le> elapsed then Raise (Err TimeoutError [])
        else case r of
          Inr code \<Rightarrow> if code < 500 then Return ()
                      else wait_ready_loop S u (budget - max 0 elapsed - 200000)
        | Inl e \<Rightarrow> if is_TransportError e then wait_ready_loop S u (budget - max 0 elapsed - 200000)
                   else Raise e))"
  by pat_completeness auto
termination
  by (relation "measure (\<lambda>(S, u, budget). nat budget)") auto

declare wait_ready_loop.simps [simp del]

definition wait_ready :: "'e services \<Rightarrow> settings \<Rightarrow> uuid \<Rightarrow> ('e world, unit) prog" where
  "wait_ready S s i =
     (let u = ''http://'' @ container_name i @ '':'' @ str_of_int (sandbox_port s) @ ''/'' in
      try_catch (wait_ready_loop S u (micros (sandbox_ready_timeout_s s)))
        (\<lambda>_. Return ())
        (\<lambda>e. if is_class TimeoutError e
             then Raise (Err SandboxNotReady
                    (''no answer on '' @ u @ '' within '' @ str_of_float (sandbox_ready_timeout_s s) @ ''s''))
             else Raise e))"

definition launch :: "'e services \<Rightarrow> settings \<Rightarrow> uuid \<Rightarrow> datetime \<Rightarrow> ('e world, string) prog" where
  "launch S s i x =
     pbind (run_bounded s None (ensure_container S s i x)) (\<lambda>p.
     andthen (wait_ready S s i)
       (Return (''http://'' @ sandbox_public_host s @ '':'' @ p)))"

definition remove_sandbox :: "'e services \<Rightarrow> settings \<Rightarrow> uuid \<Rightarrow> ('e world, bool) prog" where
  "remove_sandbox S s i = run_bounded s None (docker_remove S (container_name i))"

text \<open>The labels of one container; \<open>labels[k]\<close> raises KeyError.\<close>

definition label :: "container \<Rightarrow> string \<Rightarrow> exn + string" where
  "label c k = (case map_of (c_labels c) k of None \<Rightarrow> Inl (Err KeyError k) | Some v \<Rightarrow> Inr v)"

definition read_labels :: "container \<Rightarrow> exn + runtime_sandbox" where
  "read_labels c =
     (case label c LABEL_EXPIRES of Inl e \<Rightarrow> Inl e | Inr t \<Rightarrow>
      case py_int 10 t of Inl e \<Rightarrow> Inl e | Inr n \<Rightarrow>
      case fromtimestamp n of Inl e \<Rightarrow> Inl e | Inr expires \<Rightarrow>
      case label c LABEL_ID of Inl e \<Rightarrow> Inl e | Inr u \<Rightarrow>
      case uuid_of_str u of Inl e \<Rightarrow> Inl e | Inr i \<Rightarrow>
      Inr \<lparr>rs_sandbox_id = i, rs_expires_at = expires\<rparr>)"

fun found_sandboxes :: "container list \<Rightarrow> exn + runtime_sandbox list" where
  "found_sandboxes [] = Inr []"
| "found_sandboxes (c # cs) =
     (case read_labels c of
        Inl e \<Rightarrow> if is_class KeyError e \<or> is_class ValueError e then found_sandboxes cs else Inl e
      | Inr r \<Rightarrow> (case found_sandboxes cs of Inl e \<Rightarrow> Inl e | Inr rs \<Rightarrow> Inr (r # rs)))"

definition list_sandboxes :: "'e services \<Rightarrow> settings \<Rightarrow> ('e world, runtime_sandbox list) prog" where
  "list_sandboxes S s =
     pbind (run_bounded s None (call (containers_list S LABEL_ID))) (\<lambda>cs. of_sum (found_sandboxes cs))"

definition docker_runtime :: "'e services \<Rightarrow> settings \<Rightarrow> 'e runtime" where
  "docker_runtime S s =
     \<lparr>rt_launch = launch S s, rt_remove = remove_sandbox S s, rt_list_sandboxes = list_sandboxes S s\<rparr>"

section \<open>What the runtime's steps leave alone\<close>

lemma guar_wait_ready_loop:
  assumes "\<And>f. guar G (call f :: ('e world, (exn + int) \<times> int) prog)"
  shows "guar G (wait_ready_loop (S :: 'e services) u b)"
proof (induction S u b rule: wait_ready_loop.induct)
  case (1 S u b)
  show ?case
    by (subst wait_ready_loop.simps) (intro guar_intros 1; simp add: probe_def assms)
qed

lemma same_db_runtime [guar_intros]:
  "guar same_db (prepare S s)" "guar same_db (launch S s i x)" "guar same_db (remove_sandbox S s i)"
  "guar same_db (list_sandboxes S s)"
  unfolding prepare_def launch_def remove_sandbox_def list_sandboxes_def run_bounded_def
    ensure_container_def docker_get_def docker_remove_def wait_ready_def Let_def
  by (intro guar_intros guar_wait_ready_loop)+

lemma keeps_quiet_runtime [guar_intros]:
  "guar keeps_quiet (prepare S s)" "guar keeps_quiet (launch S s i x)"
  "guar keeps_quiet (remove_sandbox S s i)" "guar keeps_quiet (list_sandboxes S s)"
  unfolding prepare_def launch_def remove_sandbox_def list_sandboxes_def run_bounded_def
    ensure_container_def docker_get_def docker_remove_def wait_ready_def Let_def
  by (intro guar_intros guar_wait_ready_loop)+

text \<open>
  The frame of a \<open>runtime\<close>: it does not touch the table, and in a world without faults it causes
  none. \<open>DockerRuntime\<close> has it, whatever the services do.
\<close>

definition detached :: "'e runtime \<Rightarrow> bool" where
  "detached R \<longleftrightarrow>
     (\<forall>i x. guar same_db (rt_launch R i x)) \<and> (\<forall>i. guar same_db (rt_remove R i)) \<and>
     guar same_db (rt_list_sandboxes R)"

definition calm :: "'e runtime \<Rightarrow> bool" where
  "calm R \<longleftrightarrow>
     (\<forall>i x. guar keeps_quiet (rt_launch R i x)) \<and> (\<forall>i. guar keeps_quiet (rt_remove R i)) \<and>
     guar keeps_quiet (rt_list_sandboxes R)"

lemma docker_runtime_frame [simp]: "detached (docker_runtime S s)" "calm (docker_runtime S s)"
  by (simp_all add: detached_def calm_def docker_runtime_def same_db_runtime keeps_quiet_runtime)

lemma detachedD [guar_intros]:
  "detached R \<Longrightarrow> guar same_db (rt_launch R i x)"
  "detached R \<Longrightarrow> guar same_db (rt_remove R i)"
  "detached R \<Longrightarrow> guar same_db (rt_list_sandboxes R)"
  by (simp_all add: detached_def)

lemmas detached_db [guar_intros] = detachedD [THEN guar_same_db]

lemma calmD [guar_intros]:
  "calm R \<Longrightarrow> guar keeps_quiet (rt_launch R i x)"
  "calm R \<Longrightarrow> guar keeps_quiet (rt_remove R i)"
  "calm R \<Longrightarrow> guar keeps_quiet (rt_list_sandboxes R)"
  by (simp_all add: calm_def)

lemma run_same_db: "guar same_db p \<Longrightarrow> sandboxes (snd (run p w)) = sandboxes w"
  using frame.run_guarantee [of p w] by (simp add: same_db_def)

end
