(* ===== verification/Worker.thy ===== *)
theory Worker
  imports Rollout Runtime
begin

text \<open>
  The arq worker's two jobs (\<open>src/app/worker.py\<close>): \<open>start_sandbox\<close> and \<open>stop_sandbox\<close>, with the
  compare-and-set \<open>_transition\<close> every status change goes through. The jobs are written against
  any \<open>runtime\<close>; logging and tracing are not modelled. What \<open>random\<close> draws is part of the context.
\<close>

record 'e ctx =
  ctx_settings :: settings
  ctx_runtime :: "'e runtime"
  job_try :: nat
  enqueue_time :: "datetime option"
  random_random :: rat  \<comment> \<open>\<open>random.random()\<close>, at least 0 and below 1\<close>
  random_uniform :: rat  \<comment> \<open>\<open>random.uniform(0, 1)\<close>\<close>

definition STARTABLE :: "status set" where
  "STARTABLE = {QUEUED, STARTING}"

definition NO_CONTAINER_WANTED :: "status set" where
  "NO_CONTAINER_WANTED = {STOPPING, STOPPED, FAILED}"

section \<open>Helpers\<close>

definition transition ::
    "uuid \<Rightarrow> status set \<Rightarrow> (sandbox \<Rightarrow> sandbox) \<Rightarrow> ('e world, bool) prog" where
  "transition i expected values =
     pbind (db_update (\<lambda>r. sid r = i \<and> status r \<in> expected) values) (\<lambda>rowcount. Return (rowcount = 1))"

definition discard :: "'e runtime \<Rightarrow> uuid \<Rightarrow> ('e world, unit) prog" where
  "discard R i = try_catch (rt_remove R i) (\<lambda>_. Return ()) (except_Exception (\<lambda>exc. Return ()))"

definition observe_queue_wait :: "'e ctx \<Rightarrow> string \<Rightarrow> ('e world, unit) prog" where
  "observe_queue_wait c job =
     (case enqueue_time c of
        Some enqueued \<Rightarrow>
          if job_try c = 1
          then pbind get_now (\<lambda>now.
                 emit (JOB_QUEUE_WAIT job (deployment (ctx_settings c)) (max 0 (now - enqueued))))
          else Return ()
      | None \<Rightarrow> Return ())"

text \<open>\<open>_launch\<close>: the injected failure of CHAOS_FAILURE_RATE, or the runtime's launch.\<close>

definition worker_launch :: "'e ctx \<Rightarrow> sandbox \<Rightarrow> ('e world, string) prog" where
  "worker_launch c r =
     (if random_random c < chaos_failure_rate (ctx_settings c)
      then Raise (Err ChaosError ''injected failure'')
      else rt_launch (ctx_runtime c) (sid r) (expires_at r))"

text \<open>\<open>JOBS.labels(task, outcome, settings.deployment).inc()\<close>.\<close>

definition count_job :: "'e ctx \<Rightarrow> string \<Rightarrow> string \<Rightarrow> ('e world, unit) prog" where
  "count_job c task outcome = emit (JOBS task outcome (deployment (ctx_settings c)))"

definition retry_defer_s :: "'e ctx \<Rightarrow> rat" where
  "retry_defer_s c = 2 ^ job_try c + random_uniform c"

definition failure_reason :: "exn \<Rightarrow> string" where
  "failure_reason exc = take 500 (exn_name exc @ '': '' @ exn_str exc)"

section \<open>\<open>start_sandbox\<close>\<close>

text \<open>The \<open>except Exception\<close> branch around the launch.\<close>

definition launch_failed :: "'e ctx \<Rightarrow> uuid \<Rightarrow> exn \<Rightarrow> ('e world, string) prog" where
  "launch_failed c i exc =
     andthen (discard (ctx_runtime c) i)
      (let reason = failure_reason exc in
       if int (job_try c) < job_max_tries (ctx_settings c)
       then pbind (transition i {STARTING} (\<lambda>r. r\<lparr>status := QUEUED, error := Some reason\<rparr>)) (\<lambda>ok.
            if \<not> ok then Return ''cancelled''
            else andthen (count_job c START_SANDBOX ''retry'') (Raise (Retry (retry_defer_s c))))
       else andthen (transition i {STARTING} (\<lambda>r. r\<lparr>status := FAILED, error := Some reason\<rparr>))
              (andthen (count_job c START_SANDBOX ''failed'') (Return ''failed'')))"

text \<open>The rest of the job once the launch has returned a URL.\<close>

definition launched :: "'e ctx \<Rightarrow> sandbox \<Rightarrow> string \<Rightarrow> ('e world, string) prog" where
  "launched c r u =
     pbind (transition (sid r) {STARTING} (\<lambda>q. q\<lparr>status := RUNNING, url := Some u, error := None\<rparr>)) (\<lambda>ok.
     if \<not> ok then andthen (discard (ctx_runtime c) (sid r)) (Return ''cancelled'')
     else andthen (count_job c START_SANDBOX ''success'')
       (pbind get_now (\<lambda>now.
        andthen (emit (TIME_TO_RUNNING (deployment (ctx_settings c)) (now - created_at r)))
          (Return ''running''))))"

definition start_body :: "'e ctx \<Rightarrow> uuid \<Rightarrow> ('e world, string) prog" where
  "start_body c i =
     pbind (db_get i) (\<lambda>found.
     case found of
       None \<Rightarrow> andthen (count_job c START_SANDBOX ''failed'') (Return ''missing'')
     | Some r \<Rightarrow>
         if status r \<notin> STARTABLE then Return (status_value (status r))
         else pbind get_now (\<lambda>now.
           if expires_at r \<le> now
           then andthen (transition i STARTABLE (\<lambda>r. r\<lparr>status := STOPPED, error := Some ''expired''\<rparr>))
                  (andthen (count_job c START_SANDBOX ''expired'') (Return ''expired''))
           else pbind (transition i STARTABLE (\<lambda>r. r\<lparr>status := STARTING, attempts := int (job_try c)\<rparr>)) (\<lambda>ok.
             if \<not> ok then Return ''cancelled''
             else try_catch
                    (asyncio_timeout (launch_timeout_s (ctx_settings c)) (worker_launch c r))
                    (launched c r)
                    (except_Exception (launch_failed c i)))))"

text \<open>\<open>perf_counter\<close> is read off the same clock.\<close>

definition timed_job :: "'e ctx \<Rightarrow> string \<Rightarrow> ('e world, 'a) prog \<Rightarrow> ('e world, 'a) prog" where
  "timed_job c task body =
     andthen (observe_queue_wait c task)
      (pbind get_now (\<lambda>start.
       try_finally body
         (pbind get_now (\<lambda>now. emit (JOB_LATENCY task (deployment (ctx_settings c)) (now - start))))))"

definition start_sandbox :: "'e ctx \<Rightarrow> string \<Rightarrow> ('e world, string) prog" where
  "start_sandbox c sandbox_id =
     pbind (of_sum (uuid_of_str sandbox_id)) (\<lambda>i. timed_job c START_SANDBOX (start_body c i))"

section \<open>\<open>stop_sandbox\<close>\<close>

definition remove_failed :: "'e ctx \<Rightarrow> exn \<Rightarrow> ('e world, string) prog" where
  "remove_failed c exc =
     (if int (job_try c) < job_max_tries (ctx_settings c)
      then andthen (count_job c STOP_SANDBOX ''retry'') (Raise (Retry (retry_defer_s c)))
      else andthen (count_job c STOP_SANDBOX ''failed'') (Return ''failed''))"

definition stop_body :: "'e ctx \<Rightarrow> uuid \<Rightarrow> ('e world, string) prog" where
  "stop_body c i =
     try_catch (rt_remove (ctx_runtime c) i)
       (\<lambda>removed.
          andthen (transition i {STOPPING} (\<lambda>r. r\<lparr>status := STOPPED\<rparr>))
            (andthen (count_job c STOP_SANDBOX ''success'') (Return ''stopped'')))
       (except_Exception (remove_failed c))"

definition stop_sandbox :: "'e ctx \<Rightarrow> string \<Rightarrow> ('e world, string) prog" where
  "stop_sandbox c sandbox_id =
     pbind (of_sum (uuid_of_str sandbox_id)) (\<lambda>i. timed_job c STOP_SANDBOX (stop_body c i))"

section \<open>Start-up, shut-down and worker settings\<close>

text \<open>What \<open>startup\<close> puts into the context of every job.\<close>

record 'e worker_state =
  worker_settings_of :: settings
  worker_engine :: engine
  worker_sessionmaker :: sessionmaker
  worker_runtime :: "'e runtime"

definition startup :: "'e services \<Rightarrow> settings \<Rightarrow> ('e world, 'e worker_state) prog" where
  "startup S s =
     (let e = make_engine s in
      andthen (call (docker_from_env S))
       (andthen (prepare S s)
        (andthen (call (start_http_server S (worker_metrics_port s)))
         (andthen (emit (WORKER_INFO (deployment s) (version s)))
           (Return \<lparr>worker_settings_of = s, worker_engine = e, worker_sessionmaker = make_sessionmaker e,
              worker_runtime = docker_runtime S s\<rparr>)))))"

definition shutdown :: "(engine \<Rightarrow> 'e \<Rightarrow> (exn + unit) \<times> 'e) \<Rightarrow> 'e worker_state \<Rightarrow> ('e world, unit) prog" where
  "shutdown dispose W = call (dispose (worker_engine W))"

text \<open>\<open>range(0, 60, k)\<close> as the set of seconds at which the reaper is scheduled.\<close>

definition cron_seconds :: "int \<Rightarrow> exn + int list" where
  "cron_seconds k =
     (if k = 0 then Inl (Err ValueError ''range() arg 3 must not be zero'')
      else Inr (filter (\<lambda>t. 0 < k \<and> t mod k = 0) [0..59]))"

record worker_settings =
  job_functions :: "string list"
  cron_second :: "exn + int list"
  run_at_startup :: bool
  cron_max_tries :: int
  worker_redis :: "exn + redis_params"
  queue_name :: string
  max_tries :: int
  job_timeout :: int
  job_completion_wait :: int
  keep_result :: int
  max_jobs :: int
  health_check_interval :: int

definition WorkerSettings :: "(string \<Rightarrow> exn + redis_params) \<Rightarrow> settings \<Rightarrow> worker_settings" where
  "WorkerSettings from_dsn s =
     \<lparr>job_functions = [START_SANDBOX, STOP_SANDBOX],
      cron_second = cron_seconds (reconcile_interval_s s), run_at_startup = True, cron_max_tries = 1,
      worker_redis = redis_settings from_dsn s, queue_name = QUEUES (deployment s), max_tries = job_max_tries s, job_timeout = job_timeout_s s,
      job_completion_wait = worker_drain_s s, keep_result = 0, max_jobs = 10,
      health_check_interval = 10\<rparr>"

section \<open>The jobs' guarantee\<close>

lemma transition_evolves [guar_intros]:
  assumes "\<And>r. sid r = i \<Longrightarrow> status r \<in> expected \<Longrightarrow> legal_write r (f r)"
  shows "guar db_evolves (transition i expected f)"
  unfolding transition_def
  by (intro guar_intros db_update_evolves) (use assms in auto)

lemma worker_helpers_frame [guar_intros]:
  "detached R \<Longrightarrow> guar same_db (discard R i)"
  "guar same_db (observe_queue_wait c job)"
  "detached (ctx_runtime c) \<Longrightarrow> guar same_db (worker_launch c r)"
  "guar same_db (count_job c task outcome)"
  unfolding discard_def observe_queue_wait_def worker_launch_def count_job_def
  by (intro guar_intros | assumption)+

lemmas worker_helpers_db [guar_intros] = worker_helpers_frame [THEN guar_same_db]

lemma worker_helpers_quiet [guar_intros]:
  "calm R \<Longrightarrow> guar keeps_quiet (discard R i)"
  "guar keeps_quiet (observe_queue_wait c job)"
  "calm (ctx_runtime c) \<Longrightarrow> guar keeps_quiet (worker_launch c r)"
  "guar keeps_quiet (count_job c task outcome)"
  "guar keeps_quiet (transition i expected f)"
  unfolding discard_def observe_queue_wait_def worker_launch_def count_job_def transition_def
  by (intro guar_intros | assumption)+

lemma timed_job_evolves [guar_intros]:
  "guar db_evolves body \<Longrightarrow> guar db_evolves (timed_job c task body)"
  unfolding timed_job_def by (intro guar_intros)

lemma start_sandbox_evolves [guar_intros]:
  "detached (ctx_runtime c) \<Longrightarrow> guar db_evolves (start_sandbox c arg)"
  unfolding start_sandbox_def start_body_def launch_failed_def launched_def
  by (intro guar_intros | assumption)+
     (auto simp: legal_write_def edge_simps row_ok_def STARTABLE_def)

lemma stop_sandbox_evolves [guar_intros]:
  "detached (ctx_runtime c) \<Longrightarrow> guar db_evolves (stop_sandbox c arg)"
  unfolding stop_sandbox_def stop_body_def remove_failed_def
  by (intro guar_intros | assumption)+ (auto simp: legal_write_def edge_simps row_ok_def)

lemma startup_evolves [guar_intros]: "guar db_evolves (startup S s)"
  unfolding startup_def Let_def by (intro guar_intros same_db_runtime [THEN guar_same_db])

lemma shutdown_frame [guar_intros]: "guar same_db (shutdown dispose W)"
  unfolding shutdown_def by (intro guar_intros)

lemmas shutdown_db [guar_intros] = shutdown_frame [THEN guar_same_db]

end
