(* ===== verification/Reaper.thy ===== *)
theory Reaper
  imports Worker
begin

text \<open>
  The reaper \<open>reconcile_sandboxes\<close> (\<open>src/app/worker.py\<close>): one sweep that converges what the
  container runtime runs with what the table says should run.

  The counts \<open>reaped\<close> survive an exception in the source (the handler returns what was counted
  so far), so every step of the sweep returns the counts together with the exception that
  stopped it, if any.
\<close>

record reaped =
  expired :: nat
  orphan :: nat
  vanished :: nat

definition no_reaped :: reaped where
  "no_reaped = \<lparr>expired = 0, orphan = 0, vanished = 0\<rparr>"

datatype reason = EXPIRED | ORPHAN | VANISHED

fun reason_text :: "reason \<Rightarrow> string" where
  "reason_text EXPIRED = ''expired''"
| "reason_text ORPHAN = ''orphan''"
| "reason_text VANISHED = ''vanished''"

fun bump :: "reason \<Rightarrow> reaped \<Rightarrow> reaped" where
  "bump EXPIRED n = n\<lparr>expired := Suc (expired n)\<rparr>"
| "bump ORPHAN n = n\<lparr>orphan := Suc (orphan n)\<rparr>"
| "bump VANISHED n = n\<lparr>vanished := Suc (vanished n)\<rparr>"

type_synonym sweep = "reaped \<times> exn option"

text \<open>Do \<open>p\<close> and go on with its result, or stop the sweep with the counts so far.\<close>

definition guarded :: "reaped \<Rightarrow> ('e world, 'a) prog \<Rightarrow> ('a \<Rightarrow> ('e world, sweep) prog) \<Rightarrow> ('e world, sweep) prog" where
  "guarded n p k = try_catch p k (\<lambda>e. Return (n, Some e))"

definition unless_stopped :: "('e world, sweep) prog \<Rightarrow> (reaped \<Rightarrow> ('e world, sweep) prog) \<Rightarrow> ('e world, sweep) prog" where
  "unless_stopped p k =
     pbind p (\<lambda>(n, stop). case stop of Some e \<Rightarrow> Return (n, Some e) | None \<Rightarrow> k n)"

definition count_reason :: "reason \<Rightarrow> reaped \<Rightarrow> ('e world, sweep) prog" where
  "count_reason why n =
     andthen (emit (SANDBOXES_REAPED (reason_text why))) (Return (bump why n, None))"

text \<open>Why a listed container has to go, if it does.\<close>

definition reap_reason :: "datetime \<Rightarrow> (uuid \<rightharpoonup> status) \<Rightarrow> runtime_sandbox \<Rightarrow> reason option" where
  "reap_reason now statuses c =
     (if rs_expires_at c \<le> now then Some EXPIRED
      else case statuses (rs_sandbox_id c) of
        None \<Rightarrow> Some ORPHAN
      | Some s \<Rightarrow> if s \<in> NO_CONTAINER_WANTED then Some ORPHAN else None)"

primrec reap_containers ::
    "'e runtime \<Rightarrow> datetime \<Rightarrow> (uuid \<rightharpoonup> status) \<Rightarrow> runtime_sandbox list \<Rightarrow> reaped \<Rightarrow> ('e world, sweep) prog" where
  "reap_containers R now statuses [] n = Return (n, None)"
| "reap_containers R now statuses (c # cs) n =
     (case reap_reason now statuses c of
        None \<Rightarrow> reap_containers R now statuses cs n
      | Some why \<Rightarrow>
          guarded n (rt_remove R (rs_sandbox_id c)) (\<lambda>_.
          guarded n (transition (rs_sandbox_id c) ACTIVE_STATUSES (\<lambda>r. r\<lparr>status := STOPPED\<rparr>)) (\<lambda>_.
          unless_stopped (count_reason why n) (reap_containers R now statuses cs))))"

primrec fail_vanished :: "uuid list \<Rightarrow> reaped \<Rightarrow> ('e world, sweep) prog" where
  "fail_vanished [] n = Return (n, None)"
| "fail_vanished (i # is) n =
     guarded n (transition i {RUNNING} (\<lambda>r. r\<lparr>status := FAILED, error := Some ''container disappeared''\<rparr>)) (\<lambda>ok.
     unless_stopped (if ok then count_reason VANISHED n else Return (n, None)) (fail_vanished is))"

text \<open>
  The body of the \<open>try\<close>. \<open>set_order\<close> is the order in which Python happens to iterate the set
  \<open>running - live\<close>, given its elements in table order.
\<close>

definition sweep :: "'e runtime \<Rightarrow> (uuid list \<Rightarrow> uuid list) \<Rightarrow> ('e world, sweep) prog" where
  "sweep R set_order =
     (let n = no_reaped in
      guarded n (db_select (\<lambda>r. status r = RUNNING)) (\<lambda>running_rows.
      guarded n db_commit (\<lambda>_.
      guarded n (rt_list_sandboxes R) (\<lambda>containers.
      let running = map sid running_rows;
          live = map rs_sandbox_id containers in
      guarded n (db_select (\<lambda>r. sid r \<in> set live)) (\<lambda>rows.
      guarded n db_commit (\<lambda>_.
      guarded n get_now (\<lambda>now.
      unless_stopped (reap_containers R now (map_of (map (\<lambda>r. (sid r, status r)) rows)) containers n) (\<lambda>n.
      unless_stopped (fail_vanished (set_order (filter (\<lambda>i. i \<notin> set live) running)) n) (\<lambda>n.
      guarded n (db_update (\<lambda>r. status r = STOPPING \<and> sid r \<notin> set live) (\<lambda>r. r\<lparr>status := STOPPED\<rparr>)) (\<lambda>_.
      Return (n, None)))))))))))"

definition reconcile_sandboxes :: "'e ctx \<Rightarrow> (uuid list \<Rightarrow> uuid list) \<Rightarrow> ('e world, reaped) prog" where
  "reconcile_sandboxes c set_order =
     pbind (sweep (ctx_runtime c) set_order) (\<lambda>(reaped, stop).
     case stop of
       None \<Rightarrow> andthen (emit (RECONCILE_RUNS ''success'')) (Return reaped)
     | Some e \<Rightarrow> except_Exception (\<lambda>_. andthen (emit (RECONCILE_RUNS ''failed'')) (Return reaped)) e)"

section \<open>The sweep's guarantee\<close>

lemma guar_guarded [guar_intros]:
  "guar G p \<Longrightarrow> (\<And>a. guar G (k a)) \<Longrightarrow> guar G (guarded n p k)"
  unfolding guarded_def by (intro guar_intros)

lemma guar_unless_stopped [guar_intros]:
  "guar G p \<Longrightarrow> (\<And>n. guar G (k n)) \<Longrightarrow> guar G (unless_stopped p k)"
  unfolding unless_stopped_def by (intro guar_intros)

lemma count_frame [guar_intros]: "guar same_db (count_reason why n)" "guar keeps_quiet (count_reason why n)"
  unfolding count_reason_def by (intro guar_intros)+

lemmas count_db [guar_intros] = count_frame(1) [THEN guar_same_db]

lemma reap_containers_evolves [guar_intros]:
  "detached R \<Longrightarrow> guar db_evolves (reap_containers R now statuses cs n)"
proof (induction cs arbitrary: n)
  case (Cons c cs)
  show ?case
    unfolding reap_containers.simps
    by (intro guar_intros Cons.prems Cons.IH)
       (auto simp: legal_write_def edge_simps row_ok_def)
qed simp

lemma fail_vanished_evolves [guar_intros]: "guar db_evolves (fail_vanished is n)"
proof (induction "is" arbitrary: n)
  case (Cons i "is")
  show ?case
    unfolding fail_vanished.simps
    by (intro guar_intros Cons.IH) (auto simp: legal_write_def edge_simps row_ok_def)
qed simp

lemma reconcile_evolves [guar_intros]:
  "detached (ctx_runtime c) \<Longrightarrow> guar db_evolves (reconcile_sandboxes c set_order)"
  unfolding reconcile_sandboxes_def sweep_def Let_def
  by (intro guar_intros db_update_evolves | assumption)+
     (auto simp: legal_write_def edge_simps row_ok_def)

end
