(* ===== verification/Json.thy ===== *)
theory Json
  imports Python
begin

text \<open>
  JSON values and \<open>json.dumps\<close> of Python's standard library with its defaults (\<open>ensure_ascii\<close>, the
  separators comma-space and colon-space), with the reading back of string literals. The text of
  a float is \<open>float.__repr__\<close>, the parameter \<open>float_repr\<close>.
\<close>

datatype json =
    JNull
  | JBool bool
  | JInt int
  | JFloat rat
  | JString string
  | JArray "json list"
  | JObject "(string \<times> json) list"

abbreviation quote_char :: char where "quote_char \<equiv> CHR 0x22"
abbreviation backslash :: char where "backslash \<equiv> CHR 0x5C"

definition printable :: "char \<Rightarrow> bool" where
  "printable c = (let n = of_char c :: nat in 32 \<le> n \<and> n \<le> 126)"

lemma newline_not_printable: "\<not> printable (CHR 0x0A)"
  by (simp add: printable_def)

definition escape_char :: "char \<Rightarrow> string" where
  "escape_char c =
     (if c = quote_char \<or> c = backslash then [backslash, c]
      else if printable c then [c]
      else if c = CHR 0x0A then [backslash, CHR ''n'']
      else if c = CHR 0x0D then [backslash, CHR ''r'']
      else if c = CHR 0x09 then [backslash, CHR ''t'']
      else if c = CHR 0x0C then [backslash, CHR ''f'']
      else if c = CHR 0x08 then [backslash, CHR ''b'']
      else backslash # CHR ''u'' # map digit_char (digits_fixed 16 4 (of_char c)))"

definition dumps_string :: "string \<Rightarrow> string" where
  "dumps_string s = quote_char # concat (map escape_char s) @ [quote_char]"

fun comma_separated :: "string list \<Rightarrow> string" where
  "comma_separated [] = []"
| "comma_separated [x] = x"
| "comma_separated (x # xs) = x @ '', '' @ comma_separated xs"

fun dumps :: "(rat \<Rightarrow> string) \<Rightarrow> json \<Rightarrow> string" where
  "dumps float_repr JNull = ''null''"
| "dumps float_repr (JBool b) = (if b then ''true'' else ''false'')"
| "dumps float_repr (JInt n) = str_of_int n"
| "dumps float_repr (JFloat x) = float_repr x"
| "dumps float_repr (JString s) = dumps_string s"
| "dumps float_repr (JArray js) = ''['' @ comma_separated (map (dumps float_repr) js) @ '']''"
| "dumps float_repr (JObject kvs) =
     ''{'' @ comma_separated (map (\<lambda>(k, v). dumps_string k @ '': '' @ dumps float_repr v) kvs) @ ''}''"

section \<open>Only printable characters\<close>

definition all_printable :: "string \<Rightarrow> bool" where
  "all_printable s \<longleftrightarrow> (\<forall>c \<in> set s. printable c)"

lemma all_printable_simps [simp]:
  "all_printable []" "all_printable (c # s) \<longleftrightarrow> printable c \<and> all_printable s"
  "all_printable (s @ t) \<longleftrightarrow> all_printable s \<and> all_printable t"
  by (auto simp: all_printable_def)

lemma printable_digit_char: "d < 16 \<Longrightarrow> printable (digit_char d)"
  by (simp add: printable_def of_char_digit_char)

lemma all_printable_digits: "\<forall>d \<in> set ds. d < 16 \<Longrightarrow> all_printable (map digit_char ds)"
  by (auto simp: all_printable_def printable_digit_char)

lemma all_printable_str_of_int: "all_printable (str_of_int n)"
proof -
  have "all_printable (str_of_nat k)" for k
    unfolding str_of_nat_def by (intro all_printable_digits) (auto dest: digits_of_less)
  then show ?thesis by (simp add: str_of_int_def printable_def)
qed

lemma all_printable_escape: "all_printable (escape_char c)"
proof -
  have "all_printable (map digit_char (digits_fixed 16 4 n))" for n
    by (intro all_printable_digits) (auto dest: digits_fixed_less [rotated])
  then show ?thesis by (simp add: escape_char_def) (simp add: printable_def)
qed

lemma all_printable_dumps_string: "all_printable (dumps_string s)"
proof -
  have "all_printable (concat (map escape_char s))"
    by (induction s) (simp_all add: all_printable_escape)
  then show ?thesis by (simp add: dumps_string_def printable_def)
qed

lemma all_printable_commas: "(\<And>x. x \<in> set xs \<Longrightarrow> all_printable x) \<Longrightarrow> all_printable (comma_separated xs)"
  by (induction xs rule: comma_separated.induct) (auto simp: printable_def)

lemma all_printable_dumps:
  assumes "\<And>x. all_printable (float_repr x)"
  shows "all_printable (dumps float_repr j)"
proof (induction j)
  case (JArray js)
  then have "all_printable (comma_separated (map (dumps float_repr) js))"
    by (intro all_printable_commas) auto
  then show ?case by (simp add: printable_def)
next
  case (JObject kvs)
  have "all_printable (dumps_string k @ '': '' @ dumps float_repr v)" if "(k, v) \<in> set kvs" for k v
    using JObject [of "(k, v)" v] that by (simp add: all_printable_dumps_string printable_def)
  then have "all_printable (comma_separated (map (\<lambda>(k, v). dumps_string k @ '': '' @ dumps float_repr v) kvs))"
    by (intro all_printable_commas) auto
  then show ?case by (simp add: printable_def)
qed (auto simp: assms all_printable_str_of_int all_printable_dumps_string printable_def)

section \<open>Reading a string literal back\<close>

definition hex4 :: "string \<Rightarrow> char option" where
  "hex4 s = (case scan_digits 16 False s of
       Some ds \<Rightarrow> if horner_nat 16 ds < 256 then Some (char_of (horner_nat 16 ds)) else None
     | None \<Rightarrow> None)"

definition unescape :: "char \<Rightarrow> char option" where
  "unescape c =
     (if c = quote_char \<or> c = backslash \<or> c = CHR ''/'' then Some c
      else if c = CHR ''n'' then Some (CHR 0x0A) else if c = CHR ''r'' then Some (CHR 0x0D)
      else if c = CHR ''t'' then Some (CHR 0x09) else if c = CHR ''f'' then Some (CHR 0x0C)
      else if c = CHR ''b'' then Some (CHR 0x08) else None)"

text \<open>The rest of a string literal after its opening quote, with what follows the closing one.\<close>

fun read_chars :: "string \<Rightarrow> (string \<times> string) option" where
  "read_chars [] = None"
| "read_chars (c # cs) =
     (if c = quote_char then Some ([], cs)
      else if c \<noteq> backslash then
        (if printable c then map_option (\<lambda>(s, r). (c # s, r)) (read_chars cs) else None)
      else (case cs of
          [] \<Rightarrow> None
        | e # ds \<Rightarrow>
            if e = CHR ''u'' then
              (case hex4 (take 4 ds) of
                 Some x \<Rightarrow> map_option (\<lambda>(s, r). (x # s, r)) (read_chars (drop 4 ds))
               | None \<Rightarrow> None)
            else (case unescape e of
                 Some x \<Rightarrow> map_option (\<lambda>(s, r). (x # s, r)) (read_chars ds)
               | None \<Rightarrow> None)))"

declare read_chars.simps [simp del]

definition read_string :: "string \<Rightarrow> (string \<times> string) option" where
  "read_string s = (case s of c # cs \<Rightarrow> if c = quote_char then read_chars cs else None | [] \<Rightarrow> None)"

lemma hex4_escape: "hex4 (map digit_char (digits_fixed 16 4 (of_char c))) = Some c"
proof -
  have byte: "(of_char c :: nat) < 256" by simp
  have mod: "(of_char c :: nat) mod 65536 = of_char c"
    by (rule mod_less) (rule less_trans [OF byte], simp)
  have "\<forall>d \<in> set (digits_fixed 16 4 n). d < 16" for n by (auto dest: digits_fixed_less [rotated])
  moreover have "digits_fixed 16 4 n \<noteq> []" for n by (metis length_digits_fixed list.size(3) zero_neq_numeral)
  ultimately show ?thesis
    using byte by (simp add: hex4_def scan_digit_chars horner_digits_fixed mod)
qed

lemma read_escaped: "read_chars (escape_char c @ s) = map_option (\<lambda>(t, r). (c # t, r)) (read_chars s)"
proof -
  have "length (map digit_char (digits_fixed 16 4 (of_char c))) = 4" by simp
  then have u: "take 4 (map digit_char (digits_fixed 16 4 (of_char c)) @ s) = map digit_char (digits_fixed 16 4 (of_char c))"
    "drop 4 (map digit_char (digits_fixed 16 4 (of_char c)) @ s) = s"
    by simp_all
  consider "c = quote_char \<or> c = backslash" | "printable c" "c \<noteq> quote_char" "c \<noteq> backslash"
    | "\<not> printable c" "c \<noteq> quote_char" "c \<noteq> backslash" by blast
  then show ?thesis
  proof cases
    case 3
    then show ?thesis
      by (auto simp: escape_char_def read_chars.simps unescape_def hex4_escape u simp del: take_append drop_append)
  qed (auto simp: escape_char_def read_chars.simps unescape_def)
qed

lemma read_string_dumps: "read_string (dumps_string s @ rest) = Some (s, rest)"
proof -
  have "read_chars (concat (map escape_char s) @ quote_char # rest) = Some (s, rest)"
  proof (induction s)
    case Nil
    show ?case by (simp add: read_chars.simps)
  next
    case (Cons c s)
    then show ?case by (simp add: read_escaped)
  qed
  then show ?thesis by (simp add: read_string_def dumps_string_def)
qed

end
