(* ===== verification/Schemas.thy ===== *)
theory Schemas
  imports Queue Json
begin

text \<open>
  Request and response schemas (\<open>src/app/schemas.py\<close>) and the validated header and query
  parameters of \<open>src/app/routes/sandboxes.py\<close>. A body is a JSON value whose objects have each key
  once. How pydantic coerces a JSON value to an \<open>int\<close> in its lax mode is pydantic's own: the
  parameter \<open>lax_int\<close>.
\<close>

record sandbox_create =
  create_type :: sandbox_type
  ttl_s :: int

record rollout_update =
  canary_weight :: int

text \<open>\<open>extra="forbid"\<close>.\<close>

definition only_fields :: "string list \<Rightarrow> (string \<times> json) list \<Rightarrow> bool" where
  "only_fields allowed kvs \<longleftrightarrow> (\<forall>k \<in> set (map fst kvs). k \<in> set allowed)"

fun as_sandbox_type :: "json \<Rightarrow> sandbox_type option" where
  "as_sandbox_type (JString s) = (if s = ''http'' then Some HTTP else None)"
| "as_sandbox_type _ = None"

fun strict_int :: "json \<Rightarrow> int option" where
  "strict_int (JInt n) = Some n"
| "strict_int _ = None"

text \<open>\<open>Field(ge=lo, le=hi)\<close>.\<close>

definition in_range :: "int \<Rightarrow> int \<Rightarrow> int option \<Rightarrow> int option" where
  "in_range lo hi x = (case x of Some n \<Rightarrow> if lo \<le> n \<and> n \<le> hi then Some n else None | None \<Rightarrow> None)"

text \<open>None: the body is refused with 422.\<close>

fun parse_create :: "(json \<Rightarrow> int option) \<Rightarrow> json \<Rightarrow> sandbox_create option" where
  "parse_create lax_int (JObject kvs) =
     (if \<not> only_fields [''type'', ''ttl_s''] kvs then None
      else case map_of kvs ''type'' of
        None \<Rightarrow> None
      | Some t \<Rightarrow> (case as_sandbox_type t of
          None \<Rightarrow> None
        | Some ty \<Rightarrow> (case map_of kvs ''ttl_s'' of
            None \<Rightarrow> Some \<lparr>create_type = ty, ttl_s = 600\<rparr>
          | Some v \<Rightarrow> (case in_range 60 3600 (lax_int v) of
              None \<Rightarrow> None
            | Some n \<Rightarrow> Some \<lparr>create_type = ty, ttl_s = n\<rparr>))))"
| "parse_create lax_int _ = None"

fun parse_rollout :: "json \<Rightarrow> rollout_update option" where
  "parse_rollout (JObject kvs) =
     (if \<not> only_fields [''canary_weight''] kvs then None
      else case map_of kvs ''canary_weight'' of
        None \<Rightarrow> None
      | Some v \<Rightarrow> (case in_range 0 100 (strict_int v) of
          None \<Rightarrow> None
        | Some n \<Rightarrow> Some \<lparr>canary_weight = n\<rparr>))"
| "parse_rollout _ = None"

text \<open>The \<open>Idempotency-Key\<close> header: 1 to 64 characters of \<open>[A-Za-z0-9_.:-]\<close>.\<close>

definition key_char :: "char \<Rightarrow> bool" where
  "key_char c =
     (let n = of_char c :: nat in
      (65 \<le> n \<and> n \<le> 90) \<or> (97 \<le> n \<and> n \<le> 122) \<or> (48 \<le> n \<and> n \<le> 57) \<or>
      c = CHR ''_'' \<or> c = CHR ''.'' \<or> c = CHR '':'' \<or> c = CHR ''-'')"

definition valid_key :: "string \<Rightarrow> bool" where
  "valid_key k \<longleftrightarrow> 1 \<le> length k \<and> length k \<le> 64 \<and> list_all key_char k"

text \<open>The query parameter \<open>limit\<close> of \<open>GET /sandboxes\<close>, default 50.\<close>

definition valid_limit :: "int option \<Rightarrow> int option" where
  "valid_limit q = (case q of None \<Rightarrow> Some 50 | Some n \<Rightarrow> in_range 1 100 (Some n))"

section \<open>Responses\<close>

record sandbox_out =
  out_id :: uuid
  out_type :: sandbox_type
  out_status :: status
  out_deployment :: deployment
  out_url :: "string option"
  out_error :: "string option"
  out_attempts :: int
  out_expires_at :: datetime
  out_created_at :: datetime
  out_updated_at :: datetime

text \<open>\<open>from_attributes\<close>: the response never carries the idempotency key.\<close>

definition SandboxOut :: "sandbox \<Rightarrow> sandbox_out" where
  "SandboxOut r =
     \<lparr>out_id = sid r, out_type = type_of r, out_status = status r, out_deployment = pool r,
      out_url = url r, out_error = error r, out_attempts = attempts r,
      out_expires_at = expires_at r, out_created_at = created_at r, out_updated_at = updated_at r\<rparr>"

record sandbox_accepted =
  acc_job_id :: string
  acc_sandbox_id :: uuid
  acc_type :: sandbox_type
  acc_status :: status
  acc_deployment :: deployment
  acc_expires_at :: datetime

lemma parse_create_range:
  "parse_create lax_int j = Some b \<Longrightarrow> 60 \<le> ttl_s b \<and> ttl_s b \<le> 3600"
  by (cases j) (auto simp: in_range_def split: if_splits option.splits)

lemma parse_rollout_range:
  "parse_rollout j = Some b \<Longrightarrow> 0 \<le> canary_weight b \<and> canary_weight b \<le> 100"
  by (cases j) (auto simp: in_range_def split: if_splits option.splits)

end
