(* ===== verification/Api.thy ===== *)
theory Api
  imports Rollout Schemas
begin

text \<open>
  The sandbox API (\<open>src/app/routes/sandboxes.py\<close>): the producer side of the queue. It records
  intent in the table and hands the work to the worker; it never talks to Docker.
\<close>

definition sandboxes_503 :: exn where
  "sandboxes_503 = HTTPException 503 ''queue unavailable, retry later'' []"

definition get_or_404 :: "uuid \<Rightarrow> ('e world, sandbox) prog" where
  "get_or_404 i =
     pbind (db_get i) (\<lambda>found.
     case found of None \<Rightarrow> Raise (HTTPException 404 ''sandbox not found'' []) | Some r \<Rightarrow> Return r)"

definition accepted :: "sandbox \<Rightarrow> sandbox_accepted" where
  "accepted r =
     \<lparr>acc_job_id = sandbox_job_id START_SANDBOX (sid r), acc_sandbox_id = sid r,
      acc_type = type_of r, acc_status = status r, acc_deployment = pool r,
      acc_expires_at = expires_at r\<rparr>"

section \<open>POST /sandboxes\<close>

text \<open>
  The answer of a POST, and whether the header \<open>Idempotent-Replayed: true\<close> is set. A \<open>select\<close> that
  is read with \<open>session.scalar\<close> gives its first row.
\<close>

type_synonym create_response = "sandbox_accepted \<times> bool"

definition replay :: "string \<Rightarrow> ('e world, create_response option) prog" where
  "replay key =
     pbind (db_select (\<lambda>r. idempotency_key r = Some key)) (\<lambda>rows.
     case rows of
       [] \<Rightarrow> Return None
     | original # _ \<Rightarrow>
         andthen (emit (JOBS_ENQUEUED START_SANDBOX ''deduplicated'' (pool original)))
           (Return (Some (accepted original, True))))"

text \<open>\<open>if idempotency_key and (replay := await _replay(\<dots>))\<close>: None and the empty key are false.\<close>

definition replay_if_key :: "string option \<Rightarrow> ('e world, create_response option) prog" where
  "replay_if_key key =
     (case key of None \<Rightarrow> Return None | Some k \<Rightarrow> if k = [] then Return None else replay k)"

definition capacity_429 :: "settings \<Rightarrow> exn" where
  "capacity_429 s =
     HTTPException 429
       (''sandbox capacity reached ('' @ str_of_int (sandbox_max_active s) @ ''), retry later'')
       [(''Retry-After'', ''30'')]"

text \<open>The part of \<open>create_sandbox\<close> after the row has been committed.\<close>

definition enqueue_start :: "'e services \<Rightarrow> settings \<Rightarrow> sandbox \<Rightarrow> ('e world, create_response) prog" where
  "enqueue_start S s r =
     try_catch (enqueue_sandbox_job S START_SANDBOX (sid r) (redis_timeout_s s) (pool r))
       (\<lambda>_. andthen (emit (JOBS_ENQUEUED START_SANDBOX ''enqueued'' (pool r))) (Return (accepted r, False)))
       (except_Exception (\<lambda>exc.
          andthen (emit (JOBS_ENQUEUED START_SANDBOX ''error'' (pool r)))
           (andthen (db_update (\<lambda>q. sid q = sid r)
                       (\<lambda>q. q\<lparr>status := FAILED, error := Some (''enqueue: '' @ exn_name exc)\<rparr>))
             (Raise sandboxes_503))))"

text \<open>\<open>new_id\<close> is what \<open>uuid.uuid4()\<close> draws.\<close>

definition create_sandbox ::
    "'e services \<Rightarrow> settings \<Rightarrow> uuid \<Rightarrow> sandbox_create \<Rightarrow> string option \<Rightarrow> ('e world, create_response) prog" where
  "create_sandbox S s new_id body key =
     pbind (replay_if_key key) (\<lambda>found.
     case found of
       Some answer \<Rightarrow> Return answer
     | None \<Rightarrow>
         pbind (db_select (\<lambda>r. status r \<in> ACTIVE_STATUSES)) (\<lambda>active.
         if sandbox_max_active s \<le> int (length active) then Raise (capacity_429 s)
         else
           pbind (pick_deployment new_id (redis_timeout_s s)) (\<lambda>d.
           pbind get_now (\<lambda>now.
           let expires = now + seconds (ttl_s body) in
           pbind get_now (\<lambda>created.
           let r = new_sandbox new_id (create_type body) QUEUED d expires key created in
           try_catch (db_insert r)
             (\<lambda>_. enqueue_start S s r)
             (\<lambda>e. if is_class IntegrityError e
                  then pbind (replay_if_key key) (\<lambda>found.
                         case found of Some answer \<Rightarrow> Return answer | None \<Rightarrow> Raise e)
                  else Raise e))))))"

text \<open>The route: the body and the header are validated before the handler runs.\<close>

definition unprocessable_422 :: exn where
  "unprocessable_422 = HTTPException 422 ''validation error'' []"

definition post_sandboxes ::
    "'e services \<Rightarrow> settings \<Rightarrow> (json \<Rightarrow> int option) \<Rightarrow> uuid \<Rightarrow> json \<Rightarrow> string option \<Rightarrow> ('e world, create_response) prog" where
  "post_sandboxes S s lax_int new_id body key =
     (case parse_create lax_int body of
        None \<Rightarrow> Raise unprocessable_422
      | Some b \<Rightarrow>
          if (case key of None \<Rightarrow> True | Some k \<Rightarrow> valid_key k) then create_sandbox S s new_id b key
          else Raise unprocessable_422)"

section \<open>GET /sandboxes, GET /sandboxes/{id}\<close>

text \<open>\<open>ORDER BY created_at DESC\<close>; rows created at the same microsecond stay in table order.\<close>

definition newest_first :: "sandbox list \<Rightarrow> sandbox list" where
  "newest_first = sort_key (\<lambda>r. - created_at r)"

definition api_list_sandboxes :: "int \<Rightarrow> ('e world, sandbox list) prog" where
  "api_list_sandboxes limit =
     pbind (db_select (\<lambda>_. True)) (\<lambda>rows. Return (take (nat limit) (newest_first rows)))"

definition get_sandbox :: "uuid \<Rightarrow> ('e world, sandbox) prog" where
  "get_sandbox i = get_or_404 i"

section \<open>DELETE /sandboxes/{id}\<close>

definition delete_sandbox :: "'e services \<Rightarrow> settings \<Rightarrow> uuid \<Rightarrow> ('e world, sandbox) prog" where
  "delete_sandbox S s i =
     pbind (get_or_404 i) (\<lambda>r.
     if status r \<notin> ACTIVE_STATUSES then Return r
     else
       andthen (db_update (\<lambda>q. sid q = i \<and> status q \<in> ACTIVE_STATUSES) (\<lambda>q. q\<lparr>status := STOPPING\<rparr>))
        (pbind (db_get i) (\<lambda>refreshed.
         case refreshed of
           None \<Rightarrow> Raise (Err (OtherError ''InvalidRequestError'') ''Could not refresh instance'')
         | Some r \<Rightarrow>
             if status r \<noteq> STOPPING then Return r
             else
               pbind (pick_deployment i (redis_timeout_s s)) (\<lambda>d.
               try_catch (enqueue_sandbox_job S STOP_SANDBOX i (redis_timeout_s s) d)
                 (\<lambda>_. andthen (emit (JOBS_ENQUEUED STOP_SANDBOX ''enqueued'' d)) (Return r))
                 (except_Exception (\<lambda>exc.
                    andthen (emit (JOBS_ENQUEUED STOP_SANDBOX ''error'' d)) (Raise sandboxes_503)))))))"

section \<open>The routes' guarantee\<close>

lemma replay_frame [guar_intros]: "guar same_db (replay k)" "guar same_db (replay_if_key key)"
  unfolding replay_def replay_if_key_def
  by (intro guar_intros | simp split: list.split | intro conjI impI allI)+

lemmas replay_db [guar_intros] = replay_frame [THEN guar_same_db]

lemma get_or_404_frame [guar_intros]: "guar same_db (get_or_404 i)" "guar same_db (get_sandbox i)"
  unfolding get_sandbox_def get_or_404_def by (intro guar_intros)+

lemma api_list_frame [guar_intros]: "guar same_db (api_list_sandboxes limit)"
  unfolding api_list_sandboxes_def by (intro guar_intros)

lemmas api_read_db [guar_intros] = get_or_404_frame [THEN guar_same_db] api_list_frame [THEN guar_same_db]

lemma enqueue_start_evolves [guar_intros]: "guar db_evolves (enqueue_start S s r)"
  unfolding enqueue_start_def
  by (intro guar_intros db_update_evolves) (auto simp: legal_write_def edge_simps row_ok_def)

lemma create_sandbox_evolves [guar_intros]: "guar db_evolves (create_sandbox S s i body key)"
  unfolding create_sandbox_def Let_def
  by (intro guar_intros) (simp add: row_ok_def new_sandbox_def)

lemma post_sandboxes_evolves [guar_intros]: "guar db_evolves (post_sandboxes S s lax_int i body key)"
  unfolding post_sandboxes_def by (intro guar_intros)

lemma delete_sandbox_evolves [guar_intros]: "guar db_evolves (delete_sandbox S s i)"
  unfolding delete_sandbox_def
  by (intro guar_intros db_update_evolves) (auto simp: legal_write_def edge_simps row_ok_def)

end
