(* ===== verification/Logging.thy ===== *)
theory Logging
  imports Json "HOL-Library.AList" "HOL-Library.Sublist"
begin

text \<open>
  Structured logs (\<open>src/app/observability.py\<close>, \<open>JsonFormatter\<close> and \<open>setup_logging\<close>): which fields a
  log line has, which of them wins when two have one name, and the line as JSON text. A Python
  dict is its list of items in insertion order, \<open>AList.update\<close> is its item assignment.
\<close>

section \<open>Time stamps\<close>

text \<open>Year, month and day of a day count since 1970-01-01, in the proleptic Gregorian calendar.\<close>

definition civil_of_days :: "int \<Rightarrow> int \<times> int \<times> int" where
  "civil_of_days days =
     (let z = days + 719468;
          era = z div 146097;
          doe = z mod 146097;
          yoe = (doe - doe div 1460 + doe div 36524 - doe div 146096) div 365;
          doy = doe - (365 * yoe + yoe div 4 - yoe div 100);
          mp = (5 * doy + 2) div 153;
          month = (if mp < 10 then mp + 3 else mp - 9)
      in (yoe + era * 400 + (if month \<le> 2 then 1 else 0), month, doy - (153 * mp + 2) div 5 + 1))"

definition padded :: "nat \<Rightarrow> int \<Rightarrow> string" where
  "padded k n = map digit_char (digits_fixed 10 k (nat n))"

text \<open>\<open>datetime.isoformat\<close> of a time in UTC.\<close>

definition isoformat :: "datetime \<Rightarrow> string" where
  "isoformat t =
     (let day = 86400 * 1000000;
          (y, mo, d) = civil_of_days (t div day);
          s = t mod day div 1000000;
          us = t mod 1000000
      in padded 4 y @ ''-'' @ padded 2 mo @ ''-'' @ padded 2 d @ ''T'' @
         padded 2 (s div 3600) @ '':'' @ padded 2 (s div 60 mod 60) @ '':'' @ padded 2 (s mod 60) @
         (if us = 0 then [] else ''.'' @ padded 6 us) @ ''+00:00'')"

section \<open>\<open>JsonFormatter\<close>\<close>

text \<open>
  \<open>attributes\<close> is \<open>vars(record)\<close>: the standard attributes and what a call passed as \<open>extra\<close>, with
  values as \<open>json.dumps(default=str)\<close> takes them; \<open>exc_text\<close> is the formatted exception, if any.
\<close>

record log_record =
  created :: datetime
  levelname :: string
  logger_name :: string
  message :: string
  attributes :: "(string \<times> json) list"
  exc_text :: "string option"

definition RESERVED :: "string list" where
  "RESERVED =
     [''name'', ''msg'', ''args'', ''levelname'', ''levelno'', ''pathname'', ''filename'', ''module'',
      ''exc_info'', ''exc_text'', ''stack_info'', ''lineno'', ''funcName'', ''created'', ''msecs'',
      ''relativeCreated'', ''thread'', ''threadName'', ''processName'', ''process'', ''taskName'',
      ''message'', ''asctime'']"

definition dict_update :: "(string \<times> 'v) list \<Rightarrow> (string \<times> 'v) list \<Rightarrow> (string \<times> 'v) list" where
  "dict_update kvs d = fold (\<lambda>(k, v). AList.update k v) kvs d"

text \<open>\<open>format(span.trace_id, "032x")\<close>.\<close>

definition hex_id :: "nat \<Rightarrow> 'a::len word \<Rightarrow> json" where
  "hex_id k x = JString (map digit_char (digits_fixed 16 k (unat x)))"

definition base_fields :: "log_record \<Rightarrow> (string \<times> json) list" where
  "base_fields r =
     [(''ts'', JString (isoformat (created r))), (''severity'', JString (levelname r)),
      (''logger'', JString (logger_name r)), (''msg'', JString (message r))]"

definition trace_fields :: "(128 word \<times> 64 word) option \<Rightarrow> (string \<times> json) list" where
  "trace_fields span_ctx = (case span_ctx of
       None \<Rightarrow> []
     | Some (trace_id, span_id) \<Rightarrow> [(''trace_id'', hex_id 32 trace_id), (''span_id'', hex_id 16 span_id)])"

definition extra_fields :: "log_record \<Rightarrow> (string \<times> json) list" where
  "extra_fields r = filter (\<lambda>(k, v). k \<notin> set RESERVED \<and> \<not> prefix ''otel'' k) (attributes r)"

text \<open>\<open>span_ctx\<close>: the current span, if its context is valid.\<close>

definition log_payload ::
    "(string \<times> json) list \<Rightarrow> (128 word \<times> 64 word) option \<Rightarrow> log_record \<Rightarrow> (string \<times> json) list" where
  "log_payload static span_ctx r =
     dict_update (case exc_text r of None \<Rightarrow> [] | Some t \<Rightarrow> [(''exc'', JString t)])
       (dict_update (extra_fields r)
         (dict_update (trace_fields span_ctx)
           (dict_update static (base_fields r))))"

definition log_line ::
    "(rat \<Rightarrow> string) \<Rightarrow> (string \<times> json) list \<Rightarrow> (128 word \<times> 64 word) option \<Rightarrow> log_record \<Rightarrow> string" where
  "log_line float_repr static span_ctx r = dumps float_repr (JObject (log_payload static span_ctx r))"

text \<open>The logger \<open>app\<close>: \<open>setup_logging\<close> replaces its handlers by one that formats with the static fields.\<close>

record logger =
  log_handlers :: "(string \<times> json) list list"  \<comment> \<open>the static fields of each handler's formatter\<close>
  log_level_name :: string

definition setup_logging :: "string \<Rightarrow> (string \<times> string) list \<Rightarrow> logger \<Rightarrow> logger" where
  "setup_logging level static lg =
     lg\<lparr>log_handlers := [map (\<lambda>(k, v). (k, JString v)) static], log_level_name := level\<rparr>"

text \<open>Some days.\<close>

lemma isoformat_examples:
  "isoformat 0 = ''1970-01-01T00:00:00+00:00''"
  "isoformat (951782400 * 1000000 + 5) = ''2000-02-29T00:00:00.000005+00:00''"
  "isoformat (1735689599 * 1000000) = ''2024-12-31T23:59:59+00:00''"
  by code_simp+

section \<open>Which field wins\<close>

lemma map_of_dict_update: "map_of (dict_update kvs d) = map_of d ++ map_of (rev kvs)"
proof (induction kvs arbitrary: d)
  case (Cons kv kvs)
  obtain k v where kv: "kv = (k, v)" by (cases kv)
  have "dict_update (kv # kvs) d = dict_update kvs (AList.update k v d)" by (simp add: dict_update_def kv)
  with Cons show ?case
    by (intro ext) (simp add: kv update_conv map_add_def split: option.split)
qed (simp add: dict_update_def)

lemma distinct_dict_update: "distinct (map fst d) \<Longrightarrow> distinct (map fst (dict_update kvs d))"
  by (induction kvs arbitrary: d) (auto simp: dict_update_def distinct_update)

lemma map_of_rev_distinct: "distinct (map fst kvs) \<Longrightarrow> map_of (rev kvs) = map_of kvs"
  by (rule map_of_eqI) (auto simp: rev_map [symmetric])

lemma distinct_base_fields: "distinct (map fst (base_fields r))"
  by (simp add: base_fields_def)

lemma distinct_trace_fields: "distinct (map fst (trace_fields span_ctx))"
  by (simp add: trace_fields_def split: option.split)

lemma distinct_extra_fields: "distinct (map fst (attributes r)) \<Longrightarrow> distinct (map fst (extra_fields r))"
  unfolding extra_fields_def by (rule distinct_map_filter)

lemma extra_fields_lookup:
  "map_of (extra_fields r) k =
     (if k \<in> set RESERVED \<or> prefix ''otel'' k then None else map_of (attributes r) k)"
proof -
  have "map_of (filter (\<lambda>(k, v). P k) kvs) k = (if P k then map_of kvs k else None)" for P and kvs :: "(string \<times> json) list"
    by (induction kvs) auto
  then show ?thesis by (simp add: extra_fields_def)
qed

text \<open>C38. A log line has every field once and the most specific source of a field wins: an exception's
  text over the extras of the call, the extras over the trace ids, those over the static fields of
  the process, and these over the standard fields; an extra that is a standard attribute of a log
  record or belongs to the tracer's own instrumentation never reaches the line.\<close>

theorem log_fields_have_one_source:
  assumes "distinct (map fst static)" "distinct (map fst (attributes r))"
  shows "distinct (map fst (log_payload static span_ctx r)) \<and>
    map_of (log_payload static span_ctx r) k =
      (if k = ''exc'' \<and> exc_text r \<noteq> None then Some (JString (the (exc_text r)))
       else case (if k \<in> set RESERVED \<or> prefix ''otel'' k then None else map_of (attributes r) k) of
         Some v \<Rightarrow> Some v
       | None \<Rightarrow> (case map_of (trace_fields span_ctx) k of
           Some v \<Rightarrow> Some v
         | None \<Rightarrow> (case map_of static k of Some v \<Rightarrow> Some v | None \<Rightarrow> map_of (base_fields r) k)))"
proof -
  have "distinct (map fst (log_payload static span_ctx r))"
    unfolding log_payload_def by (intro distinct_dict_update distinct_base_fields)
  moreover have "map_of (log_payload static span_ctx r) =
      map_of (base_fields r) ++ map_of static ++ map_of (trace_fields span_ctx) ++ map_of (extra_fields r) ++
      map_of (case exc_text r of None \<Rightarrow> [] | Some t \<Rightarrow> [(''exc'', JString t)])"
    using assms unfolding log_payload_def
    by (simp add: map_of_dict_update map_of_rev_distinct distinct_trace_fields distinct_extra_fields split: option.split)
  then have "map_of (log_payload static span_ctx r) k =
      (case map_of (case exc_text r of None \<Rightarrow> [] | Some t \<Rightarrow> [(''exc'', JString t)]) k of Some v \<Rightarrow> Some v
       | None \<Rightarrow> (case map_of (extra_fields r) k of Some v \<Rightarrow> Some v
         | None \<Rightarrow> (case map_of (trace_fields span_ctx) k of Some v \<Rightarrow> Some v
           | None \<Rightarrow> (case map_of static k of Some v \<Rightarrow> Some v | None \<Rightarrow> map_of (base_fields r) k))))"
    by (simp add: map_add_def split: option.split)
  ultimately show ?thesis
    by (simp add: extra_fields_lookup split: option.split)
qed

theorem log_fields_have_one_source_witness:
  "map_of (log_payload [(''deployment'', JString ''canary'')] None
     \<lparr>created = 0, levelname = ''INFO'', logger_name = ''app'', message = ''hello'',
      attributes = [(''name'', JString ''app''), (''deployment'', JString ''stable'')], exc_text = None\<rparr>) ''deployment'' =
     Some (JString ''stable'')"
  using log_fields_have_one_source [of "[(''deployment'', JString ''canary'')]"
     "\<lparr>created = 0, levelname = ''INFO'', logger_name = ''app'', message = ''hello'',
       attributes = [(''name'', JString ''app''), (''deployment'', JString ''stable'')], exc_text = None\<rparr>" None "''deployment''"]
  by (simp add: RESERVED_def)

text \<open>C37. A log line is one line of printable ASCII, whatever a caller puts into its fields (an
  \<open>x-request-id\<close> header with line breaks, say), and every string in it reads back exactly as it
  was, up to its own closing quote: a value can forge neither a line nor a field.\<close>

theorem log_lines_cannot_be_forged:
  assumes "\<And>x. all_printable (float_repr x)"
  shows "all_printable (log_line float_repr static span_ctx r) \<and> CHR 0x0A \<notin> set (log_line float_repr static span_ctx r) \<and>
    log_line float_repr static span_ctx r =
      ''{'' @ comma_separated (map (\<lambda>(k, v). dumps_string k @ '': '' @ dumps float_repr v) (log_payload static span_ctx r)) @ ''}'' \<and>
    (\<forall>s rest. read_string (dumps_string s @ rest) = Some (s, rest))"
proof -
  have "all_printable (log_line float_repr static span_ctx r)"
    unfolding log_line_def using assms by (rule all_printable_dumps)
  moreover from this have "CHR 0x0A \<notin> set (log_line float_repr static span_ctx r)"
    unfolding all_printable_def by (metis (no_types, lifting) newline_not_printable)
  ultimately show ?thesis by (simp add: read_string_dumps log_line_def)
qed

theorem log_lines_cannot_be_forged_witness:
  "CHR 0x0A \<notin> set (log_line (\<lambda>_. ''0.5'') [] None
     \<lparr>created = 0, levelname = ''INFO'', logger_name = ''app.http'', message = ''request'',
      attributes = [(''request_id'', JString [CHR 0x0A, CHR 0x22])], exc_text = None\<rparr>)"
  by (rule log_lines_cannot_be_forged [THEN conjunct2, THEN conjunct1]) (simp add: printable_def)

end
