(* ===== verification/Fakes.thy ===== *)
theory Fakes
  imports Runtime "HOL-Library.AList"
begin

text \<open>
  Concrete environments, to run the model on. \<open>stub_services\<close> is an in-memory Docker client and job
  queue in the manner of \<open>StubClient\<close> (\<open>src/tests/test_runtime.py\<close>): containers by name, a 409 for
  a name that is taken, a job id accepted once. \<open>fake_runtime\<close> is \<open>FakeRuntime\<close>
  (\<open>src/tests/support.py\<close>), the worker's view of Docker minus Docker.
\<close>

section \<open>An in-memory Docker client\<close>

record stub =
  held :: "container list"
  job_ids :: "string list"

definition empty_stub :: stub where
  "empty_stub = \<lparr>held = [], job_ids = []\<rparr>"

definition stub_named :: "stub \<Rightarrow> string \<Rightarrow> container option" where
  "stub_named x n = find (\<lambda>c. c_name c = n) (held x)"

definition stub_container :: "run_spec \<Rightarrow> container" where
  "stub_container sp =
     \<lparr>c_id = name sp, c_name = name sp, c_status = ''running'',
      c_ports = map (\<lambda>(p, h). (p, [''49153''])) (ports sp), c_labels = labels sp\<rparr>"

definition stub_get :: "string \<Rightarrow> stub \<Rightarrow> (exn + container) \<times> stub" where
  "stub_get n x =
     (case stub_named x n of None \<Rightarrow> Inl (Err NotFound n) | Some c \<Rightarrow> Inr c, x)"

definition stub_run :: "run_spec \<Rightarrow> stub \<Rightarrow> (exn + container) \<times> stub" where
  "stub_run sp x =
     (if stub_named x (name sp) \<noteq> None then (Inl (Err (APIError 409) ''Conflict''), x)
      else (Inr (stub_container sp), x\<lparr>held := stub_container sp # held x\<rparr>))"

definition stub_remove :: "container \<Rightarrow> stub \<Rightarrow> (exn + unit) \<times> stub" where
  "stub_remove c x =
     (if stub_named x (c_name c) = None then (Inl (Err NotFound (c_name c)), x)
      else (Inr (), x\<lparr>held := filter (\<lambda>d. c_name d \<noteq> c_name c) (held x)\<rparr>))"

definition stub_list :: "string \<Rightarrow> stub \<Rightarrow> (exn + container list) \<times> stub" where
  "stub_list l x =
     (Inr (remdups (filter (\<lambda>c. stub_named x (c_name c) = Some c \<and> map_of (c_labels c) l \<noteq> None) (held x))), x)"

definition stub_enqueue :: "string \<Rightarrow> string \<Rightarrow> string \<Rightarrow> string \<Rightarrow> stub \<Rightarrow> (exn + bool) \<times> stub" where
  "stub_enqueue f arg i q x =
     (if i \<in> set (job_ids x) then (Inr False, x) else (Inr True, x\<lparr>job_ids := i # job_ids x\<rparr>))"

definition stub_services :: "stub services" where
  "stub_services =
     \<lparr>containers_get = stub_get, containers_run = stub_run, container_remove = stub_remove,
      container_reload = (\<lambda>c x. stub_get (c_name c) x), containers_list = stub_list,
      images_get = (\<lambda>_ x. (Inr (), x)), images_pull = (\<lambda>_ x. (Inr (), x)),
      http_get = (\<lambda>_ x. ((Inr 200, 1000), x)),
      enqueue_job = stub_enqueue, zcount = (\<lambda>_ _ x. (Inr (int (length (job_ids x))), x)),
      redis_ping = (\<lambda>x. (Inr (), x)), docker_from_env = (\<lambda>x. (Inr (), x)),
      start_http_server = (\<lambda>_ x. (Inr (), x))\<rparr>"

lemma stub_services_simps [simp]:
  "containers_get stub_services = stub_get" "containers_run stub_services = stub_run"
  "container_remove stub_services = stub_remove" "container_reload stub_services c x = stub_get (c_name c) x"
  "containers_list stub_services = stub_list" "http_get stub_services u x = ((Inr 200, 1000), x)"
  "enqueue_job stub_services = stub_enqueue"
  by (simp_all add: stub_services_def)

definition stub_world :: "sandbox list \<Rightarrow> datetime \<Rightarrow> stub world" where
  "stub_world rows now =
     \<lparr>tables = Map.empty, sandboxes = rows, redis = Map.empty, ext = empty_stub, clock = now, faults = [],
      deadlines = [], emitted = [], gauges = (\<lambda>_ _. None)\<rparr>"

lemma stub_world_simps [simp]:
  "sandboxes (stub_world rows now) = rows" "redis (stub_world rows now) = Map.empty"
  "ext (stub_world rows now) = empty_stub" "clock (stub_world rows now) = now"
  "faults (stub_world rows now) = []" "deadlines (stub_world rows now) = []"
  "emitted (stub_world rows now) = []" "gauges (stub_world rows now) = (\<lambda>_ _. None)" "quiet (stub_world rows now)"
  by (simp_all add: stub_world_def quiet_def)

section \<open>\<open>FakeRuntime\<close>\<close>

record fake =
  containers :: "(uuid \<times> datetime) list"
  launch_error :: "exn option"
  remove_error :: "exn option"
  list_error :: "exn option"

definition empty_fake :: fake where
  "empty_fake = \<lparr>containers = [], launch_error = None, remove_error = None, list_error = None\<rparr>"

text \<open>\<open>during_launch\<close> is what the test lets happen while the container comes up.\<close>

definition fake_launch :: "(uuid \<Rightarrow> (fake world, unit) prog) \<Rightarrow> uuid \<Rightarrow> datetime \<Rightarrow> (fake world, string) prog" where
  "fake_launch during_launch i x =
     andthen (call (\<lambda>f. case launch_error f of
        Some e \<Rightarrow> (Inl e, f)
      | None \<Rightarrow> (Inr (), f\<lparr>containers := AList.update i x (containers f)\<rparr>)))
      (andthen (during_launch i) (Return ''http://localhost:49153''))"

definition fake_remove :: "uuid \<Rightarrow> (fake world, bool) prog" where
  "fake_remove i =
     call (\<lambda>f. case remove_error f of
        Some e \<Rightarrow> (Inl e, f)
      | None \<Rightarrow> (Inr (map_of (containers f) i \<noteq> None),
                 f\<lparr>containers := filter (\<lambda>(j, _). j \<noteq> i) (containers f)\<rparr>))"

definition fake_list_sandboxes :: "(fake world, runtime_sandbox list) prog" where
  "fake_list_sandboxes =
     call (\<lambda>f. case list_error f of
        Some e \<Rightarrow> (Inl e, f)
      | None \<Rightarrow> (Inr (map (\<lambda>(i, x). \<lparr>rs_sandbox_id = i, rs_expires_at = x\<rparr>) (containers f)), f))"

definition fake_runtime :: "(uuid \<Rightarrow> (fake world, unit) prog) \<Rightarrow> fake runtime" where
  "fake_runtime during_launch =
     \<lparr>rt_launch = fake_launch during_launch, rt_remove = fake_remove,
      rt_list_sandboxes = fake_list_sandboxes\<rparr>"

lemma fake_runtime_simps [simp]:
  "rt_launch (fake_runtime h) = fake_launch h" "rt_remove (fake_runtime h) = fake_remove"
  "rt_list_sandboxes (fake_runtime h) = fake_list_sandboxes"
  by (simp_all add: fake_runtime_def)

definition nothing :: "uuid \<Rightarrow> ('e world, unit) prog" where
  "nothing i = Return ()"

lemma fake_runtime_frame [simp]: "detached (fake_runtime nothing)" "calm (fake_runtime nothing)"
  unfolding detached_def calm_def fake_runtime_simps fake_launch_def fake_remove_def
    fake_list_sandboxes_def nothing_def
  by (intro conjI allI guar_intros)+

definition fake_world :: "sandbox list \<Rightarrow> datetime \<Rightarrow> fake \<Rightarrow> fake world" where
  "fake_world rows now f =
     \<lparr>tables = Map.empty, sandboxes = rows, redis = Map.empty, ext = f, clock = now, faults = [], deadlines = [],
      emitted = [], gauges = (\<lambda>_ _. None)\<rparr>"

lemma fake_world_simps [simp]:
  "sandboxes (fake_world rows now f) = rows" "redis (fake_world rows now f) = Map.empty"
  "ext (fake_world rows now f) = f" "clock (fake_world rows now f) = now"
  "faults (fake_world rows now f) = []" "deadlines (fake_world rows now f) = []"
  "emitted (fake_world rows now f) = []" "gauges (fake_world rows now f) = (\<lambda>_ _. None)" "quiet (fake_world rows now f)"
  by (simp_all add: fake_world_def quiet_def)

end
