(* ===== verification/Observability.thy ===== *)
theory Observability
  imports Logging Fakes
begin

text \<open>
  The request middleware (\<open>src/app/observability.py\<close>, \<open>observe_requests\<close>) and the application around
  it (\<open>src/app/main.py\<close>): RED metrics and one access log line per request, keyed by the route
  template, and what an unhandled exception is answered with. What \<open>call_next\<close> does is the program
  \<open>call_next\<close>, and the template of the route it matched, if any, the argument \<open>matched\<close>.
\<close>

record request =
  req_method :: string
  req_path :: string
  req_headers :: "(string \<times> string) list"

record response =
  res_status :: int
  res_headers :: "(string \<times> string) list"
  res_body :: json

definition METHODS :: "string list" where
  "METHODS = [''GET'', ''HEAD'', ''POST'', ''PUT'', ''PATCH'', ''DELETE'', ''OPTIONS'']"

definition QUIET_ROUTES :: "string list" where
  "QUIET_ROUTES = [''/healthz'', ''/readyz'', ''/metrics'']"

definition method_label :: "string \<Rightarrow> string" where
  "method_label meth = (if meth \<in> set METHODS then meth else ''OTHER'')"

text \<open>\<open>request.headers.get("x-request-id") or uuid.uuid4().hex\<close>: an empty header is false.\<close>

definition uuid_hex :: "uuid \<Rightarrow> string" where
  "uuid_hex u = map digit_char (digits_fixed 16 32 (unat u))"

definition request_id :: "request \<Rightarrow> uuid \<Rightarrow> string" where
  "request_id rq fresh =
     (case map_of (req_headers rq) ''x-request-id'' of
        Some i \<Rightarrow> if i = [] then uuid_hex fresh else i
      | None \<Rightarrow> uuid_hex fresh)"

definition route_label :: "string option \<Rightarrow> string" where
  "route_label matched = (case matched of Some path \<Rightarrow> path | None \<Rightarrow> ''unmatched'')"

text \<open>The \<open>finally\<close> block. The access log line also carries the duration, the time of HTTP_LATENCY.\<close>

definition observe_end :: "request \<Rightarrow> string \<Rightarrow> string option \<Rightarrow> datetime \<Rightarrow> int \<Rightarrow> ('e world, unit) prog" where
  "observe_end rq rid matched start code =
     (let route = route_label matched in
      pbind get_now (\<lambda>now.
      let elapsed = now - start; meth = method_label (req_method rq) in
      andthen (emit (HTTP_REQUESTS meth route (str_of_int code)))
       (andthen (emit (HTTP_LATENCY meth route elapsed))
        (if route \<notin> set QUIET_ROUTES then emit (ACCESS_LOG rid (req_method rq) route code) else Return ()))))"

text \<open>\<open>response.headers[\<dots>] = \<dots>\<close> replaces the header or appends it.\<close>

definition observe_requests ::
    "request \<Rightarrow> uuid \<Rightarrow> string option \<Rightarrow> ('e world, response) prog \<Rightarrow> ('e world, response) prog" where
  "observe_requests rq fresh matched call_next =
     (let rid = request_id rq fresh in
      pbind get_now (\<lambda>start.
      try_catch call_next
        (\<lambda>r. andthen (observe_end rq rid matched start (res_status r))
               (Return (r\<lparr>res_headers := AList.update ''x-request-id'' rid (res_headers r)\<rparr>)))
        (\<lambda>e. andthen (observe_end rq rid matched start 500) (Raise e))))"

text \<open>The handler of every exception no other handler takes.\<close>

definition unhandled :: "exn \<Rightarrow> response" where
  "unhandled e =
     \<lparr>res_status = 500, res_headers = [], res_body = JObject [(''detail'', JString ''internal error'')]\<rparr>"

lemma same_db_observe_end [guar_intros]: "guar same_db (observe_end rq rid matched start code)"
  unfolding observe_end_def Let_def by (intro guar_intros)

lemmas db_observe_end [guar_intros] = same_db_observe_end [THEN guar_same_db]

lemma db_observe_requests [guar_intros]:
  "guar db_evolves p \<Longrightarrow> guar db_evolves (observe_requests rq fresh matched p)"
  unfolding observe_requests_def Let_def by (intro guar_intros)

section \<open>Each request is observed once\<close>

text \<open>What the middleware emits for a request that ended with \<open>code\<close> after \<open>elapsed\<close>.\<close>

definition observation :: "request \<Rightarrow> uuid \<Rightarrow> string option \<Rightarrow> int \<Rightarrow> int \<Rightarrow> event list" where
  "observation rq fresh matched code elapsed =
     [HTTP_REQUESTS (method_label (req_method rq)) (route_label matched) (str_of_int code),
      HTTP_LATENCY (method_label (req_method rq)) (route_label matched) elapsed] @
     (if route_label matched \<in> set QUIET_ROUTES then []
      else [ACCESS_LOG (request_id rq fresh) (req_method rq) (route_label matched) code])"

lemma run_observe_end:
  "run (observe_end rq (request_id rq fresh) matched start code) w =
     (Inr (), w\<lparr>emitted := emitted w @ observation rq fresh matched code (clock w - start)\<rparr>)"
  by (simp add: observe_end_def observation_def Let_def run_simps)

lemma method_label_bounded: "method_label meth \<in> set (''OTHER'' # METHODS)"
  by (simp add: method_label_def)

lemma run_observe_requests:
  assumes "run call_next w = (result, v)"
  shows "run (observe_requests rq fresh matched call_next) w =
      (case result of
         Inr r \<Rightarrow> Inr (r\<lparr>res_headers := AList.update ''x-request-id'' (request_id rq fresh) (res_headers r)\<rparr>)
       | Inl e \<Rightarrow> Inl e,
       v\<lparr>emitted := emitted v @ observation rq fresh matched
          (case result of Inr r \<Rightarrow> res_status r | Inl _ \<Rightarrow> 500) (clock v - clock w)\<rparr>)"
  using assms unfolding observe_requests_def Let_def
  by (simp add: run_pbind run_get_now run_try_catch run_andthen run_observe_end split: sum.split)

lemma request_id_nonempty: "request_id rq fresh \<noteq> []"
proof -
  have "uuid_hex fresh \<noteq> []"
    unfolding uuid_hex_def by (metis length_digits_fixed length_map list.size(3) zero_neq_numeral)
  then show ?thesis by (simp add: request_id_def split: option.split)
qed

text \<open>Every request is observed exactly once, however its handler ends: a counter and a latency
  sample, and an access log line unless the route is a probe, with status 500 if the handler
  raised; the method label is one of eight whatever the caller sent, the response is the handler's
  with the caller's request id (or a fresh one) echoed, and an exception goes on unchanged.\<close>

theorem every_request_is_observed_once:
  assumes "run call_next w = (result, v)"
  shows "run (observe_requests rq fresh matched call_next) w =
      (case result of
         Inr r \<Rightarrow> Inr (r\<lparr>res_headers := AList.update ''x-request-id'' (request_id rq fresh) (res_headers r)\<rparr>)
       | Inl e \<Rightarrow> Inl e,
       v\<lparr>emitted := emitted v @ observation rq fresh matched
          (case result of Inr r \<Rightarrow> res_status r | Inl _ \<Rightarrow> 500) (clock v - clock w)\<rparr>) \<and>
    method_label (req_method rq) \<in> set (''OTHER'' # METHODS) \<and> request_id rq fresh \<noteq> []"
  using run_observe_requests [OF assms] method_label_bounded request_id_nonempty by (intro conjI)

text \<open>A handler that raises on a request with a made-up method.\<close>

theorem every_request_is_observed_once_witness:
  "run (observe_requests \<lparr>req_method = ''BREW'', req_path = ''/rollout'', req_headers = [(''x-request-id'', ''abc123'')]\<rparr> 7
       (Some ''/rollout'') (Raise (Err RuntimeError []))) (stub_world [] 0) =
     (Inl (Err RuntimeError []), (stub_world [] 0)\<lparr>emitted :=
       [HTTP_REQUESTS ''OTHER'' ''/rollout'' ''500'', HTTP_LATENCY ''OTHER'' ''/rollout'' 0,
        ACCESS_LOG ''abc123'' ''BREW'' ''/rollout'' 500]\<rparr>)"
proof -
  have "str_of_int 500 = ''500''" by code_simp
  moreover have "run (Raise (Err RuntimeError []) :: (stub world, response) prog) (stub_world [] 0) =
      (Inl (Err RuntimeError []), stub_world [] 0)" by simp
  ultimately show ?thesis
    using every_request_is_observed_once [of "Raise (Err RuntimeError [])" "stub_world [] 0" "Inl (Err RuntimeError [])" "stub_world [] 0"
        "\<lparr>req_method = ''BREW'', req_path = ''/rollout'', req_headers = [(''x-request-id'', ''abc123'')]\<rparr>" 7 "Some ''/rollout''"]
    by (simp add: observation_def method_label_def METHODS_def QUIET_ROUTES_def route_label_def request_id_def)
qed

end
