(* ===== verification/Health.thy ===== *)
theory Health
  imports Fakes
begin

text \<open>
  Liveness and readiness (\<open>src/app/routes/health.py\<close>). A readiness check is a probe under a deadline
  whose failure becomes text; the database probe is a connection and a \<open>SELECT 1\<close>.
\<close>

definition check :: "('e world, unit) prog \<Rightarrow> rat \<Rightarrow> ('e world, string) prog" where
  "check p timeout_s =
     try_catch (asyncio_timeout timeout_s p) (\<lambda>_. Return ''ok'')
       (except_Exception (\<lambda>exc. Return (''error: '' @ exn_name exc)))"

definition ping_db :: "('e world, unit) prog" where
  "ping_db = andthen (statement (\<lambda>w. (Inr (), w))) (statement (\<lambda>w. (Inr (), w)))"

record readiness =
  ready_code :: int
  ready_status :: string
  checks :: "(string \<times> string) list"

definition readiness_answer :: "(string \<times> string) list \<Rightarrow> readiness" where
  "readiness_answer cs =
     (let ok = list_all (\<lambda>(_, v). v = ''ok'') cs
      in \<lparr>ready_code = (if ok then 200 else 503), ready_status = (if ok then ''ok'' else ''degraded''),
          checks = cs\<rparr>)"

definition readyz :: "'e services \<Rightarrow> settings \<Rightarrow> ('e world, readiness) prog" where
  "readyz S s =
     pbind (check ping_db (db_timeout_s s)) (\<lambda>database_check.
     pbind (check (call (redis_ping S)) (redis_timeout_s s)) (\<lambda>redis_check.
     Return (readiness_answer [(''database'', database_check), (''redis'', redis_check)])))"

text \<open>Liveness asks nothing of any dependency.\<close>

definition healthz :: "('e world, (string \<times> string) list) prog" where
  "healthz = Return [(''status'', ''ok'')]"

lemma same_db_health [guar_intros]: "guar same_db (readyz S s)" "guar same_db healthz"
  unfolding readyz_def healthz_def check_def ping_db_def Let_def
  by (intro guar_intros guar_statement | simp add: same_db_def)+

lemmas db_health [guar_intros] = same_db_health [THEN guar_same_db]

section \<open>What readiness tells\<close>

text \<open>The text of a check that failed names the class of what failed.\<close>

definition check_text :: "exn option \<Rightarrow> string" where
  "check_text failure = (case failure of None \<Rightarrow> ''ok'' | Some e \<Rightarrow> ''error: '' @ exn_name e)"

lemma check_text_ok [simp]: "check_text f = ''ok'' \<longleftrightarrow> f = None"
  by (simp add: check_text_def split: option.split)

lemma ensures_check:
  assumes "\<And>f v. Q (Inr (check_text f)) v" "\<And>e v. \<not> is_Exception e \<Longrightarrow> Q (Inl e) v"
  shows "ensures R (check p t) Q w"
proof -
  have "Q (Inr ''ok'') v" "Q (Inr (''error: '' @ exn_name e)) v" for e v
    using assms(1) [of None v] assms(1) [of "Some e" v] by (simp_all add: check_text_def)
  with assms(2) show ?thesis
    unfolding check_def ensures_simps
    by (auto simp: ensures_except_Exception intro: ensures_always split: sum.split)
qed

text \<open>Readiness tells each dependency apart and never fails itself: in any environment, with any
  faults and deadlines, the answer says for the database and for Redis either ok or the class of
  the exception that failed it, and it is 200 exactly if both are ok, else 503; only a
  cancellation leaves the handler.\<close>

theorem readiness_tells_dependencies_apart:
  "case fst (run_with (readyz S s) I k w) of
     Inr r \<Rightarrow> \<exists>database redis.
       checks r = [(''database'', check_text database), (''redis'', check_text redis)] \<and>
       (ready_code r, ready_status r) =
         (if database = None \<and> redis = None then (200, ''ok'') else (503, ''degraded''))
   | Inl e \<Rightarrow> \<not> is_Exception e"
proof -
  let ?Q = "\<lambda>res (_ :: 'a world). case res of
     Inr r \<Rightarrow> \<exists>database redis.
       checks r = [(''database'', check_text database), (''redis'', check_text redis)] \<and>
       (ready_code r, ready_status r) =
         (if database = None \<and> redis = None then (200, ''ok'') else (503, ''degraded''))
   | Inl e \<Rightarrow> \<not> is_Exception e"
  have answer: "?Q (Inr (readiness_answer [(''database'', check_text f), (''redis'', check_text g)])) v" for f g v
    by (cases "f = None \<and> g = None") (auto simp: readiness_answer_def Let_def)
  have "ensures (\<lambda>_ _. True) (readyz S s) ?Q w"
    unfolding readyz_def ensures_pbind
    by (intro ensures_check) (use answer in \<open>simp_all only: sum.case ensures.simps not_False_eq_True ensures_check\<close>)
  from run_with_ensures [where I = I and i = k, OF _ this] show ?thesis by simp
qed

section \<open>Readiness is exact\<close>

text \<open>What the next two statements run into, and what a service answered.\<close>

definition first_failure :: "'e world \<Rightarrow> exn option" where
  "first_failure w =
     (case fault_exn (next_fault w) of
        Some e \<Rightarrow> Some e
      | None \<Rightarrow> fault_exn (next_fault (w\<lparr>faults := tl (faults w)\<rparr>)))"

definition failure_of :: "exn + 'a \<Rightarrow> exn option" where
  "failure_of r = (case r of Inl e \<Rightarrow> Some e | Inr _ \<Rightarrow> None)"

lemma failure_of_simps [simp]: "failure_of (Inl e) = Some e" "failure_of (Inr a) = None"
  by (simp_all add: failure_of_def)

definition catchable :: "exn option \<Rightarrow> bool" where
  "catchable f = (case f of None \<Rightarrow> True | Some e \<Rightarrow> is_Exception e)"

lemma run_check:
  assumes "guar (\<lambda>u v. deadlines u = [] \<longrightarrow> deadlines v = []) p" "deadlines w = []"
    and "catchable (failure_of (fst (run p w)))"
  shows "run (check p t) w = (Inr (check_text (failure_of (fst (run p w)))), snd (run p w))"
proof -
  have "run (asyncio_timeout t p) w = run p w"
    unfolding asyncio_timeout_def
    by (rule run_with_deadline [where quiet = "\<lambda>w. deadlines w = []"]) (use assms in auto)
  with assms(3) show ?thesis
    by (cases "run p w"; cases "fst (run p w)")
       (simp_all add: check_def run_try_catch check_text_def catchable_def)
qed

lemma run_ping_db:
  "failure_of (fst (run ping_db w)) = first_failure w"
  "ext (snd (run ping_db w)) = ext w" "deadlines (snd (run ping_db w)) = deadlines w"
  unfolding ping_db_def
  by (cases "next_fault w"; cases "next_fault (w\<lparr>faults := tl (faults w)\<rparr>)";
      simp add: run_andthen statement_def run_atomically Let_def first_failure_def)+

lemma ping_keeps_deadlines:
  "guar (\<lambda>u v. deadlines u = [] \<longrightarrow> deadlines v = []) ping_db"
  "guar (\<lambda>u v. deadlines u = [] \<longrightarrow> deadlines v = []) (call f)"
  unfolding ping_db_def call_def
  by (intro guar_intros guar_statement guar_atomically; simp add: Let_def split: prod.split)+

text \<open>C33. Readiness is exact: while no deadline strikes, the check of the database is ok exactly if both
  the connection and \<open>SELECT 1\<close> succeed, and else names the class of the first failure; the check of
  Redis is ok exactly if the ping is, even after the database failed.\<close>

theorem readiness_is_exact:
  assumes "deadlines w = []" "catchable (first_failure w)"
    and "catchable (failure_of (fst (redis_ping S (ext w))))"
  shows "fst (run (readyz S s) w) =
    Inr (readiness_answer
      [(''database'', check_text (first_failure w)),
       (''redis'', check_text (failure_of (fst (redis_ping S (ext w)))))])"
proof -
  have db: "run (check ping_db t) w = (Inr (check_text (first_failure w)), snd (run ping_db w))" for t
    using run_check [OF ping_keeps_deadlines(1) assms(1), of t] assms(2) by (simp add: run_ping_db)
  let ?v = "snd (run ping_db w)"
  have "deadlines ?v = []" by (simp add: run_ping_db assms(1))
  moreover have r: "fst (run (call (redis_ping S)) ?v) = fst (redis_ping S (ext w))"
    by (simp add: run_call run_ping_db)
  ultimately have "fst (run (check (call (redis_ping S)) t) ?v) =
      Inr (check_text (failure_of (fst (redis_ping S (ext w)))))" for t
    using run_check [OF ping_keeps_deadlines(2), of ?v "redis_ping S" t] assms(3) by simp
  from db this [of "redis_timeout_s s"] show ?thesis
    unfolding readyz_def
    by (cases "run (check (call (redis_ping S)) (redis_timeout_s s)) ?v") (simp add: run_pbind)
qed

theorem readiness_is_exact_witness:
  "fst (run (readyz stub_services default_settings) ((stub_world [] 0)\<lparr>faults := [Fine, Before (Err OSError [])]\<rparr>)) =
     Inr \<lparr>ready_code = 503, ready_status = ''degraded'',
          checks = [(''database'', ''error: OSError''), (''redis'', ''ok'')]\<rparr>"
proof -
  let ?w = "(stub_world [] 0)\<lparr>faults := [Fine, Before (Err OSError [])]\<rparr>"
  have "first_failure ?w = Some (Err OSError [])"
    by (simp add: first_failure_def next_fault_def)
  moreover have "redis_ping stub_services x = (Inr (), x)" for x by (simp add: stub_services_def)
  ultimately show ?thesis
    using readiness_is_exact [of ?w stub_services default_settings]
    by (simp add: catchable_def check_text_def readiness_answer_def Let_def)
qed

end
