(* ===== verification/Scrape.thy ===== *)
theory Scrape
  imports Rollout Fakes
begin

text \<open>
  The scrape endpoint (\<open>src/app/routes/metrics.py\<close>): queue depth and rollout weight are sampled from
  Redis, the life cycle of the sandboxes from Postgres, each by a sampler that fails on its own.
  What \<open>Gauge.clear\<close> does belongs to \<open>prometheus_client\<close>: it is the parameter \<open>clear\<close>.
\<close>

section \<open>The samplers\<close>

definition put_gauge :: "gauge \<Rightarrow> string \<Rightarrow> rat \<Rightarrow> gauge_values \<Rightarrow> gauge_values" where
  "put_gauge g l v gv = gv(g := (gv g)(l \<mapsto> v))"

definition set_gauge :: "gauge \<Rightarrow> string \<Rightarrow> rat \<Rightarrow> ('e world, unit) prog" where
  "set_gauge g l v = does (\<lambda>w. w\<lparr>gauges := put_gauge g l v (gauges w)\<rparr>)"

text \<open>\<open>QUEUE_DEPTH.labels(d).set(await queue.zcount(\<dots>))\<close>: nothing is awaited between the two.\<close>

definition sample_depth :: "'e services \<Rightarrow> int \<Rightarrow> deployment \<Rightarrow> ('e world, unit) prog" where
  "sample_depth S now_ms d =
     atomically (\<lambda>w. let (r, x) = zcount S (QUEUES d) now_ms (ext w) in
       case r of
         Inl e \<Rightarrow> (Inl e, w\<lparr>ext := x\<rparr>)
       | Inr n \<Rightarrow> (Inr (), w\<lparr>ext := x,
                   gauges := put_gauge QUEUE_DEPTH (deployment_value d) (of_int n) (gauges w)\<rparr>))"

text \<open>
  The last statement of the block sets the gauge without awaiting anything: it is written after the
  block, where the deadline no longer applies.
\<close>

definition sample_queues :: "'e services \<Rightarrow> settings \<Rightarrow> ('e world, unit) prog" where
  "sample_queues S s =
     pbind get_now (\<lambda>now.
     let now_ms = now div 1000 in
     pbind (asyncio_timeout (redis_timeout_s s)
       (andthen (pfor [STABLE, CANARY] (sample_depth S now_ms))
         (get_weight (redis_timeout_s s)))) (\<lambda>weight.
     set_gauge ROLLOUT_CANARY_WEIGHT [] (of_int weight)))"

text \<open>\<open>SELECT status, count(*), min(updated_at) \<dots> GROUP BY status\<close>, as the dict made of its rows.\<close>

definition group_of :: "sandbox list \<Rightarrow> status \<Rightarrow> (nat \<times> datetime) option" where
  "group_of rows st =
     (case filter (\<lambda>r. status r = st \<and> status r \<in> ACTIVE_STATUSES) rows of
        [] \<Rightarrow> None
      | grp \<Rightarrow> Some (length grp, min_list (map updated_at grp)))"

definition active_list :: "status list" where
  "active_list = [QUEUED, STARTING, RUNNING, STOPPING]"

lemma set_active_list: "set active_list = ACTIVE_STATUSES"
  by (simp add: active_list_def ACTIVE_STATUSES_def)

definition put_status :: "datetime \<Rightarrow> (status \<Rightarrow> (nat \<times> datetime) option) \<Rightarrow> status \<Rightarrow> gauge_values \<Rightarrow> gauge_values" where
  "put_status now found st gv =
     (let (n, oldest) = (case found st of None \<Rightarrow> (0, None) | Some (n, t) \<Rightarrow> (n, Some t)) in
      put_gauge SANDBOX_OLDEST (status_value st)
        (case oldest of None \<Rightarrow> 0 | Some t \<Rightarrow> of_int (now - t) / 1000000)
        (put_gauge SANDBOXES_ACTIVE (status_value st) (of_nat n) gv))"

definition sample_sandboxes :: "settings \<Rightarrow> ('e world, unit) prog" where
  "sample_sandboxes s =
     andthen (set_gauge SANDBOX_CAPACITY [] (of_int (sandbox_max_active s)))
      (pbind (asyncio_timeout (db_timeout_s s) (statement (\<lambda>w. (Inr (group_of (sandboxes w)), w)))) (\<lambda>found.
       does (\<lambda>w. w\<lparr>gauges := fold (put_status (clock w) found) active_list (gauges w)\<rparr>)))"

section \<open>GET /metrics\<close>

definition samplers :: "'e services \<Rightarrow> settings \<Rightarrow> (('e world, unit) prog \<times> gauge list) list" where
  "samplers S s =
     [(sample_queues S s, [QUEUE_DEPTH, ROLLOUT_CANARY_WEIGHT]),
      (sample_sandboxes s, [SANDBOXES_ACTIVE, SANDBOX_OLDEST])]"

definition metrics :: "(gauge \<Rightarrow> gauge_values \<Rightarrow> gauge_values) \<Rightarrow> 'e services \<Rightarrow> settings \<Rightarrow> ('e world, gauge_values) prog" where
  "metrics clear S s =
     andthen
       (pfor (samplers S s) (\<lambda>(sampler, gs).
          try_catch sampler (\<lambda>_. Return ())
            (except_Exception (\<lambda>exc. does (\<lambda>w. w\<lparr>gauges := fold clear gs (gauges w)\<rparr>)))))
       (reads gauges)"

lemma same_db_gauges [guar_intros]:
  "guar same_db (set_gauge g l v)" "guar same_db (sample_depth S n d)"
  "guar same_db (does (\<lambda>w. w\<lparr>gauges := F w\<rparr>))"
  by (auto simp: set_gauge_def sample_depth_def same_db_def Let_def split: prod.split sum.split
      intro!: guar_does guar_atomically)

lemma same_db_samplers [guar_intros]:
  "guar same_db (sample_queues S s)" "guar same_db (sample_sandboxes s)"
  unfolding sample_queues_def sample_sandboxes_def
  by (intro guar_intros guar_statement; simp add: same_db_def)+

lemma same_db_metrics [guar_intros]: "guar same_db (metrics clear S s)"
  unfolding metrics_def samplers_def
  by (intro guar_intros frame.guar_reads) (auto intro: guar_intros)

lemmas db_metrics [guar_intros] = same_db_metrics [THEN guar_same_db]

section \<open>What a scrape shows\<close>

text \<open>
  The documented behaviour of \<open>clear\<close> on a gauge with labels: it removes every labelled value and
  leaves other gauges alone. On a gauge without labels nothing is required.
\<close>

definition has_labels :: "gauge \<Rightarrow> bool" where
  "has_labels g \<longleftrightarrow> g \<in> {QUEUE_DEPTH, SANDBOXES_ACTIVE, SANDBOX_OLDEST}"

definition clears_labels :: "(gauge \<Rightarrow> gauge_values \<Rightarrow> gauge_values) \<Rightarrow> bool" where
  "clears_labels clear \<longleftrightarrow>
     (\<forall>g gv. (has_labels g \<longrightarrow> clear g gv g = (\<lambda>_. None)) \<and> (\<forall>h. h \<noteq> g \<longrightarrow> clear g gv h = gv h))"

text \<open>The values of the life cycle gauges that a table and a time of day ask for.\<close>

definition in_status :: "status \<Rightarrow> sandbox list \<Rightarrow> sandbox list" where
  "in_status st rows = filter (\<lambda>r. status r = st) rows"

definition waiting_s :: "datetime \<Rightarrow> sandbox list \<Rightarrow> rat" where
  "waiting_s now rows = (if rows = [] then 0 else of_int (now - Min (set (map updated_at rows))) / 1000000)"

definition shows_table :: "sandbox list \<Rightarrow> datetime \<Rightarrow> gauge_values \<Rightarrow> bool" where
  "shows_table rows now gv \<longleftrightarrow>
     (\<forall>st \<in> ACTIVE_STATUSES.
        gv SANDBOXES_ACTIVE (status_value st) = Some (of_nat (length (in_status st rows))) \<and>
        gv SANDBOX_OLDEST (status_value st) = Some (waiting_s now (in_status st rows)))"

lemma put_gauge_apply [simp]:
  "put_gauge g l v gv h m = (if h = g \<and> m = l then Some v else gv h m)"
  by (simp add: put_gauge_def)

lemma group_of_active:
  assumes "st \<in> ACTIVE_STATUSES"
  shows "group_of rows st =
    (if in_status st rows = [] then None
     else Some (length (in_status st rows), Min (set (map updated_at (in_status st rows)))))"
proof -
  have "filter (\<lambda>r. status r = st \<and> status r \<in> ACTIVE_STATUSES) rows = in_status st rows"
    using assms unfolding in_status_def by (intro filter_cong) auto
  then have "group_of rows st = (case in_status st rows of [] \<Rightarrow> None
      | grp \<Rightarrow> Some (length grp, min_list (map updated_at grp)))"
    unfolding group_of_def by (simp only:)
  moreover have "min_list (map updated_at (r # rs)) = Min (set (map updated_at (r # rs)))" for r :: sandbox and rs
    by (intro min_list_Min) simp
  ultimately show ?thesis
    by (cases "in_status st rows") (simp_all only: list.case if_True if_False list.distinct simp_thms)
qed

lemma put_status_apply:
  assumes "st \<in> ACTIVE_STATUSES"
  shows "put_status now (group_of rows) st gv =
    put_gauge SANDBOX_OLDEST (status_value st) (waiting_s now (in_status st rows))
      (put_gauge SANDBOXES_ACTIVE (status_value st) (of_nat (length (in_status st rows))) gv)"
proof (cases "in_status st rows = []")
  case True
  then show ?thesis
    unfolding put_status_def group_of_active [OF assms] waiting_s_def by simp
next
  case False
  then show ?thesis
    unfolding put_status_def group_of_active [OF assms] waiting_s_def Let_def if_not_P [OF False]
    by (simp only: option.case prod.case if_False)
qed

lemma put_statuses_apply:
  assumes "set sts \<subseteq> ACTIVE_STATUSES" "st \<in> set sts \<or>
      gv SANDBOXES_ACTIVE (status_value st) = Some (of_nat (length (in_status st rows))) \<and>
      gv SANDBOX_OLDEST (status_value st) = Some (waiting_s now (in_status st rows))"
  shows "fold (put_status now (group_of rows)) sts gv SANDBOXES_ACTIVE (status_value st) =
      Some (of_nat (length (in_status st rows)))"
    "fold (put_status now (group_of rows)) sts gv SANDBOX_OLDEST (status_value st) =
      Some (waiting_s now (in_status st rows))"
  using assms
proof (induction sts arbitrary: gv)
  case (Cons st' sts)
  {
    case 1
    then show ?case by (simp add: put_status_apply) (intro Cons.IH; auto)
  next
    case 2
    then show ?case by (simp add: put_status_apply) (intro Cons.IH; auto)
  }
qed simp_all

lemma put_statuses_other:
  "g \<noteq> SANDBOXES_ACTIVE \<Longrightarrow> g \<noteq> SANDBOX_OLDEST \<Longrightarrow> fold (put_status now found) sts gv g = gv g"
proof (induction sts arbitrary: gv)
  case (Cons st sts)
  then have "put_status now found st gv g = gv g"
    by (simp add: put_status_def put_gauge_def Let_def split: prod.split)
  with Cons show ?case by simp
qed simp

lemma shows_table_sampled:
  "shows_table rows now (fold (put_status now (group_of rows)) active_list gv)"
  unfolding shows_table_def
  using put_statuses_apply [of active_list _ gv rows now] by (simp add: set_active_list)

section \<open>A scrape in any environment\<close>

text \<open>Others may do anything between two steps of a scrape but write the table or the gauges.\<close>

definition scrape_rely :: "'e world \<Rightarrow> 'e world \<Rightarrow> bool" where
  "scrape_rely w v \<longleftrightarrow> sandboxes v = sandboxes w \<and> gauges v = gauges w"

text \<open>What \<open>zcount\<close> answers satisfies \<open>V\<close>; a gauge that shows depths shows such answers.\<close>

definition depth_shown :: "(string \<Rightarrow> int \<Rightarrow> bool) \<Rightarrow> deployment \<Rightarrow> gauge_values \<Rightarrow> bool" where
  "depth_shown V d gv \<longleftrightarrow> (\<exists>n. V (QUEUES d) n \<and> gv QUEUE_DEPTH (deployment_value d) = Some (of_int n))"

definition counts_satisfy :: "'e services \<Rightarrow> (string \<Rightarrow> int \<Rightarrow> bool) \<Rightarrow> bool" where
  "counts_satisfy S V \<longleftrightarrow> (\<forall>q t x n. fst (zcount S q t x) = Inr n \<longrightarrow> V q n)"

definition table_is :: "sandbox list \<Rightarrow> 'e world \<Rightarrow> bool" where
  "table_is T w \<longleftrightarrow> sandboxes w = T"

lemma table_is_steps:
  "scrape_rely u v \<Longrightarrow> table_is T u \<Longrightarrow> table_is T v" "same_db u v \<Longrightarrow> table_is T u \<Longrightarrow> table_is T v"
  by (simp_all add: table_is_def scrape_rely_def same_db_def)

lemma ensures_asyncio_timeout_scrape:
  assumes "guar same_db p" "table_is T w" "ensures scrape_rely p Q w"
    and "\<And>v. table_is T v \<Longrightarrow> Q (Inl (Err TimeoutError [])) v"
  shows "ensures scrape_rely (asyncio_timeout t p) Q w"
  unfolding asyncio_timeout_def
  by (rule ensures_with_deadline [where P = "table_is T" and G = same_db])
     (use assms in \<open>auto simp: scrape_rely_def table_is_def same_db_def\<close>)

lemma ensures_sample_depth:
  assumes "counts_satisfy S V" "table_is T w"
    and "\<And>v. table_is T v \<Longrightarrow> depth_shown V d (gauges v) \<Longrightarrow>
      (\<forall>d'. depth_shown V d' (gauges w) \<longrightarrow> depth_shown V d' (gauges v)) \<Longrightarrow> Q (Inr ()) v"
    and "\<And>e v. table_is T v \<Longrightarrow> Q (Inl e) v"
  shows "ensures scrape_rely (sample_depth S n d) Q w"
  unfolding sample_depth_def ensures_atomically
proof (intro allI impI)
  fix v assume v: "scrape_rely w v"
  obtain r x where z: "zcount S (QUEUES d) n (ext v) = (r, x)" by fastforce
  have T: "table_is T v" using table_is_steps(1) [OF v assms(2)] .
  show "Q (fst (let (r, x) = zcount S (QUEUES d) n (ext v) in
       case r of Inl e \<Rightarrow> (Inl e, v\<lparr>ext := x\<rparr>)
       | Inr n \<Rightarrow> (Inr (), v\<lparr>ext := x, gauges := put_gauge QUEUE_DEPTH (deployment_value d) (of_int n) (gauges v)\<rparr>)))
    (snd (let (r, x) = zcount S (QUEUES d) n (ext v) in
       case r of Inl e \<Rightarrow> (Inl e, v\<lparr>ext := x\<rparr>)
       | Inr n \<Rightarrow> (Inr (), v\<lparr>ext := x, gauges := put_gauge QUEUE_DEPTH (deployment_value d) (of_int n) (gauges v)\<rparr>)))"
  proof (cases r)
    case (Inl e)
    have "Q (Inl e) (v\<lparr>ext := x\<rparr>)" using T by (intro assms(4)) (simp add: table_is_def)
    then show ?thesis by (simp add: z Inl)
  next
    case (Inr m)
    have V: "V (QUEUES d) m" using assms(1) z Inr unfolding counts_satisfy_def by (metis fst_conv)
    let ?v = "v\<lparr>ext := x, gauges := put_gauge QUEUE_DEPTH (deployment_value d) (of_int m) (gauges v)\<rparr>"
    have g: "gauges v = gauges w" using v by (simp add: scrape_rely_def)
    have "Q (Inr ()) ?v"
    proof (intro assms(3) allI impI)
      show "table_is T ?v" using T by (simp add: table_is_def)
      show "depth_shown V d (gauges ?v)" using V by (auto simp: depth_shown_def)
      fix d' assume "depth_shown V d' (gauges w)"
      then show "depth_shown V d' (gauges ?v)"
        using V g by (cases d; cases d') (auto simp: depth_shown_def)
    qed
    then show ?thesis by (simp add: z Inr)
  qed
qed

interpretation scrape: guarantee scrape_rely
  by unfold_locales (auto simp: scrape_rely_def)

lemma guar_scrape_get_weight: "guar scrape_rely (get_weight t)"
  unfolding get_weight_def asyncio_timeout_def redis_get_def
  by (intro guar_intros scrape.guar_with_deadline guar_statement; simp add: scrape_rely_def)

text \<open>A program that leaves table and gauges alone, in an environment that does so too.\<close>

lemma ensures_scrape_frame:
  assumes "guar scrape_rely p" "\<And>r v. sandboxes v = sandboxes w \<Longrightarrow> gauges v = gauges w \<Longrightarrow> Q r v"
  shows "ensures scrape_rely p Q w"
  by (rule ensures_frame [where P = "\<lambda>v. sandboxes v = sandboxes w \<and> gauges v = gauges w" and G = scrape_rely])
     (use assms in \<open>auto simp: scrape_rely_def\<close>)

lemma ensures_sample_queues:
  assumes "counts_satisfy S V" "table_is T w"
    and "\<And>v. table_is T v \<Longrightarrow> depth_shown V STABLE (gauges v) \<Longrightarrow> depth_shown V CANARY (gauges v) \<Longrightarrow> Q (Inr ()) v"
    and "\<And>e v. table_is T v \<Longrightarrow> Q (Inl e) v"
  shows "ensures scrape_rely (sample_queues S s) Q w"
proof -
  let ?D = "\<lambda>v. depth_shown V STABLE (gauges v) \<and> depth_shown V CANARY (gauges v)"
  let ?P = "\<lambda>r v. table_is T v \<and> (case r of Inl e \<Rightarrow> True | Inr (_ :: int) \<Rightarrow> ?D v)"
  have weight: "ensures scrape_rely (get_weight t) ?P v" if "table_is T v" "?D v" for t and v :: "'a world"
    by (rule ensures_scrape_frame [OF guar_scrape_get_weight])
       (use that in \<open>auto simp: table_is_def split: sum.split\<close>)
  have body: "ensures scrape_rely (andthen (pfor [STABLE, CANARY] (sample_depth S n)) (get_weight t)) ?P v"
    if "table_is T v" for n t and v :: "'a world"
    unfolding pfor.simps ensures_andthen
    by (rule ensures_sample_depth [OF assms(1) that]; simp; rule ensures_sample_depth [OF assms(1)])
       (auto intro: weight simp: ensures_andthen)
  have set: "ensures scrape_rely (set_gauge ROLLOUT_CANARY_WEIGHT [] x) Q v" if "table_is T v" "?D v" for x v
    unfolding set_gauge_def ensures_does
    using that by (auto intro!: assms(3) simp: table_is_def scrape_rely_def depth_shown_def)
  have block: "ensures scrape_rely (asyncio_timeout u (andthen (pfor [STABLE, CANARY] (sample_depth S n)) (get_weight t))) ?P v"
    if "table_is T v" for n t u and v :: "'a world"
    by (rule ensures_asyncio_timeout_scrape [OF _ that body [OF that]])
       (intro guar_intros | simp)+
  show ?thesis
    unfolding sample_queues_def ensures_pbind ensures_get_now Let_def sum.case
  proof (intro allI impI)
    fix v assume "scrape_rely w v"
    then have "table_is T v" using assms(2) by (rule table_is_steps)
    then show "ensures scrape_rely
        (asyncio_timeout (redis_timeout_s s) (andthen (pfor [STABLE, CANARY] (sample_depth S (clock v div 1000)))
          (get_weight (redis_timeout_s s))))
        (\<lambda>r v. case r of Inl e \<Rightarrow> Q (Inl e) v
           | Inr weight \<Rightarrow> ensures scrape_rely (set_gauge ROLLOUT_CANARY_WEIGHT [] (rat_of_int weight)) Q v) v"
      by (rule ensures_mono [OF block]) (auto intro: set assms(4) split: sum.split)
  qed
qed

lemma ensures_set_gauge:
  "ensures R (set_gauge g l x) Q w =
     (\<forall>v. R w v \<longrightarrow> Q (Inr ()) (v\<lparr>gauges := put_gauge g l x (gauges v)\<rparr>))"
  by (simp add: set_gauge_def ensures_does)

lemma ensures_sample_sandboxes:
  assumes "table_is T w"
    and "\<And>v now. table_is T v \<Longrightarrow> gauges v QUEUE_DEPTH = gauges w QUEUE_DEPTH \<Longrightarrow>
      shows_table T now (gauges v) \<Longrightarrow> Q (Inr ()) v"
    and "\<And>e v. table_is T v \<Longrightarrow> gauges v QUEUE_DEPTH = gauges w QUEUE_DEPTH \<Longrightarrow> Q (Inl e) v"
  shows "ensures scrape_rely (sample_sandboxes s) Q w"
proof -
  let ?q = "gauges w QUEUE_DEPTH"
  let ?P = "\<lambda>r v. table_is T v \<and> gauges v QUEUE_DEPTH = ?q \<and> (case r of Inl e \<Rightarrow> True | Inr f \<Rightarrow> f = group_of T)"
  let ?stmt = "statement (\<lambda>w. (Inr (group_of (sandboxes w)), w)) :: ('a world, status \<Rightarrow> (nat \<times> datetime) option) prog"
  have guar: "guar scrape_rely ?stmt"
    by (intro guar_statement) (simp_all add: scrape_rely_def)
  have stmt: "ensures scrape_rely ?stmt ?P v" if "table_is T v" "gauges v QUEUE_DEPTH = ?q" for v
    unfolding ensures_statement
    using that by (auto simp: Let_def scrape_rely_def table_is_def split: fault.split)
  have block: "ensures scrape_rely (asyncio_timeout u ?stmt) ?P v"
    if "table_is T v" "gauges v QUEUE_DEPTH = ?q" for u v
    unfolding asyncio_timeout_def
    by (rule ensures_with_deadline [where P = "\<lambda>v. table_is T v \<and> gauges v QUEUE_DEPTH = ?q" and G = scrape_rely])
       (use guar stmt that in \<open>auto simp: scrape_rely_def table_is_def\<close>)
  have last: "ensures scrape_rely (does (\<lambda>w. w\<lparr>gauges := fold (put_status (clock w) (group_of T)) active_list (gauges w)\<rparr>)) Q v"
    if "table_is T v" "gauges v QUEUE_DEPTH = ?q" for v
    unfolding ensures_does
    using that by (auto intro!: assms(2) shows_table_sampled simp: table_is_def scrape_rely_def put_statuses_other)
  show ?thesis
    unfolding sample_sandboxes_def ensures_andthen ensures_pbind ensures_set_gauge sum.case
  proof (intro allI impI)
    fix v assume "scrape_rely w v"
    then have v: "table_is T (v\<lparr>gauges := put_gauge SANDBOX_CAPACITY [] c (gauges v)\<rparr>)"
      "gauges (v\<lparr>gauges := put_gauge SANDBOX_CAPACITY [] c (gauges v)\<rparr>) QUEUE_DEPTH = ?q" for c
      using assms(1) by (auto simp: table_is_def scrape_rely_def put_gauge_def)
    show "ensures scrape_rely (asyncio_timeout (db_timeout_s s) ?stmt)
        (\<lambda>r v. case r of Inl e \<Rightarrow> Q (Inl e) v
           | Inr found \<Rightarrow> ensures scrape_rely
               (does (\<lambda>w. w\<lparr>gauges := fold (put_status (clock w) found) active_list (gauges w)\<rparr>)) Q v)
        (v\<lparr>gauges := put_gauge SANDBOX_CAPACITY [] (rat_of_int (sandbox_max_active s)) (gauges v)\<rparr>)"
      by (rule ensures_mono [OF block [OF v]]) (auto intro: last assms(3) split: sum.split)
  qed
qed

lemma ensures_clearing:
  assumes "\<And>v. table_is T v \<Longrightarrow> gauges v = fold clear gs (gauges u) \<Longrightarrow> Q (Inr ()) v"
    and "\<And>e. \<not> is_Exception e \<Longrightarrow> Q (Inl e) u" and "table_is T u"
  shows "ensures scrape_rely (except_Exception (\<lambda>exc. does (\<lambda>w. w\<lparr>gauges := fold clear gs (gauges w)\<rparr>)) e) Q u"
  using assms by (auto simp: ensures_except_Exception ensures_does scrape_rely_def table_is_def)

text \<open>C22. A scrape shows the present or nothing: in any environment that leaves table and gauges alone,
  whichever statements, calls and deadlines fail and whatever the gauges held before, the scrape
  answers (only a cancellation leaves it), the queue depths it shows are answers of this scrape, or
  none is shown, and the life cycle gauges count every active status of the table as it is, zeros
  included, with the age of its oldest row, or none is shown.\<close>

theorem scrape_is_fresh_or_silent:
  assumes "clears_labels clear" "counts_satisfy S V" "\<And>i v. scrape_rely v (I i v)"
  shows "case fst (run_with (metrics clear S s) I k w) of
      Inl e \<Rightarrow> \<not> is_Exception e
    | Inr gv \<Rightarrow>
        (gv QUEUE_DEPTH = (\<lambda>_. None) \<or> (\<forall>d. depth_shown V d gv)) \<and>
        ((\<exists>now. shows_table (sandboxes w) now gv) \<or>
         gv SANDBOXES_ACTIVE = (\<lambda>_. None) \<and> gv SANDBOX_OLDEST = (\<lambda>_. None))"
proof -
  let ?T = "sandboxes w"
  define depths where "depths gv \<longleftrightarrow> gv QUEUE_DEPTH = (\<lambda>_. None) \<or> (\<forall>d. depth_shown V d gv)" for gv :: gauge_values
  define cycle where "cycle gv \<longleftrightarrow> (\<exists>now. shows_table ?T now gv) \<or>
      gv SANDBOXES_ACTIVE = (\<lambda>_. None) \<and> gv SANDBOX_OLDEST = (\<lambda>_. None)" for gv :: gauge_values
  let ?Q = "\<lambda>r (_ :: 'a world). case r of Inl e \<Rightarrow> \<not> is_Exception e | Inr gv \<Rightarrow> depths gv \<and> cycle gv"
  have depths_cong: "depths gv = depths gv'" if "gv QUEUE_DEPTH = gv' QUEUE_DEPTH" for gv gv'
    using that by (simp add: depths_def depth_shown_def)
  have all: "depth_shown V STABLE gv \<Longrightarrow> depth_shown V CANARY gv \<Longrightarrow> depths gv" for gv
    unfolding depths_def by (metis deployment.exhaust)
  have last: "ensures scrape_rely (reads gauges) ?Q v" if "depths (gauges v)" "cycle (gauges v)" for v
    using that by (simp add: ensures_reads scrape_rely_def)
  have clear1: "fold clear [QUEUE_DEPTH, ROLLOUT_CANARY_WEIGHT] gv QUEUE_DEPTH = (\<lambda>_. None)" for gv
    using assms(1) by (simp add: clears_labels_def has_labels_def)
  have clear2: "fold clear [SANDBOXES_ACTIVE, SANDBOX_OLDEST] gv QUEUE_DEPTH = gv QUEUE_DEPTH"
    "fold clear [SANDBOXES_ACTIVE, SANDBOX_OLDEST] gv SANDBOXES_ACTIVE = (\<lambda>_. None)"
    "fold clear [SANDBOXES_ACTIVE, SANDBOX_OLDEST] gv SANDBOX_OLDEST = (\<lambda>_. None)" for gv
    using assms(1) by (simp_all add: clears_labels_def has_labels_def)
  let ?h = "\<lambda>gs. except_Exception (\<lambda>exc. does (\<lambda>w. w\<lparr>gauges := fold clear gs (gauges w)\<rparr>))"
  have second: "ensures scrape_rely
      (andthen (try_catch (sample_sandboxes s) (\<lambda>_. Return ()) (?h [SANDBOXES_ACTIVE, SANDBOX_OLDEST]))
        (reads gauges)) ?Q v"
    if "table_is ?T v" "depths (gauges v)" for v
    unfolding ensures_andthen ensures_try_catch
  proof (rule ensures_sample_sandboxes [OF that(1)], goal_cases)
    case (1 u now)
    with that(2) depths_cong [of "gauges u" "gauges v"] show ?case by (auto intro!: last simp: cycle_def)
  next
    case (2 e u)
    let ?gv = "fold clear [SANDBOXES_ACTIVE, SANDBOX_OLDEST] (gauges u)"
    have "depths ?gv"
      using depths_cong [of ?gv "gauges v"] clear2(1) [of "gauges u"] 2(2) that(2) by simp
    moreover have "cycle ?gv" by (simp only: cycle_def clear2 simp_thms)
    ultimately show ?case unfolding sum.case
      by (intro ensures_clearing [OF _ _ 2(1)]) (simp_all only: sum.case last not_False_eq_True)
  qed
  have T: "table_is ?T w" by (simp add: table_is_def)
  have "ensures scrape_rely (metrics clear S s) ?Q w"
    unfolding metrics_def samplers_def pfor.simps prod.case andthen_assoc andthen_Return
  proof (subst ensures_andthen, subst ensures_try_catch, rule ensures_sample_queues [OF assms(2) T], goal_cases)
    case (1 u)
    from second [OF 1(1) all [OF 1(2,3)]] show ?case by (simp only: sum.case ensures.simps)
  next
    case (2 e u)
    have cleared: "depths (fold clear [QUEUE_DEPTH, ROLLOUT_CANARY_WEIGHT] (gauges u))"
      by (simp only: depths_def clear1 simp_thms)
    show ?case unfolding sum.case
    proof (rule ensures_clearing [OF _ _ 2], goal_cases)
      case (1 v)
      with cleared have "depths (gauges v)" by (simp only:)
      from second [OF 1(1) this] show ?case by (simp only: sum.case)
    next
      case (2 e)
      then show ?case by simp
    qed
  qed
  from run_with_ensures [where I = I and i = k, OF assms(3) this] show ?thesis
    unfolding depths_def cycle_def .
qed

text \<open>\<open>Gauge.clear\<close> as documented: it removes the labelled values; a gauge without labels keeps its value.\<close>

definition clear_labelsets :: "gauge \<Rightarrow> gauge_values \<Rightarrow> gauge_values" where
  "clear_labelsets g gv = (if has_labels g then gv(g := (\<lambda>_. None)) else gv)"

lemma clears_labels_labelsets: "clears_labels clear_labelsets"
  by (simp add: clears_labels_def clear_labelsets_def)

lemma stub_counts: "counts_satisfy stub_services (\<lambda>_ n. 0 \<le> n)"
  by (simp add: counts_satisfy_def stub_services_def)

text \<open>The database is down during a scrape of a stale process.\<close>

theorem scrape_is_fresh_or_silent_witness:
  "case fst (run_with (metrics clear_labelsets stub_services default_settings) (\<lambda>i w. w) 0
       ((stub_world [] 0)\<lparr>faults := [Fine, Before (Err OSError [])], gauges := (\<lambda>_ _. Some 7)\<rparr>)) of
      Inl e \<Rightarrow> \<not> is_Exception e
    | Inr gv \<Rightarrow>
        (gv QUEUE_DEPTH = (\<lambda>_. None) \<or> (\<forall>d. depth_shown (\<lambda>_ n. 0 \<le> n) d gv)) \<and>
        ((\<exists>now. shows_table [] now gv) \<or>
         gv SANDBOXES_ACTIVE = (\<lambda>_. None) \<and> gv SANDBOX_OLDEST = (\<lambda>_. None))"
proof -
  let ?w = "(stub_world [] 0)\<lparr>faults := [Fine, Before (Err OSError [])], gauges := (\<lambda>_ _. Some 7)\<rparr>"
  have "sandboxes ?w = []" by simp
  from scrape_is_fresh_or_silent [OF clears_labels_labelsets stub_counts, where I = "\<lambda>i w. w" and w = ?w, unfolded this]
  show ?thesis by (simp only: scrape_rely_def simp_thms)
qed

section \<open>A scrape that nothing disturbs\<close>

text \<open>The documented meaning of \<open>zcount\<close> on an unchanging queue: \<open>N\<close> due jobs per queue.\<close>

definition counting :: "'e services \<Rightarrow> (string \<Rightarrow> int) \<Rightarrow> bool" where
  "counting S N \<longleftrightarrow> (\<forall>q t x. zcount S q t x = (Inr (N q), x))"

lemma keeps_quiet_samplers [guar_intros]:
  "guar keeps_quiet (sample_depth S n d)" "guar keeps_quiet (set_gauge g l v)"
  by (auto simp: set_gauge_def sample_depth_def keeps_quiet_def Let_def split: prod.split sum.split
      intro!: guar_does guar_atomically)

lemma run_sample_depth:
  "counting S N \<Longrightarrow> run (sample_depth S n d) w =
     (Inr (), w\<lparr>gauges := put_gauge QUEUE_DEPTH (deployment_value d) (of_int (N (QUEUES d))) (gauges w)\<rparr>)"
  by (simp add: sample_depth_def run_atomically counting_def)

lemma run_sample_queues:
  assumes "quiet w" "counting S N" "fst (run (get_weight (redis_timeout_s s)) w) = Inr n"
  shows "run (sample_queues S s) w =
    (Inr (), w\<lparr>gauges := put_gauge ROLLOUT_CANARY_WEIGHT [] (of_int n)
       (put_gauge QUEUE_DEPTH ''canary'' (of_int (N (QUEUES CANARY)))
         (put_gauge QUEUE_DEPTH ''stable'' (of_int (N (QUEUES STABLE))) (gauges w)))\<rparr>)"
proof -
  have weight: "run (get_weight (redis_timeout_s s)) (w\<lparr>gauges := gv\<rparr>) = (Inr n, w\<lparr>gauges := gv\<rparr>)" for gv
    using assms(1,3) by (simp add: run_get_weight)
  have "guar keeps_quiet (andthen (pfor [STABLE, CANARY] (sample_depth S k)) (get_weight t))" for k t
    by (intro guar_intros)
  with assms(1) weight show ?thesis
    unfolding sample_queues_def Let_def
    by (simp add: run_pbind run_get_now run_asyncio_timeout run_andthen run_sample_depth [OF assms(2)]
        set_gauge_def run_does)
qed

lemma keeps_quiet_query: "guar keeps_quiet (statement (\<lambda>w. (Inr (f w), w)))"
  by (intro guar_statement) (simp_all add: keeps_quiet_def quiet_def)

lemma run_sample_sandboxes:
  assumes "quiet w"
  shows "run (sample_sandboxes s) w =
    (Inr (), w\<lparr>gauges := fold (put_status (clock w) (group_of (sandboxes w))) active_list
       (put_gauge SANDBOX_CAPACITY [] (of_int (sandbox_max_active s)) (gauges w))\<rparr>)"
  unfolding sample_sandboxes_def
  using assms
  by (simp add: run_andthen run_pbind set_gauge_def run_does run_statement_quiet
      run_asyncio_timeout [OF keeps_quiet_query])

lemma count_by_status:
  "(\<Sum>st \<in> ACTIVE_STATUSES. length (in_status st rows)) = length (filter (\<lambda>r. status r \<in> ACTIVE_STATUSES) rows)"
proof (induction rows)
  case (Cons r rows)
  have "(\<Sum>st \<in> ACTIVE_STATUSES. length (in_status st (r # rows))) =
      (\<Sum>st \<in> ACTIVE_STATUSES. (if status r = st then 1 else 0) + length (in_status st rows))"
    by (intro sum.cong) (simp_all add: in_status_def)
  also have "\<dots> = (if status r \<in> ACTIVE_STATUSES then 1 else 0) + (\<Sum>st \<in> ACTIVE_STATUSES. length (in_status st rows))"
    by (simp add: sum.distrib ACTIVE_STATUSES_def)
  finally show ?case using Cons by simp
qed (simp add: in_status_def)

text \<open>C31. When nothing fails the scrape shows everything: the due jobs of both pools, the weight in
  force, the capacity, and for each active status the number of its rows and the time the longest
  waiting one has spent in it, explicit zeros included; the counts add up to exactly what the
  admission check of POST /sandboxes compares with the capacity.\<close>

theorem quiet_scrape_shows_everything:
  assumes "quiet w" "counting S N" "fst (run (get_weight (redis_timeout_s s)) w) = Inr n"
  shows "\<exists>gv. fst (run (metrics clear S s) w) = Inr gv \<and>
    gv QUEUE_DEPTH ''stable'' = Some (of_int (N (QUEUES STABLE))) \<and>
    gv QUEUE_DEPTH ''canary'' = Some (of_int (N (QUEUES CANARY))) \<and>
    gv ROLLOUT_CANARY_WEIGHT [] = Some (of_int n) \<and>
    gv SANDBOX_CAPACITY [] = Some (of_int (sandbox_max_active s)) \<and>
    shows_table (sandboxes w) (clock w) gv \<and>
    (\<Sum>st \<in> ACTIVE_STATUSES. the (gv SANDBOXES_ACTIVE (status_value st))) =
      of_nat (length (filter (\<lambda>r. status r \<in> ACTIVE_STATUSES) (sandboxes w)))"
proof -
  let ?q = "put_gauge ROLLOUT_CANARY_WEIGHT [] (of_int n)
       (put_gauge QUEUE_DEPTH ''canary'' (of_int (N (QUEUES CANARY)))
         (put_gauge QUEUE_DEPTH ''stable'' (of_int (N (QUEUES STABLE))) (gauges w)))"
  let ?gv = "fold (put_status (clock w) (group_of (sandboxes w))) active_list
       (put_gauge SANDBOX_CAPACITY [] (of_int (sandbox_max_active s)) ?q)"
  have "fst (run (metrics clear S s) w) = Inr ?gv"
    unfolding metrics_def samplers_def
    by (simp add: run_andthen run_try_catch run_sample_queues [OF assms] run_sample_sandboxes assms(1) run_reads)
  moreover have "(\<Sum>st \<in> ACTIVE_STATUSES. the (?gv SANDBOXES_ACTIVE (status_value st))) =
      of_nat (\<Sum>st \<in> ACTIVE_STATUSES. length (in_status st (sandboxes w)))"
    using shows_table_sampled [of "sandboxes w" "clock w"] by (simp add: shows_table_def)
  ultimately show ?thesis
    by (intro exI [of _ ?gv] conjI) (simp_all add: put_statuses_other shows_table_sampled count_by_status)
qed

theorem quiet_scrape_shows_everything_witness:
  "\<exists>gv. fst (run (metrics clear_labelsets (stub_services\<lparr>zcount := (\<lambda>q t x. (Inr 3, x))\<rparr>) default_settings)
       (stub_world [new_sandbox 7 HTTP QUEUED STABLE (seconds 600) None 0] 0)) = Inr gv \<and>
     gv QUEUE_DEPTH ''canary'' = Some 3 \<and>
     gv SANDBOXES_ACTIVE ''queued'' = Some 1 \<and> gv SANDBOXES_ACTIVE ''running'' = Some 0"
proof -
  let ?w = "stub_world [new_sandbox 7 HTTP QUEUED STABLE (seconds 600) None 0] 0"
  have "fst (run (get_weight (redis_timeout_s default_settings)) ?w) = Inr 0"
    by (simp add: run_get_weight)
  moreover have "counting (stub_services\<lparr>zcount := (\<lambda>q t x. (Inr 3, x))\<rparr>) (\<lambda>_. 3)"
    by (simp add: counting_def)
  moreover have "in_status QUEUED (sandboxes ?w) = sandboxes ?w" "in_status RUNNING (sandboxes ?w) = []"
    by (simp_all add: in_status_def new_sandbox_def)
  moreover have "QUEUED \<in> ACTIVE_STATUSES" "RUNNING \<in> ACTIVE_STATUSES" by simp_all
  ultimately show ?thesis
    using quiet_scrape_shows_everything [of ?w "stub_services\<lparr>zcount := (\<lambda>q t x. (Inr 3, x))\<rparr>" "\<lambda>_. 3" default_settings 0 clear_labelsets]
    unfolding shows_table_def by fastforce
qed

section \<open>What a failed sampler leaves behind\<close>

text \<open>A failed queue sampler does not clear the rollout weight: \<open>clear\<close> removes labelled values, and
  this gauge has no labels, so while Redis is down the scrape shows no queue depth but still the
  weight of an earlier scrape.\<close>

theorem failed_scrape_keeps_the_old_weight:
  assumes "quiet w" "\<And>q t x. zcount S q t x = (Inl e, x)" "is_Exception e"
    and "clears_labels clear" "\<And>gv. clear ROLLOUT_CANARY_WEIGHT gv = gv"
  shows "\<exists>gv. fst (run (metrics clear S s) w) = Inr gv \<and>
    gv QUEUE_DEPTH = (\<lambda>_. None) \<and> gv ROLLOUT_CANARY_WEIGHT = gauges w ROLLOUT_CANARY_WEIGHT"
proof -
  have guar: "guar keeps_quiet (andthen (pfor [STABLE, CANARY] (sample_depth S k)) (get_weight t))" for k t
    by (intro guar_intros)
  have "run (sample_depth S k d) w = (Inl e, w)" for k d
    by (simp add: sample_depth_def run_atomically assms(2))
  then have queues: "run (sample_queues S s) w = (Inl e, w)"
    unfolding sample_queues_def Let_def
    using assms(1) guar by (simp add: run_pbind run_get_now run_asyncio_timeout run_andthen)
  let ?q = "fold clear [QUEUE_DEPTH, ROLLOUT_CANARY_WEIGHT] (gauges w)"
  let ?gv = "fold (put_status (clock w) (group_of (sandboxes w))) active_list
       (put_gauge SANDBOX_CAPACITY [] (of_int (sandbox_max_active s)) ?q)"
  have "fst (run (metrics clear S s) w) = Inr ?gv"
    unfolding metrics_def samplers_def
    using assms(1,3,5)
    by (simp add: run_andthen run_try_catch queues run_does run_sample_sandboxes run_reads)
  moreover have "clear QUEUE_DEPTH (gauges w) QUEUE_DEPTH = (\<lambda>_. None)"
    "clear QUEUE_DEPTH (gauges w) ROLLOUT_CANARY_WEIGHT = gauges w ROLLOUT_CANARY_WEIGHT"
    using assms(4) by (simp_all add: clears_labels_def has_labels_def)
  ultimately show ?thesis
    by (intro exI [of _ ?gv] conjI) (simp_all add: put_statuses_other assms(5) put_gauge_def)
qed

theorem failed_scrape_keeps_the_old_weight_witness:
  "\<exists>gv. fst (run (metrics clear_labelsets (stub_services\<lparr>zcount := (\<lambda>q t x. (Inl (Err OSError []), x))\<rparr>) default_settings)
       ((stub_world [] 0)\<lparr>gauges := (\<lambda>_ _. Some 50)\<rparr>)) = Inr gv \<and>
     gv QUEUE_DEPTH = (\<lambda>_. None) \<and> gv ROLLOUT_CANARY_WEIGHT [] = Some 50"
  using failed_scrape_keeps_the_old_weight [of "(stub_world [] 0)\<lparr>gauges := (\<lambda>_ _. Some 50)\<rparr>"
      "stub_services\<lparr>zcount := (\<lambda>q t x. (Inl (Err OSError []), x))\<rparr>" "Err OSError []" clear_labelsets default_settings]
  by (auto simp: clears_labels_labelsets) (auto simp: clear_labelsets_def has_labels_def)

end
