(* ===== verification/App.thy ===== *)
theory App
  imports Observability Health Scrape
begin

text \<open>
  The application (\<open>src/app/main.py\<close>): how it is built, what happens before the first request and after
  the last one, and the state its dependencies read (\<open>src/app/deps.py\<close>). The connection pool of arq
  and the connections of SQLAlchemy are services: \<open>create_pool\<close> and \<open>dispose\<close> get the parameters the
  code passes them. \<open>serve\<close> is everything that runs while the application is up, with its state.
\<close>

section \<open>The state of the application\<close>

text \<open>\<open>app.state\<close>; the pool is known by what it was opened with.\<close>

record app_state =
  state_settings :: settings
  state_engine :: engine
  state_sessionmaker :: sessionmaker
  state_queue :: redis_params

text \<open>
  The dependencies of a handler. A session lives as long as the handler: \<open>handler\<close> gets the session maker
  that made it, and \<open>close\<close> is what \<open>AsyncSession.close\<close> does when the \<open>async with\<close> is left, with or
  without an exception.
\<close>

definition get_session :: "('w, unit) prog \<Rightarrow> app_state \<Rightarrow> (sessionmaker \<Rightarrow> ('w, 'a) prog) \<Rightarrow> ('w, 'a) prog" where
  "get_session close st handler = try_finally (handler (state_sessionmaker st)) close"

definition get_queue :: "app_state \<Rightarrow> redis_params" where
  "get_queue st = state_queue st"

definition get_app_settings :: "app_state \<Rightarrow> settings" where
  "get_app_settings st = state_settings st"

text \<open>The start of \<open>create_app\<close>: the settings, given or read, and the logger. The rest wires the life span
  (below) and the routers and handlers (theory Server).\<close>

record application =
  app_settings :: settings
  app_logger :: logger

definition create_app :: "(rat \<Rightarrow> string) \<Rightarrow> settings \<Rightarrow> settings option \<Rightarrow> logger \<Rightarrow> exn + application" where
  "create_app format_g environ given lg =
     (case (case given of Some s \<Rightarrow> Inr s | None \<Rightarrow> get_settings format_g environ) of
        Inl e \<Rightarrow> Inl e
      | Inr s \<Rightarrow> Inr \<lparr>app_settings = s, app_logger = setup_logging (log_level s) [] lg\<rparr>)"

text \<open>The session is closed exactly once, after the handler, whose result or exception goes on.\<close>

lemma run_get_session:
  assumes "run close v = (Inr (), u)" "run (handler (state_sessionmaker st)) w = (r, v)"
  shows "run (get_session close st handler) w = (r, u)"
  using assms by (simp add: get_session_def run_try_finally)

section \<open>Start-up and shut-down\<close>

text \<open>The transaction of \<open>create_schema\<close> (\<open>src/app/db.py\<close>): all of its statements take effect or none.\<close>

definition create_schema :: "('e world, unit) prog" where
  "create_schema =
     statement (\<lambda>w. case schema_ddl (tables w) of Inl e \<Rightarrow> (Inl e, w) | Inr sch \<Rightarrow> (Inr (), w\<lparr>tables := sch\<rparr>))"

text \<open>Nothing protects the \<open>yield\<close>: an exception thrown into it skips the clean-up.\<close>

record 'e resources =
  from_dsn :: "string \<Rightarrow> exn + redis_params"
  create_pool :: "redis_params \<Rightarrow> 'e \<Rightarrow> (exn + unit) \<times> 'e"
  aclose :: "redis_params \<Rightarrow> 'e \<Rightarrow> (exn + unit) \<times> 'e"
  dispose :: "engine \<Rightarrow> 'e \<Rightarrow> (exn + unit) \<times> 'e"

definition open_app :: "'e resources \<Rightarrow> settings \<Rightarrow> ('e world, app_state) prog" where
  "open_app X s =
     (let e = make_engine s in
      pbind (of_sum (redis_settings (from_dsn X) s)) (\<lambda>q.
      andthen (call (create_pool X q))
       (andthen create_schema
         (Return \<lparr>state_settings = s, state_engine = e, state_sessionmaker = make_sessionmaker e,
            state_queue = q\<rparr>))))"

definition close_app :: "'e resources \<Rightarrow> app_state \<Rightarrow> ('e world, unit) prog" where
  "close_app X st = andthen (call (aclose X (state_queue st))) (call (dispose X (state_engine st)))"

definition lifespan ::
    "'e resources \<Rightarrow> settings \<Rightarrow> (app_state \<Rightarrow> ('e world, unit) prog) \<Rightarrow> ('e world, unit) prog" where
  "lifespan X s serve = pbind (open_app X s) (\<lambda>st. andthen (serve st) (close_app X st))"

lemma same_db_create_schema [guar_intros]: "guar same_db create_schema"
  unfolding create_schema_def
  by (rule guar_statement) (simp_all add: same_db_def split: sum.split)

lemmas db_create_schema [guar_intros] = same_db_create_schema [THEN guar_same_db]

lemma app_frame [guar_intros]: "guar same_db (open_app X s)" "guar same_db (close_app X st)"
  unfolding open_app_def close_app_def Let_def by (intro guar_intros)+

lemmas app_db [guar_intros] = app_frame [THEN guar_same_db]

lemma db_lifespan [guar_intros]: "(\<And>st. guar db_evolves (serve st)) \<Longrightarrow> guar db_evolves (lifespan X s serve)"
  unfolding lifespan_def by (intro guar_intros)

section \<open>Serving on the schema of the release\<close>

text \<open>Other replicas, of this release, may start at any time: they leave the schema or run the same DDL.\<close>

definition up_to_date :: "'e world \<Rightarrow> bool" where
  "up_to_date w \<longleftrightarrow> schema_ddl (tables w) = Inr (tables w)"

definition replicas :: "'e world \<Rightarrow> 'e world \<Rightarrow> bool" where
  "replicas w v \<longleftrightarrow> tables v = tables w \<or> schema_ddl (tables w) = Inr (tables v)"

lemma schema_ddl_idempotent: "schema_ddl sch = Inr sch' \<Longrightarrow> schema_ddl sch' = Inr sch'"
  by (auto simp: schema_ddl_eq sandbox_columns_def split: option.splits if_splits)

lemma up_to_date_replicas: "replicas w v \<Longrightarrow> up_to_date w \<Longrightarrow> up_to_date v"
  by (auto simp: replicas_def up_to_date_def)

text \<open>The state of an application that came up: what every handler of it depends on.\<close>

definition state_of :: "'e resources \<Rightarrow> settings \<Rightarrow> app_state \<Rightarrow> bool" where
  "state_of X s st \<longleftrightarrow>
     get_app_settings st = s \<and> redis_settings (from_dsn X) s = Inr (get_queue st) \<and>
     state_sessionmaker st = make_sessionmaker (make_engine s) \<and> state_engine st = session_engine (state_sessionmaker st)"

lemma create_schema_up_to_date:
  "ensures replicas create_schema (\<lambda>r v. r = Inr () \<longrightarrow> up_to_date v) u"
proof -
  define d where "d sch = projr (schema_ddl sch)" for sch
  have d: "schema_ddl sch = Inr (d sch)" for sch
    by (simp add: d_def schema_ddl_eq)
  have "schema_ddl (d sch) = Inr (d sch)" for sch using schema_ddl_idempotent [OF d] .
  then show ?thesis
    unfolding create_schema_def ensures_statement
    by (intro allI impI) (simp add: Let_def d up_to_date_def split: fault.split)
qed

lemma open_app_ready:
  "ensures replicas (open_app X s) (\<lambda>r v. case r of Inl e \<Rightarrow> True | Inr st \<Rightarrow> state_of X s st \<and> up_to_date v) w"
proof (cases "redis_settings (from_dsn X) s")
  case (Inr q)
  have schema: "ensures replicas (andthen create_schema (Return st))
      (\<lambda>r v. case r of Inl e \<Rightarrow> True | Inr st \<Rightarrow> state_of X s st \<and> up_to_date v) u"
    if "state_of X s st" for st and u :: "'a world"
    unfolding ensures_andthen
    by (rule ensures_mono [OF create_schema_up_to_date]) (simp add: that ensures_simps split: sum.split)
  then show ?thesis
    unfolding open_app_def Inr Let_def of_sum_def sum.case pbind.simps ensures_andthen [of _ "call _"]
    by (intro ensures_always)
       (simp add: state_of_def get_app_settings_def get_queue_def make_sessionmaker_def Inr split: sum.split)
qed (simp add: open_app_def Let_def of_sum_def ensures_simps)

text \<open>The application serves on the schema of its release only, and with the state its dependencies
  promise: whatever other replicas of the release do at start-up at the same time, either
  start-up raises and nothing is served, or serving begins in a database whose schema the DDL of
  this release would leave as it is, with the settings of the application, sessions of its engine
  and the queue at its Redis URL.\<close>

theorem app_serves_on_its_schema:
  assumes "\<And>i v. replicas v (I i v)"
  shows "(\<exists>e v. run_with (lifespan X s serve) I k w = (Inl e, v) \<and> run_with (open_app X s) I k w = (Inl e, v)) \<or>
    (\<exists>st j v. state_of X s st \<and> up_to_date v \<and>
        run_with (lifespan X s serve) I k w = run_with (andthen (serve st) (close_app X st)) I j v)"
proof -
  obtain j where "run_with (lifespan X s serve) I k w =
      (case run_with (open_app X s) I k w of (Inl e, v) \<Rightarrow> (Inl e, v)
       | (Inr st, v) \<Rightarrow> run_with (andthen (serve st) (close_app X st)) I j v)"
    using run_with_pbind [of "open_app X s" "\<lambda>st. andthen (serve st) (close_app X st)" I k w]
    by (auto simp: lifespan_def)
  moreover have "case fst (run_with (open_app X s) I k w) of Inl e \<Rightarrow> True
      | Inr st \<Rightarrow> state_of X s st \<and> up_to_date (snd (run_with (open_app X s) I k w))"
    by (rule run_with_ensures [OF assms open_app_ready])
  ultimately show ?thesis
    by (cases "run_with (open_app X s) I k w"; cases "fst (run_with (open_app X s) I k w)") auto
qed

definition demo_resources :: "stub resources" where
  "demo_resources = \<lparr>from_dsn = (\<lambda>u. Inr \<lparr>redis_host = u, redis_port = 6379, redis_database = 0, redis_password = None\<rparr>),
     create_pool = (\<lambda>_ x. (Inr (), x)), aclose = (\<lambda>_ x. (Inr (), x)), dispose = (\<lambda>_ x. (Inr (), x))\<rparr>"

theorem app_serves_on_its_schema_witness:
  "\<exists>st j v. state_of demo_resources default_settings st \<and> up_to_date v \<and>
     run_with (lifespan demo_resources default_settings (\<lambda>_. Return ())) (\<lambda>_ v. v) 0 (stub_world [] 0) =
     run_with (andthen (Return ()) (close_app demo_resources st)) (\<lambda>_ v. v) j v"
proof -
  have "run_with (open_app demo_resources default_settings) (\<lambda>_ v. v) 0 (stub_world [] 0) \<noteq> (Inl e, v)" for e v
    by (simp add: run_with_id run_andthen run_pbind run_call open_app_def Let_def redis_settings_def demo_resources_def
        of_sum_def create_schema_def run_statement_quiet schema_ddl_eq)
  then show ?thesis
    using app_serves_on_its_schema [of "\<lambda>_ v. v" demo_resources default_settings "\<lambda>_. Return ()" 0 "stub_world [] 0"]
    by (auto simp: replicas_def)
qed

end
