(* ===== verification/Server.thy ===== *)
theory Server
  imports Api App
begin

text \<open>
  A request from end to end (\<open>src/app/main.py\<close>): the routes of the included routers, the handler behind
  each with its validated parameters, and around it, from the inside out, the conversion of
  HTTPException to a response, the middleware, and the handler of unhandled exceptions. That is the
  documented order in which FastAPI applies them. What belongs to other libraries is a field of
  \<open>api\<close>: how pydantic reads an integer and a UUID and prints a time, how prometheus_client prints
  the gauges, what \<open>Gauge.clear\<close> does.
\<close>

record 'e api =
  api_services :: "'e services"
  api_settings :: settings
  api_lax_int :: "json \<Rightarrow> int option"
  parse_id :: "string \<Rightarrow> uuid option"
  print_time :: "datetime \<Rightarrow> string"
  exposition :: "gauge_values \<Rightarrow> string"
  clear_gauge :: "gauge \<Rightarrow> gauge_values \<Rightarrow> gauge_values"

section \<open>Routes\<close>

text \<open>A request as the router hands it on: the route with the parameters it declares.\<close>

datatype operation =
    Healthz | Readyz | Scrape_metrics
  | Post_sandboxes json "string option"
  | List_sandboxes "int option"
  | Get_sandbox string
  | Delete_sandbox string
  | Get_rollout
  | Put_rollout json

fun template :: "operation \<Rightarrow> string" where
  "template Healthz = ''/healthz''"
| "template Readyz = ''/readyz''"
| "template Scrape_metrics = ''/metrics''"
| "template (Post_sandboxes _ _) = ''/sandboxes''"
| "template (List_sandboxes _) = ''/sandboxes''"
| "template (Get_sandbox _) = ''/sandboxes/{sandbox_id}''"
| "template (Delete_sandbox _) = ''/sandboxes/{sandbox_id}''"
| "template Get_rollout = ''/rollout''"
| "template (Put_rollout _) = ''/rollout''"

section \<open>Responses\<close>

definition json_response :: "int \<Rightarrow> json \<Rightarrow> response" where
  "json_response code body = \<lparr>res_status = code, res_headers = [], res_body = body\<rparr>"

definition json_option :: "string option \<Rightarrow> json" where
  "json_option x = (case x of None \<Rightarrow> JNull | Some s \<Rightarrow> JString s)"

definition accepted_json :: "(datetime \<Rightarrow> string) \<Rightarrow> sandbox_accepted \<Rightarrow> json" where
  "accepted_json pt a = JObject
     [(''job_id'', JString (acc_job_id a)), (''sandbox_id'', JString (uuid_str (acc_sandbox_id a))),
      (''type'', JString (sandbox_type_value (acc_type a))), (''status'', JString (status_value (acc_status a))),
      (''deployment'', JString (deployment_value (acc_deployment a))),
      (''expires_at'', JString (pt (acc_expires_at a)))]"

definition out_json :: "(datetime \<Rightarrow> string) \<Rightarrow> sandbox_out \<Rightarrow> json" where
  "out_json pt r = JObject
     [(''id'', JString (uuid_str (out_id r))), (''type'', JString (sandbox_type_value (out_type r))),
      (''status'', JString (status_value (out_status r))),
      (''deployment'', JString (deployment_value (out_deployment r))),
      (''url'', json_option (out_url r)), (''error'', json_option (out_error r)),
      (''attempts'', JInt (out_attempts r)), (''expires_at'', JString (pt (out_expires_at r))),
      (''created_at'', JString (pt (out_created_at r))), (''updated_at'', JString (pt (out_updated_at r)))]"

definition rollout_json :: "int \<Rightarrow> json" where
  "rollout_json n = JObject [(''canary_weight'', JInt n)]"

section \<open>Handlers behind their routes\<close>

definition with_id :: "'e api \<Rightarrow> string \<Rightarrow> (uuid \<Rightarrow> ('e world, response) prog) \<Rightarrow> ('e world, response) prog" where
  "with_id A t k = (case parse_id A t of None \<Rightarrow> Raise unprocessable_422 | Some i \<Rightarrow> k i)"

text \<open>\<open>new_id\<close> is the id a POST draws.\<close>

fun endpoint :: "'e api \<Rightarrow> uuid \<Rightarrow> operation \<Rightarrow> ('e world, response) prog" where
  "endpoint A new_id Healthz =
     pbind healthz (\<lambda>kvs. Return (json_response 200 (JObject (map (\<lambda>(k, v). (k, JString v)) kvs))))"
| "endpoint A new_id Readyz =
     pbind (readyz (api_services A) (api_settings A)) (\<lambda>r.
     Return (json_response (ready_code r)
       (JObject [(''status'', JString (ready_status r)),
                 (''checks'', JObject (map (\<lambda>(k, v). (k, JString v)) (checks r)))])))"
| "endpoint A new_id Scrape_metrics =
     pbind (metrics (clear_gauge A) (api_services A) (api_settings A)) (\<lambda>gv.
     Return (json_response 200 (JString (exposition A gv))))"
| "endpoint A new_id (Post_sandboxes body key) =
     pbind (post_sandboxes (api_services A) (api_settings A) (api_lax_int A) new_id body key) (\<lambda>(a, replayed).
     Return \<lparr>res_status = 202, res_headers = (if replayed then [(''Idempotent-Replayed'', ''true'')] else []),
             res_body = accepted_json (print_time A) a\<rparr>)"
| "endpoint A new_id (List_sandboxes q) =
     (case valid_limit q of
        None \<Rightarrow> Raise unprocessable_422
      | Some n \<Rightarrow> pbind (api_list_sandboxes n) (\<lambda>rows.
          Return (json_response 200 (JArray (map (\<lambda>r. out_json (print_time A) (SandboxOut r)) rows)))))"
| "endpoint A new_id (Get_sandbox t) =
     with_id A t (\<lambda>i. pbind (get_sandbox i) (\<lambda>r.
     Return (json_response 200 (out_json (print_time A) (SandboxOut r)))))"
| "endpoint A new_id (Delete_sandbox t) =
     with_id A t (\<lambda>i. pbind (delete_sandbox (api_services A) (api_settings A) i) (\<lambda>r.
     Return (json_response 202 (out_json (print_time A) (SandboxOut r)))))"
| "endpoint A new_id Get_rollout =
     pbind (get_rollout (api_settings A)) (\<lambda>n. Return (json_response 200 (rollout_json n)))"
| "endpoint A new_id (Put_rollout body) =
     (case parse_rollout body of
        None \<Rightarrow> Raise unprocessable_422
      | Some b \<Rightarrow> pbind (put_rollout (canary_weight b) (api_settings A)) (\<lambda>n.
          Return (json_response 200 (rollout_json n))))"

text \<open>FastAPI's handler of HTTPException, and its answer where no route matches.\<close>

definition http_exception :: "exn \<Rightarrow> ('w, response) prog" where
  "http_exception e = (case e of
       HTTPException c d h \<Rightarrow> Return \<lparr>res_status = c, res_headers = h, res_body = JObject [(''detail'', JString d)]\<rparr>
     | _ \<Rightarrow> Raise e)"

definition routed :: "'e api \<Rightarrow> uuid \<Rightarrow> operation option \<Rightarrow> ('e world, response) prog" where
  "routed A new_id op =
     try_catch (case op of None \<Rightarrow> Raise (HTTPException 404 ''Not Found'' []) | Some x \<Rightarrow> endpoint A new_id x)
       Return http_exception"

definition serve :: "'e api \<Rightarrow> request \<Rightarrow> uuid \<Rightarrow> uuid \<Rightarrow> operation option \<Rightarrow> ('e world, response) prog" where
  "serve A rq fresh new_id op =
     try_catch (observe_requests rq fresh (map_option template op) (routed A new_id op))
       Return (except_Exception (\<lambda>e. Return (unhandled e)))"

section \<open>The guarantee of a request\<close>

lemma endpoint_evolves [guar_intros]: "guar db_evolves (endpoint A new_id op)"
  by (cases op) (simp_all add: with_id_def, (intro guar_intros)+)

lemma serve_evolves [guar_intros]: "guar db_evolves (serve A rq fresh new_id op)"
  unfolding serve_def routed_def http_exception_def
  by (intro guar_intros) (simp_all split: exn.split)

section \<open>Answers and metrics agree\<close>

definition route_labels :: "string list" where
  "route_labels =
     [''/healthz'', ''/readyz'', ''/metrics'', ''/sandboxes'', ''/sandboxes/{sandbox_id}'', ''/rollout'', ''unmatched'']"

lemma route_label_bounded: "route_label (map_option template op) \<in> set route_labels"
proof (cases op)
  case (Some x)
  then show ?thesis by (cases x) (simp_all add: route_label_def route_labels_def)
qed (simp add: route_label_def route_labels_def)


text \<open>Successful requests answer 200 or 202, or what readiness found.\<close>

lemma unmatched_is_404:
  "run (serve A rq fresh new_id None) w =
     (Inr \<lparr>res_status = 404, res_headers = [(''x-request-id'', request_id rq fresh)],
           res_body = JObject [(''detail'', JString ''Not Found'')]\<rparr>,
      w\<lparr>emitted := emitted w @ observation rq fresh None 404 0\<rparr>)"
proof -
  have "run (routed A new_id None) w =
      (Inr \<lparr>res_status = 404, res_headers = [], res_body = JObject [(''detail'', JString ''Not Found'')]\<rparr>, w)"
    by (simp add: routed_def http_exception_def)
  from run_observe_requests [OF this, of rq fresh None] show ?thesis
    by (simp add: serve_def run_try_catch)
qed

end
