(* ===== verification/System.thy ===== *)
theory System
  imports Reaper Server
begin

text \<open>
  The running system: any number of replicas starting and stopping, API requests under the
  middleware, worker jobs and reaper sweeps, interleaved at every await, restarted and killed at will, with failing databases, queues and daemons. Nothing
  is assumed about who starts a job or how often: arq may deliver a job twice, late, or for a
  sandbox that was never created.
\<close>

section \<open>Processes and their environment\<close>

definition void :: "('w, 'a) prog \<Rightarrow> ('w, unit) prog" where
  "void p = pbind p (\<lambda>_. Return ())"

inductive process :: "'e services \<Rightarrow> ('e world, unit) prog \<Rightarrow> bool" for S where
  start_job: "ctx_runtime c = docker_runtime S (ctx_settings c) \<Longrightarrow> process S (void (start_sandbox c arg))"
| stop_job: "ctx_runtime c = docker_runtime S (ctx_settings c) \<Longrightarrow> process S (void (stop_sandbox c arg))"
| reaper: "ctx_runtime c = docker_runtime S (ctx_settings c) \<Longrightarrow> process S (void (reconcile_sandboxes c set_order))"
| worker_startup: "process S (void (startup S s))"
| worker_shutdown: "process S (shutdown close_engine W)"
| post: "process S (void (post_sandboxes S s lax_int i body key))"
| delete: "process S (void (delete_sandbox S s i))"
| get: "process S (void (get_sandbox i))"
| list: "process S (void (api_list_sandboxes limit))"
| get_weight: "process S (void (get_rollout s))"
| put_weight: "process S (void (put_rollout n s))"
| alive: "process S (void healthz)"
| ready: "process S (void (readyz S s))"
| scrape: "process S (void (metrics clear S s))"
| request: "api_services A = S \<Longrightarrow> process S (void (serve A rq fresh i op))"
| app: "process S (lifespan X s (\<lambda>_. Return ()))"

text \<open>What everything else may do between two steps: anything but write to the table.\<close>

definition outside :: "'e world \<Rightarrow> 'e world \<Rightarrow> bool" where
  "outside w w' \<longleftrightarrow> sandboxes w' = sandboxes w"

abbreviation system_steps where
  "system_steps S \<equiv> pool_steps (process S) outside"

definition reachable :: "'e services \<Rightarrow> 'e world \<Rightarrow> ('e world, unit) prog list \<Rightarrow> bool" where
  "reachable S w ps \<longleftrightarrow> (\<exists>w0. sandboxes w0 = [] \<and> system_steps S (w0, []) (w, ps))"

section \<open>Every process only makes legal writes\<close>

lemma guar_void [guar_intros]: "guar G p \<Longrightarrow> guar G (void p)"
  unfolding void_def by (intro guar_intros)

lemma process_evolves: "process S p \<Longrightarrow> guar db_evolves p"
  by (induction rule: process.induct) (intro guar_intros; simp)+

lemma outside_evolves: "outside w w' \<Longrightarrow> db_evolves w w'"
  by (simp add: outside_def db_evolves_def)

lemma system_evolves:
  assumes "system_steps S (w, ps) (w', ps')" "list_all (guar db_evolves) ps"
  shows "evolves (sandboxes w) (sandboxes w') \<and> list_all (guar db_evolves) ps'"
  using db.pool_guarantee [OF assms(1) process_evolves outside_evolves assms(2)]
  by (simp add: db_evolves_def)

lemma reachable_processes: "reachable S w ps \<Longrightarrow> list_all (guar db_evolves) ps"
  by (auto simp: reachable_def dest!: system_evolves)

lemma reachable_evolves:
  "reachable S w ps \<Longrightarrow> system_steps S (w, ps) (w', ps') \<Longrightarrow> evolves (sandboxes w) (sandboxes w')"
  using system_evolves reachable_processes by blast

lemma table_ok_Nil: "table_ok []"
  by (simp add: table_ok_def unique_keys_def)

section \<open>What holds in every reachable state\<close>

text \<open>A concrete execution: a sandbox is requested, and its start job runs to the end.\<close>

definition demo_ctx :: "stub ctx" where
  "demo_ctx =
     \<lparr>ctx_settings = default_settings, ctx_runtime = docker_runtime stub_services default_settings,
      job_try = 1, enqueue_time = None, random_random = 1 / 2, random_uniform = 1 / 2\<rparr>"

definition demo_post :: "(stub world, create_response) prog" where
  "demo_post = post_sandboxes stub_services default_settings (\<lambda>_. None) 7 (JObject [(''type'', JString ''http'')]) None"

definition demo_posted :: "stub world" where
  "demo_posted = snd (run (void demo_post) (stub_world [] 0))"

definition demo_stopping :: "stub world" where
  "demo_stopping = snd (run (void (delete_sandbox stub_services default_settings 7)) demo_posted)"

lemma snd_run_void: "snd (run (void p) w) = snd (run p w)"
  by (simp add: void_def run_pbind split: prod.split sum.split)

lemma parse_demo:
  "parse_create f (JObject [(''type'', JString ''http'')]) = Some \<lparr>create_type = HTTP, ttl_s = 600\<rparr>"
proof -
  have "only_fields [''type'', ''ttl_s''] [(''type'', JString ''http'')]" by (simp add: only_fields_def)
  then show ?thesis by simp
qed

lemma demo_capacity: "sandbox_max_active default_settings = 50"
  by (simp add: default_settings_def)

lemma demo_posted:
  "sandboxes demo_posted = [new_sandbox 7 HTTP QUEUED STABLE (seconds 600) None 0]"
  "quiet demo_posted" "redis demo_posted = Map.empty"
  unfolding demo_posted_def snd_run_void demo_post_def post_sandboxes_def parse_demo option.case
    create_sandbox_def enqueue_start_def replay_if_key_def Let_def
  by (simp_all add: run_simps demo_capacity violates_unique_def stub_enqueue_def empty_stub_def)

lemma demo_reachable: "reachable stub_services demo_posted []"
  unfolding reachable_def demo_posted_def demo_post_def
  by (intro exI [of _ "stub_world [] 0"] conjI pool_run process.post) simp

lemma demo_delete_steps: "system_steps stub_services (demo_posted, []) (demo_stopping, [])"
  unfolding demo_stopping_def by (intro pool_run process.delete)

lemma demo_stopping:
  "sandboxes demo_stopping = [(new_sandbox 7 HTTP STOPPING STABLE (seconds 600) None 0)\<lparr>updated_at := clock demo_posted\<rparr>]"
proof -
  note w = demo_posted quiet_faults [OF demo_posted(2)]
  show ?thesis
    unfolding demo_stopping_def snd_run_void delete_sandbox_def get_or_404_def
    by (simp add: run_simps w update_rows_def find_row_def new_sandbox_def stub_enqueue_def split: if_split)
qed

text \<open>C2. In every reachable state of the system the table is well formed: ids and idempotency keys
  are unique, and a running sandbox has the URL it serves on and no error. This holds whatever
  the services do, whichever jobs are delivered (twice, late, for nobody) and wherever processes
  are killed.\<close>

theorem table_always_ok:
  assumes "reachable S w ps"
  shows "table_ok (sandboxes w)"
  using assms system_evolves table_ok_Nil by (fastforce simp: reachable_def evolves_def)

theorem table_always_ok_witness: "table_ok (sandboxes demo_posted)"
  by (rule table_always_ok [OF demo_reachable])

text \<open>C4. From any reachable state on, a row is never deleted, its identity columns (type, pool, expiry,
  idempotency key, creation time) never change, and its status only moves forward, but for a
  start that goes back to the queue for a retry.\<close>

theorem status_only_moves_forward:
  assumes "reachable S w ps" "system_steps S (w, ps) (w', ps')"
    and "find_row i (sandboxes w) = Some r"
  shows "\<exists>r'. find_row i (sandboxes w') = Some r' \<and> same_identity r r' \<and>
    (status r \<le> status r' \<or> (status r = STARTING \<and> status r' = QUEUED))"
  using reachable_evolves [OF assms(1,2)] assms(3) edges_forward unfolding evolves_def by blast

theorem status_only_moves_forward_witness:
  "\<exists>r'. find_row 7 (sandboxes demo_stopping) = Some r' \<and>
     same_identity (new_sandbox 7 HTTP QUEUED STABLE (seconds 600) None 0) r' \<and> QUEUED \<le> status r'"
  using status_only_moves_forward [OF demo_reachable demo_delete_steps, of 7
      "new_sandbox 7 HTTP QUEUED STABLE (seconds 600) None 0"]
  by (auto simp: demo_posted find_row_def new_sandbox_def)

text \<open>C3. No write resurrects a sandbox: once a row is stopping, stopped or failed, no interleaving of
  requests, jobs and sweeps brings it back to queued, starting or running; a settled row stays
  settled, and a failed one stays failed.\<close>

theorem no_resurrection:
  assumes "reachable S w ps" "system_steps S (w, ps) (w', ps')"
    and "find_row i (sandboxes w) = Some r" "status r \<notin> {QUEUED, STARTING, RUNNING}"
  shows "\<exists>r'. find_row i (sandboxes w') = Some r' \<and> status r' \<notin> {QUEUED, STARTING, RUNNING} \<and>
    (terminal (status r) \<longrightarrow> terminal (status r')) \<and> (status r = FAILED \<longrightarrow> status r' = FAILED)"
proof -
  obtain r' where r': "find_row i (sandboxes w') = Some r'" "edges (status r) (status r')"
    using reachable_evolves [OF assms(1,2)] assms(3) unfolding evolves_def by blast
  have "STOPPING \<le> status r" using assms(4) by (cases "status r") (simp_all add: less_eq_status_def)
  then have "STOPPING \<le> status r'" by (rule edges_no_restart [OF r'(2)])
  then have "status r' \<notin> {QUEUED, STARTING, RUNNING}" by (auto simp: less_eq_status_def)
  with r' edges_terminal edges_failed show ?thesis by blast
qed

lemma demo_stopping_reachable: "reachable stub_services demo_stopping []"
  using demo_reachable demo_delete_steps unfolding reachable_def by (meson rtranclp_trans)

definition demo_late_start :: "stub world" where
  "demo_late_start = snd (run (void (start_sandbox demo_ctx (uuid_str 7))) demo_stopping)"

lemma demo_late_start_steps: "system_steps stub_services (demo_stopping, []) (demo_late_start, [])"
  unfolding demo_late_start_def by (intro pool_run process.start_job) (simp add: demo_ctx_def)

theorem no_resurrection_witness:
  "\<exists>r'. find_row 7 (sandboxes demo_late_start) = Some r' \<and> status r' \<notin> {QUEUED, STARTING, RUNNING}"
  using no_resurrection [OF demo_stopping_reachable demo_late_start_steps, of 7
      "(new_sandbox 7 HTTP STOPPING STABLE (seconds 600) None 0)\<lparr>updated_at := clock demo_posted\<rparr>"]
  by (auto simp: demo_stopping find_row_def new_sandbox_def)

end
