(* ===== verification/Metrics.thy ===== *)
theory Metrics
  imports Server
begin

text \<open>
  The metrics of the service (\<open>src/app/metrics.py\<close>): the families with their names, help texts, label
  names and buckets, and which of them a recorded event is a sample of, with its label values in
  the order of the calls of \<open>labels\<close>. The vocabulary says which values a label may have.
\<close>

section \<open>The families\<close>

datatype metric_kind = Counter | Histogram "rat list" | Gauge

record metric =
  metric_name :: string
  metric_kind :: metric_kind
  metric_help :: string
  label_names :: "string list"

definition REGISTRY :: "metric list" where
  "REGISTRY =
     [\<lparr>metric_name = ''http_requests_total'', metric_kind = Counter, metric_help = ''HTTP requests handled'',
       label_names = [''method'', ''route'', ''status'']\<rparr>,
      \<lparr>metric_name = ''http_request_duration_seconds'',
       metric_kind = Histogram [1/200, 1/100, 1/40, 1/20, 1/10, 1/4, 1/2, 1, 5/2, 5, 10],
       metric_help = ''HTTP request latency'', label_names = [''method'', ''route'']\<rparr>,
      \<lparr>metric_name = ''jobs_enqueued_total'', metric_kind = Counter, metric_help = ''Jobs handed to the queue'',
       label_names = [''task'', ''outcome'', ''deployment'']\<rparr>,
      \<lparr>metric_name = ''queue_depth'', metric_kind = Gauge, metric_help = ''Due jobs waiting for a worker, per pool'',
       label_names = [''deployment'']\<rparr>,
      \<lparr>metric_name = ''job_queue_wait_seconds'',
       metric_kind = Histogram [1/100, 1/20, 1/10, 1/4, 1/2, 1, 5/2, 5, 10, 30, 60],
       metric_help = ''Enqueue -> first pickup by a worker (first try only; retries are deliberately deferred)'',
       label_names = [''task'', ''deployment'']\<rparr>,
      \<lparr>metric_name = ''jobs_total'', metric_kind = Counter, metric_help = ''Background jobs by outcome'',
       label_names = [''task'', ''outcome'', ''deployment'']\<rparr>,
      \<lparr>metric_name = ''job_duration_seconds'',
       metric_kind = Histogram [1/20, 1/10, 1/4, 1/2, 1, 5/2, 5, 10, 30, 60],
       metric_help = ''Background job run time'', label_names = [''task'', ''deployment'']\<rparr>,
      \<lparr>metric_name = ''sandbox_time_to_running_seconds'',
       metric_kind = Histogram [1/2, 1, 2, 3, 5, 8, 13, 20, 30, 60, 120],
       metric_help = ''Sandbox request accepted -> sandbox serving HTTP'', label_names = [''deployment'']\<rparr>,
      \<lparr>metric_name = ''sandboxes_active'', metric_kind = Gauge,
       metric_help = ''Sandboxes per non-terminal status'', label_names = [''status'']\<rparr>,
      \<lparr>metric_name = ''sandbox_oldest_in_status_seconds'', metric_kind = Gauge,
       metric_help = ''Time the longest-waiting sandbox has spent in its current status'',
       label_names = [''status'']\<rparr>,
      \<lparr>metric_name = ''sandbox_capacity'', metric_kind = Gauge,
       metric_help = ''Admission cap on active sandboxes'', label_names = []\<rparr>,
      \<lparr>metric_name = ''sandboxes_reaped_total'', metric_kind = Counter,
       metric_help = ''Sandboxes the reaper cleaned up'', label_names = [''reason'']\<rparr>,
      \<lparr>metric_name = ''sandbox_reconcile_runs_total'', metric_kind = Counter,
       metric_help = ''Reaper sweeps by outcome'', label_names = [''outcome'']\<rparr>,
      \<lparr>metric_name = ''rollout_canary_weight'', metric_kind = Gauge,
       metric_help = ''Percent of new jobs routed to the canary pool (0-100)'', label_names = []\<rparr>,
      \<lparr>metric_name = ''worker_info'', metric_kind = Gauge, metric_help = ''Worker pool and version'',
       label_names = [''deployment'', ''version'']\<rparr>]"

definition family :: "string \<Rightarrow> metric option" where
  "family n = find (\<lambda>m. metric_name m = n) REGISTRY"

section \<open>Samples\<close>

fun sample :: "event \<Rightarrow> (string \<times> string list) option" where
  "sample (JOBS_ENQUEUED task outcome d) = Some (''jobs_enqueued_total'', [task, outcome, deployment_value d])"
| "sample (JOB_QUEUE_WAIT task d t) = Some (''job_queue_wait_seconds'', [task, deployment_value d])"
| "sample (JOBS task outcome d) = Some (''jobs_total'', [task, outcome, deployment_value d])"
| "sample (JOB_LATENCY task d t) = Some (''job_duration_seconds'', [task, deployment_value d])"
| "sample (TIME_TO_RUNNING d t) = Some (''sandbox_time_to_running_seconds'', [deployment_value d])"
| "sample (SANDBOXES_REAPED reason) = Some (''sandboxes_reaped_total'', [reason])"
| "sample (RECONCILE_RUNS outcome) = Some (''sandbox_reconcile_runs_total'', [outcome])"
| "sample (HTTP_REQUESTS m path code) = Some (''http_requests_total'', [m, path, code])"
| "sample (HTTP_LATENCY m path t) = Some (''http_request_duration_seconds'', [m, path])"
| "sample (WORKER_INFO d v) = Some (''worker_info'', [deployment_value d, v])"
| "sample (ACCESS_LOG rid m path code) = None"
| "sample (Inserted i) = None"
| "sample (Sent job i d) = None"

text \<open>
  The values of a label, None where they are not the program's to bound: the version is that of the
  release, the status of a request the code of its answer.
\<close>

definition vocabulary :: "string \<Rightarrow> string \<Rightarrow> string list option" where
  "vocabulary n l =
     (if l = ''method'' then Some (''OTHER'' # METHODS)
      else if l = ''route'' then Some route_labels
      else if l = ''task'' then Some [START_SANDBOX, STOP_SANDBOX]
      else if l = ''deployment'' then Some [deployment_value STABLE, deployment_value CANARY]
      else if l = ''reason'' then Some [''expired'', ''orphan'', ''vanished'']
      else if l = ''outcome'' then
        Some (if n = ''jobs_enqueued_total'' then [''enqueued'', ''error'', ''deduplicated'']
              else if n = ''jobs_total'' then [''success'', ''retry'', ''failed'', ''expired'']
              else [''success'', ''failed''])
      else None)"

definition in_vocabulary :: "string \<Rightarrow> string \<Rightarrow> string \<Rightarrow> bool" where
  "in_vocabulary n l v = (case vocabulary n l of None \<Rightarrow> True | Some vs \<Rightarrow> v \<in> set vs)"

text \<open>A sample belongs to a family, gives each of its labels a value, and only values of the vocabulary.\<close>

definition event_ok :: "event \<Rightarrow> bool" where
  "event_ok ev \<longleftrightarrow>
     (case sample ev of
        None \<Rightarrow> True
      | Some (n, vs) \<Rightarrow> (case family n of None \<Rightarrow> False | Some m \<Rightarrow> list_all2 (in_vocabulary n) (label_names m) vs))"

lemma deployment_values [simp]: "deployment_value d = ''stable'' \<or> deployment_value d = ''canary''"
  by (cases d) simp_all

lemma event_ok_simps [simp]:
  "event_ok (JOBS_ENQUEUED task out d) \<longleftrightarrow> task \<in> {START_SANDBOX, STOP_SANDBOX} \<and> out \<in> {''enqueued'', ''error'', ''deduplicated''}"
  "event_ok (JOB_QUEUE_WAIT task d t) \<longleftrightarrow> task \<in> {START_SANDBOX, STOP_SANDBOX}"
  "event_ok (JOBS task out d) \<longleftrightarrow> task \<in> {START_SANDBOX, STOP_SANDBOX} \<and> out \<in> {''success'', ''retry'', ''failed'', ''expired''}"
  "event_ok (JOB_LATENCY task d t) \<longleftrightarrow> task \<in> {START_SANDBOX, STOP_SANDBOX}"
  "event_ok (TIME_TO_RUNNING d t)"
  "event_ok (SANDBOXES_REAPED reason) \<longleftrightarrow> reason \<in> {''expired'', ''orphan'', ''vanished''}"
  "event_ok (RECONCILE_RUNS out) \<longleftrightarrow> out \<in> {''success'', ''failed''}"
  "event_ok (HTTP_REQUESTS m path code) \<longleftrightarrow> m \<in> set (''OTHER'' # METHODS) \<and> path \<in> set route_labels"
  "event_ok (HTTP_LATENCY m path t) \<longleftrightarrow> m \<in> set (''OTHER'' # METHODS) \<and> path \<in> set route_labels"
  "event_ok (WORKER_INFO d v)"
  "event_ok (ACCESS_LOG rid m path n)" "event_ok (Inserted i)" "event_ok (Sent job i d)"
  by (simp_all add: event_ok_def family_def REGISTRY_def in_vocabulary_def vocabulary_def)

end
