(* ===== verification/Permissions.thy ===== *)
theory Permissions
  imports System Metrics
begin

text \<open>
  What a process may do to the world, as an interface: a relation that allows every elementary
  write the program makes contains the steps of every process of the system, and hence relates the
  ends of every interleaving of them. One pass over the program serves all such relations; a new
  one only has to allow the writes.
\<close>

text \<open>A write to a row: legal in the life cycle, and it keeps the row well typed.\<close>

definition lawful :: "sandbox \<Rightarrow> sandbox \<Rightarrow> bool" where
  "lawful r r' \<longleftrightarrow> legal_write r r' \<and> (well_typed r \<longrightarrow> well_typed r')"

lemmas typing = well_typed_def fits_columns_key
lemmas lawful_simps = lawful_def legal_write_def edge_simps row_ok_def typing

section \<open>The interface\<close>

locale permission = guarantee G for G :: "'e world \<Rightarrow> 'e world \<Rightarrow> bool" +
  assumes next_statement: "G w (w\<lparr>faults := tl (faults w)\<rparr>)"
    and next_deadline: "G w (w\<lparr>deadlines := tl (deadlines w)\<rparr>)"
    and outside_call: "G w (w\<lparr>ext := x\<rparr>)"
    and store: "G w (w\<lparr>redis := kv\<rparr>)"
    and gauge: "G w (w\<lparr>gauges := gv\<rparr>)"
    and migrate: "G w (w\<lparr>tables := sch\<rparr>)"
    and observe: "event_ok ev \<Longrightarrow> G w (w\<lparr>emitted := emitted w @ [ev]\<rparr>)"
    and update: "(\<And>r. P r \<Longrightarrow> lawful r (f r)) \<Longrightarrow> G w (w\<lparr>sandboxes := update_rows P f t (sandboxes w)\<rparr>)"
    and insert: "\<not> violates_unique r (sandboxes w) \<Longrightarrow> row_ok r \<Longrightarrow> well_typed r \<Longrightarrow>
      G w (w\<lparr>sandboxes := sandboxes w @ [r]\<rparr>)"
begin

lemma perm_statement: "(\<And>w. G w (snd (f w))) \<Longrightarrow> guar G (statement f)"
  by (rule guar_statement) (auto intro: next_statement G_trans [OF next_statement])

lemma perm_reads [guar_intros]: "guar G (reads h)" "guar G get_now"
  by (simp_all add: guar_reads get_now_def)

lemma perm_does_gauges [guar_intros]: "guar G (does (\<lambda>w. w\<lparr>gauges := F w\<rparr>))"
  by (rule guar_does) (rule gauge)

lemma perm_emit [guar_intros]: "event_ok ev \<Longrightarrow> guar G (emit ev)"
  unfolding emit_def by (rule guar_does) (rule observe)

lemma perm_call [guar_intros]: "guar G (call h)"
  unfolding call_def by (rule guar_atomically) (simp add: outside_call split: prod.split)

lemma perm_recorded_call [guar_intros]: "event_ok ev \<Longrightarrow> guar G (recorded_call ev h)"
  unfolding recorded_call_def
proof (rule guar_atomically)
  fix w :: "'e world"
  assume "event_ok ev"
  then have "G w (w\<lparr>ext := x, emitted := emitted w @ [ev]\<rparr>)" for x
    using G_trans [OF outside_call [of w x] observe, of ev] by simp
  then show "G w (snd (let (r, x) = h (ext w) in (r, w\<lparr>ext := x, emitted := emitted w @ [ev]\<rparr>)))"
    by (simp split: prod.split)
qed

lemma perm_table_reads [guar_intros]:
  "guar G (db_get i)" "guar G (db_select P)" "guar G db_commit" "guar G (redis_get k)" "guar G ping_db"
  "guar G (statement (\<lambda>w. (Inr (group_of (sandboxes w)), w)))"
  unfolding db_get_def db_select_def db_commit_def redis_get_def ping_db_def
  by (intro guar_andthen perm_statement; simp add: G_refl)+

lemma perm_redis_set [guar_intros]: "guar G (redis_set k v)"
  unfolding redis_set_def by (rule perm_statement) (simp add: store)

lemma perm_create_schema [guar_intros]: "guar G create_schema"
  unfolding create_schema_def
  by (rule perm_statement) (simp add: migrate G_refl split: sum.split)

lemma perm_db_update: "(\<And>r. P r \<Longrightarrow> lawful r (f r)) \<Longrightarrow> guar G (db_update P f)"
  unfolding db_update_def by (rule perm_statement) (simp add: update)

lemma perm_db_insert [guar_intros]:
  assumes "row_ok r" "well_typed r"
  shows "guar G (db_insert r)"
  unfolding db_insert_def
proof (rule perm_statement)
  fix w :: "'e world"
  let ?w = "w\<lparr>sandboxes := sandboxes w @ [r]\<rparr>"
  have "G w (?w\<lparr>emitted := emitted ?w @ [Inserted (sid r)]\<rparr>)" if "\<not> violates_unique r (sandboxes w)"
    by (rule G_trans [OF insert [OF that assms] observe]) simp
  then show "G w (snd (if violates_unique r (sandboxes w) then (Inl (Err IntegrityError ''duplicate key''), w)
      else (Inr (), w\<lparr>sandboxes := sandboxes w @ [r], emitted := emitted w @ [Inserted (sid r)]\<rparr>)))"
    by (simp add: G_refl)
qed

lemma perm_asyncio_timeout [guar_intros]: "guar G p \<Longrightarrow> guar G (asyncio_timeout s p)"
  unfolding asyncio_timeout_def by (erule guar_with_deadline [rotated]) (rule next_deadline)

end

section \<open>Every process has it\<close>

context permission
begin

lemma perm_runtime [guar_intros]:
  "guar G (prepare S s)" "guar G (launch S s i x)" "guar G (remove_sandbox S s i)" "guar G (list_sandboxes S s)"
  unfolding prepare_def launch_def remove_sandbox_def list_sandboxes_def run_bounded_def
    ensure_container_def docker_get_def docker_remove_def wait_ready_def Let_def
  by (intro guar_intros guar_wait_ready_loop)+

lemma perm_queue [guar_intros]:
  "guar G (enqueue_sandbox_job S job i t d)" "guar G (get_weight t)" "guar G (set_weight n t)"
  "guar G (pick_deployment i t)" "guar G (get_rollout s)" "guar G (put_rollout n s)"
  unfolding enqueue_sandbox_job_def get_weight_def set_weight_def pick_deployment_def get_rollout_def put_rollout_def
  by (intro guar_intros; simp)+

lemma perm_probes [guar_intros]: "guar G healthz" "guar G (readyz S s)"
  unfolding healthz_def readyz_def check_def by (intro guar_intros)+

lemma perm_sample_depth [guar_intros]: "guar G (sample_depth S n d)"
  unfolding sample_depth_def
proof (rule guar_atomically)
  fix w :: "'e world"
  have "G w (w\<lparr>ext := x, gauges := gv\<rparr>)" for x gv
    using G_trans [OF outside_call [of w x] gauge, of gv] by simp
  then show "G w (snd (let (r, x) = zcount S (QUEUES d) n (ext w) in
      case r of Inl e \<Rightarrow> (Inl e, w\<lparr>ext := x\<rparr>)
      | Inr k \<Rightarrow> (Inr (), w\<lparr>ext := x, gauges := put_gauge QUEUE_DEPTH (deployment_value d) (of_int k) (gauges w)\<rparr>)))"
    by (simp add: outside_call split: prod.split sum.split)
qed

lemma perm_samplers [guar_intros]: "guar G (sample_queues S s)" "guar G (sample_sandboxes s)"
  unfolding sample_queues_def sample_sandboxes_def set_gauge_def
  by (intro guar_intros)+

lemma perm_metrics [guar_intros]: "guar G (metrics clear S s)"
  unfolding metrics_def samplers_def
  by (intro guar_intros) (auto intro: guar_intros)

lemma perm_transition [guar_intros]:
  assumes "\<And>r. sid r = i \<Longrightarrow> status r \<in> expected \<Longrightarrow> lawful r (f r)"
  shows "guar G (transition i expected f)"
  unfolding transition_def
  by (intro guar_intros perm_db_update) (use assms in auto)

end

section \<open>Jobs and sweeps\<close>

text \<open>A context of the system: its runtime is DockerRuntime.\<close>

definition docker_ctx :: "'e services \<Rightarrow> 'e ctx \<Rightarrow> bool" where
  "docker_ctx S c \<longleftrightarrow> ctx_runtime c = docker_runtime S (ctx_settings c)"

context permission
begin

lemma perm_docker_runtime [guar_intros]:
  "guar G (rt_launch (docker_runtime S s) i x)" "guar G (rt_remove (docker_runtime S s) i)"
  "guar G (rt_list_sandboxes (docker_runtime S s))"
  by (simp_all add: docker_runtime_def perm_runtime)

lemma perm_timed_job [guar_intros]:
  "task \<in> {START_SANDBOX, STOP_SANDBOX} \<Longrightarrow> guar G body \<Longrightarrow> guar G (timed_job c task body)"
  unfolding timed_job_def observe_queue_wait_def by (intro guar_intros; simp)

lemma perm_start_sandbox [guar_intros]: "docker_ctx S c \<Longrightarrow> guar G (start_sandbox c arg)"
  unfolding start_sandbox_def start_body_def launch_failed_def launched_def discard_def worker_launch_def
    count_job_def docker_ctx_def
  by (simp only:, intro guar_intros) (auto simp: lawful_simps STARTABLE_def)

lemma perm_stop_sandbox [guar_intros]: "docker_ctx S c \<Longrightarrow> guar G (stop_sandbox c arg)"
  unfolding stop_sandbox_def stop_body_def remove_failed_def count_job_def docker_ctx_def
  by (simp only:, intro guar_intros) (auto simp: lawful_simps)

lemma perm_count_reason [guar_intros]: "guar G (count_reason why n)"
  unfolding count_reason_def by (intro guar_intros) (cases why; simp)

lemma perm_reap_containers [guar_intros]:
  "guar G (reap_containers (docker_runtime S s) now statuses cs n)"
proof (induction cs arbitrary: n)
  case (Cons c cs)
  show ?case
    unfolding reap_containers.simps
    by (intro guar_intros Cons.IH) (auto simp: lawful_simps)
qed simp

lemma perm_fail_vanished [guar_intros]: "guar G (fail_vanished is n)"
proof (induction "is" arbitrary: n)
  case (Cons i "is")
  show ?case
    unfolding fail_vanished.simps
    by (intro guar_intros Cons.IH) (auto simp: lawful_simps)
qed simp

lemma perm_reconcile [guar_intros]: "docker_ctx S c \<Longrightarrow> guar G (reconcile_sandboxes c set_order)"
  unfolding reconcile_sandboxes_def sweep_def Let_def docker_ctx_def
  by (simp only:, intro guar_intros perm_db_update) (auto simp: lawful_simps)

lemma perm_worker_life [guar_intros]: "guar G (startup S s)" "guar G (shutdown close_engine W)"
  unfolding startup_def shutdown_def Let_def by (intro guar_intros; simp)+

end

section \<open>Requests\<close>

context permission
begin

lemma perm_reads_of_rows [guar_intros]:
  "guar G (replay k)" "guar G (replay_if_key key)" "guar G (get_or_404 i)" "guar G (get_sandbox i)"
  "guar G (api_list_sandboxes limit)"
  unfolding replay_if_key_def replay_def get_sandbox_def get_or_404_def api_list_sandboxes_def
  by (intro guar_intros; simp split: list.split, intro conjI impI allI guar_intros; simp)+

lemma perm_enqueue_start [guar_intros]: "guar G (enqueue_start S s r)"
  unfolding enqueue_start_def
  by (intro guar_intros perm_db_update) (auto simp: lawful_simps)

lemma perm_create_sandbox:
  "case key of None \<Rightarrow> True | Some k \<Rightarrow> valid_key k \<Longrightarrow> guar G (create_sandbox S s i body key)"
  unfolding create_sandbox_def Let_def
  by (intro guar_intros) (auto simp: lawful_simps new_sandbox_def valid_key_def split: option.splits)

lemma perm_post_sandboxes [guar_intros]: "guar G (post_sandboxes S s lax_int i body key)"
  unfolding post_sandboxes_def
  by (simp add: perm_create_sandbox split: option.split)

lemma perm_delete_sandbox [guar_intros]: "guar G (delete_sandbox S s i)"
  unfolding delete_sandbox_def
  by (intro guar_intros perm_db_update) (auto simp: lawful_simps)

lemma perm_endpoint [guar_intros]: "guar G (endpoint A new_id op)"
  by (cases op) (simp_all add: with_id_def, (intro guar_intros)+)

lemma perm_observe_requests [guar_intros]:
  "route_label matched \<in> set route_labels \<Longrightarrow> guar G p \<Longrightarrow> guar G (observe_requests rq fresh matched p)"
  unfolding observe_requests_def observe_end_def Let_def
  by (intro guar_intros) (use method_label_bounded in auto)

lemma perm_serve [guar_intros]: "guar G (serve A rq fresh new_id op)"
  unfolding serve_def routed_def http_exception_def
  by (intro guar_intros route_label_bounded) (simp_all split: exn.split)

lemma perm_lifespan [guar_intros]: "(\<And>st. guar G (p st)) \<Longrightarrow> guar G (lifespan X s p)"
  unfolding lifespan_def open_app_def close_app_def Let_def by (intro guar_intros)

lemma perm_process: "process S p \<Longrightarrow> guar G p"
  by (induction rule: process.induct) (intro guar_intros; simp add: docker_ctx_def)+

text \<open>So every execution of the system does, from any pool of such processes.\<close>

lemma perm_system:
  assumes "pool_steps (process S) E (w, ps) (w', ps')" "\<And>u v. E u v \<Longrightarrow> G u v" "list_all (guar G) ps"
  shows "G w w'"
  using pool_guarantee [OF assms(1) perm_process assms(2,3)] by simp

end

end
