(* ===== verification/Typed.thy ===== *)
theory Typed
  imports Permissions
begin

text \<open>
  Two type systems and their soundness. Rows: every value the program writes fits its column, and the
  status tells which of the nullable columns are set. Samples: whatever is counted or timed belongs
  to a declared family, has a value for each of its labels, and only values of the vocabulary. As
  with a typed language the proof is preservation, step by step; theory Permissions has gone
  through the steps once and for all.
\<close>

section \<open>Well-typed rows\<close>

definition typed_table :: "sandbox list \<Rightarrow> bool" where
  "typed_table rows \<longleftrightarrow> (\<forall>r \<in> set rows. well_typed r)"

definition keeps_typed :: "'e world \<Rightarrow> 'e world \<Rightarrow> bool" where
  "keeps_typed w w' \<longleftrightarrow> (typed_table (sandboxes w) \<longrightarrow> typed_table (sandboxes w'))"

lemma typed_update_rows:
  "(\<And>r. P r \<Longrightarrow> lawful r (f r)) \<Longrightarrow> typed_table rows \<Longrightarrow> typed_table (update_rows P f now rows)"
  by (auto simp: typed_table_def update_rows_def lawful_def)

interpretation typed: permission keeps_typed
proof unfold_locales
  show "keeps_typed w (w\<lparr>sandboxes := update_rows P f t (sandboxes w)\<rparr>)"
    if "\<And>r. P r \<Longrightarrow> lawful r (f r)" for w :: "'e world" and P f t
    using that by (simp add: keeps_typed_def typed_update_rows)
qed (auto simp: keeps_typed_def typed_table_def)



section \<open>Well-typed samples\<close>

definition keeps_labels :: "'e world \<Rightarrow> 'e world \<Rightarrow> bool" where
  "keeps_labels w w' \<longleftrightarrow> (list_all event_ok (emitted w) \<longrightarrow> list_all event_ok (emitted w'))"

interpretation labelled: permission keeps_labels
  by unfold_locales (auto simp: keeps_labels_def)

text \<open>The environment of a system that is observed: it neither writes to the table nor emits samples.\<close>

definition unobserved :: "'e world \<Rightarrow> 'e world \<Rightarrow> bool" where
  "unobserved w w' \<longleftrightarrow> outside w w' \<and> emitted w' = emitted w"

text \<open>Every label of every family has a vocabulary, but for the status of a request and the version.\<close>

lemma vocabulary_total:
  "list_all (\<lambda>m. metric_kind m = Gauge \<or>
     list_all (\<lambda>l. l = ''status'' \<or> vocabulary (metric_name m) l \<noteq> None) (label_names m)) REGISTRY"
  by (simp add: REGISTRY_def vocabulary_def)



end
