(* ===== verification/Jobs.thy ===== *)
theory Jobs
  imports Worker Fakes
begin

text \<open>
  What the worker's jobs (\<open>src/app/worker.py\<close>) achieve. The outcome of a job on its own row is
  proved in any environment that leaves the row alone (\<open>undisturbed\<close>): whatever Docker, the
  queue, the other rows and the clock do at every await, and whichever statements fail.
\<close>

section \<open>The helpers on an undisturbed row\<close>

lemma ensures_emit_row:
  assumes "row_is i r w" "\<And>v. row_is i r v \<Longrightarrow> Q (Inr ()) v"
  shows "ensures (undisturbed E i) (emit ev) Q w"
  using assms by (auto simp: ensures_emit undisturbed_def row_is_def)

lemma ensures_get_now_row:
  assumes "row_is i r w" "\<And>t v. row_is i r v \<Longrightarrow> Q (Inr t) v"
  shows "ensures (undisturbed E i) get_now Q w"
  using assms by (auto simp: ensures_get_now undisturbed_def row_is_def)

lemma ensures_transition:
  assumes "row_is i r w" "\<And>q. same_identity q (f q)"
    and "\<And>t v. status r \<in> S \<Longrightarrow> row_is i ((f r)\<lparr>updated_at := t\<rparr>) v \<Longrightarrow> Q (Inr True) v"
    and "\<And>v. status r \<notin> S \<Longrightarrow> row_is i r v \<Longrightarrow> Q (Inr False) v"
    and "\<And>e q v. e \<in> E \<Longrightarrow> same_identity r q \<Longrightarrow> row_is i q v \<Longrightarrow> Q (Inl e) v"
  shows "ensures (undisturbed E i) (transition i S f) Q w"
proof -
  have sid: "sid (f q) = sid q" for q using assms(2) [of q] by (simp add: same_identity_def)
  have i: "sid r = i" using assms(1) by (auto simp: row_is_def dest: find_row_sid)
  show ?thesis
    unfolding transition_def ensures_pbind
    by (rule ensures_db_update [OF assms(1) sid, where S = "\<lambda>q. status q \<in> S"])
       (use assms(2-5) i in \<open>auto simp del: One_nat_def split: if_splits\<close>)
qed

lemma ensures_discard:
  assumes "detached R" "row_is i r w" "\<And>v. row_is i r v \<Longrightarrow> Q (Inr ()) v"
    and "\<And>e v. \<not> is_Exception e \<Longrightarrow> row_is i r v \<Longrightarrow> Q (Inl e) v"
  shows "ensures (undisturbed E i) (discard R j) Q w"
  unfolding discard_def ensures_simps
  by (rule ensures_keeps_row [OF detachedD(2) [OF assms(1)] assms(2)])
     (use assms(3,4) in \<open>auto simp: ensures_simps split: sum.split\<close>)

text \<open>The same, in sequence with the rest of the job.\<close>

lemma emit_then:
  assumes "row_is i r w" "\<And>v. row_is i r v \<Longrightarrow> ensures (undisturbed E i) q Q v"
  shows "ensures (undisturbed E i) (andthen (emit ev) q) Q w"
  unfolding ensures_andthen by (rule ensures_emit_row [OF assms(1)]) (simp add: assms(2))

lemma get_now_then:
  assumes "row_is i r w" "\<And>t v. row_is i r v \<Longrightarrow> ensures (undisturbed E i) (k t) Q v"
  shows "ensures (undisturbed E i) (pbind get_now k) Q w"
  unfolding ensures_pbind by (rule ensures_get_now_row [OF assms(1)]) (simp add: assms(2))

lemma transition_then:
  assumes "row_is i r w" "\<And>q. same_identity q (f q)"
    and "\<And>t v. status r \<in> S \<Longrightarrow> row_is i ((f r)\<lparr>updated_at := t\<rparr>) v \<Longrightarrow> ensures (undisturbed E i) (k True) Q v"
    and "\<And>v. status r \<notin> S \<Longrightarrow> row_is i r v \<Longrightarrow> ensures (undisturbed E i) (k False) Q v"
    and "\<And>e q v. e \<in> E \<Longrightarrow> same_identity r q \<Longrightarrow> row_is i q v \<Longrightarrow> Q (Inl e) v"
  shows "ensures (undisturbed E i) (pbind (transition i S f) k) Q w"
  unfolding ensures_pbind by (rule ensures_transition [OF assms(1,2)]) (simp_all add: assms(3-5))

lemma transition_andthen:
  assumes "row_is i r w" "\<And>q. same_identity q (f q)" "status r \<in> S"
    and "\<And>t v. row_is i ((f r)\<lparr>updated_at := t\<rparr>) v \<Longrightarrow> ensures (undisturbed E i) k Q v"
    and "\<And>e q v. e \<in> E \<Longrightarrow> same_identity r q \<Longrightarrow> row_is i q v \<Longrightarrow> Q (Inl e) v"
  shows "ensures (undisturbed E i) (andthen (transition i S f) k) Q w"
  unfolding andthen_def by (rule transition_then [OF assms(1,2)]) (simp_all add: assms(3-5))

lemma discard_then:
  assumes "detached R" "row_is i r w" "\<And>v. row_is i r v \<Longrightarrow> ensures (undisturbed E i) q Q v"
    and "\<And>e v. \<not> is_Exception e \<Longrightarrow> row_is i r v \<Longrightarrow> Q (Inl e) v"
  shows "ensures (undisturbed E i) (andthen (discard R j) q) Q w"
  unfolding ensures_andthen by (rule ensures_discard [OF assms(1,2)]) (simp_all add: assms(3,4))

lemma observe_queue_wait_then:
  assumes "row_is i r w" "\<And>v. row_is i r v \<Longrightarrow> ensures (undisturbed E i) q Q v"
  shows "ensures (undisturbed E i) (andthen (observe_queue_wait c job) q) Q w"
  unfolding observe_queue_wait_def
  using assms by (auto simp: ensures_andthen intro!: get_now_then ensures_emit_row split: option.split)

section \<open>The outcome of a start\<close>

text \<open>
  What a start job that found its row \<open>r\<close> startable promises about the result and the row \<open>q\<close> it
  leaves: every result the job can return, and what an exception of the job means. \<open>E\<close> are the
  exceptions of the database.
\<close>

definition start_outcome :: "'e ctx \<Rightarrow> exn set \<Rightarrow> exn + string \<Rightarrow> sandbox \<Rightarrow> bool" where
  "start_outcome c E res q =
     (case res of
        Inr s \<Rightarrow>
          s = ''running'' \<and> status q = RUNNING \<and> url q \<noteq> None \<and> error q = None \<and> attempts q = int (job_try c) \<or>
          s = ''failed'' \<and> status q = FAILED \<and> error q \<noteq> None \<and> job_max_tries (ctx_settings c) \<le> int (job_try c) \<or>
          s = ''expired'' \<and> status q = STOPPED \<and> error q = Some ''expired''
      | Inl e \<Rightarrow>
          e = Retry (retry_defer_s c) \<and> status q = QUEUED \<and> error q \<noteq> None \<and>
            attempts q = int (job_try c) \<and> int (job_try c) < job_max_tries (ctx_settings c) \<or>
          e \<in> E \<or> \<not> is_Exception e)"

definition start_promise :: "'e ctx \<Rightarrow> exn set \<Rightarrow> sandbox \<Rightarrow> exn + string \<Rightarrow> 'e world \<Rightarrow> bool" where
  "start_promise c E r res v \<longleftrightarrow>
     (\<exists>q. row_is (sid r) q v \<and> same_identity r q \<and> start_outcome c E res q)"

lemma start_promise_exn:
  "e \<in> E \<or> \<not> is_Exception e \<Longrightarrow> same_identity r q \<Longrightarrow> row_is (sid r) q v \<Longrightarrow> start_promise c E r (Inl e) v"
  by (auto simp: start_promise_def start_outcome_def)

lemma launched_outcome:
  fixes c :: "'e ctx" and w :: "'e world"
  assumes "detached (ctx_runtime c)" "row_is (sid r) q w" "same_identity r q" "status q = STARTING"
    and "attempts q = int (job_try c)"
  shows "ensures (undisturbed E (sid r)) (launched c r u) (start_promise c E r) w"
  unfolding launched_def count_job_def
proof (rule transition_then [OF assms(2)], goal_cases)
  case (2 t v)
  let ?q = "q\<lparr>status := RUNNING, url := Some u, error := None, updated_at := t\<rparr>"
  have "start_promise c E r (Inr ''running'') v" if "row_is (sid r) ?q v" for v :: "'e world"
    using that assms by (auto simp: start_promise_def start_outcome_def intro!: exI [of _ ?q])
  with 2(2) show ?case by (auto intro!: emit_then get_now_then)
qed (auto simp: assms intro: start_promise_exn same_identity_trans [OF assms(3)])

lemma launch_failed_outcome:
  fixes c :: "'e ctx" and w :: "'e world"
  assumes "detached (ctx_runtime c)" "row_is (sid r) q w" "same_identity r q" "status q = STARTING"
    and "attempts q = int (job_try c)"
  shows "ensures (undisturbed E (sid r)) (launch_failed c (sid r) exc) (start_promise c E r) w"
  unfolding launch_failed_def count_job_def Let_def
proof (rule discard_then [OF assms(1,2)], goal_cases)
  case (1 v)
  have exn: "start_promise c E r (Inl e) v" if "e \<in> E" "same_identity q p" "row_is (sid r) p v"
    for e p and v :: "'e world"
    using that by (blast intro: start_promise_exn same_identity_trans [OF assms(3)])
  have retry: "start_promise c E r (Inl (Retry (retry_defer_s c))) v"
    if "row_is (sid r) (q\<lparr>status := QUEUED, error := Some x, updated_at := t\<rparr>) v"
      "int (job_try c) < job_max_tries (ctx_settings c)" for t x and v :: "'e world"
    using that assms by (auto simp: start_promise_def start_outcome_def intro!: exI)
  have failed: "start_promise c E r (Inr ''failed'') v"
    if "row_is (sid r) (q\<lparr>status := FAILED, error := Some x, updated_at := t\<rparr>) v"
      "\<not> int (job_try c) < job_max_tries (ctx_settings c)" for t x and v :: "'e world"
    using that assms by (auto simp: start_promise_def start_outcome_def intro!: exI)
  show ?case
    using 1 retry failed
    by (auto simp: assms(4) exn intro!: transition_then transition_andthen emit_then split: if_splits)
qed (auto intro: start_promise_exn assms(3))

lemma launch_phase_outcome:
  fixes c :: "'e ctx" and w :: "'e world"
  assumes "detached (ctx_runtime c)" "row_is (sid r) q w" "same_identity r q" "status q = STARTING"
    and "attempts q = int (job_try c)"
  shows "ensures (undisturbed E (sid r))
    (try_catch (asyncio_timeout T (worker_launch c r)) (launched c r) (except_Exception (launch_failed c (sid r))))
    (start_promise c E r) w"
  unfolding ensures_try_catch
proof (rule ensures_keeps_row [OF _ assms(2)], goal_cases)
  case 1
  show ?case by (intro guar_intros assms(1))
next
  case (2 res v)
  then show ?case
    using launched_outcome [OF assms(1) _ assms(3-5)] launch_failed_outcome [OF assms(1) _ assms(3-5)]
    by (auto simp: ensures_except_Exception intro: start_promise_exn assms(3) split: sum.split)
qed

lemma start_body_outcome:
  fixes c :: "'e ctx" and w :: "'e world"
  assumes "detached (ctx_runtime c)" "row_is (sid r) r w" "status r \<in> STARTABLE"
  shows "ensures (undisturbed E (sid r)) (start_body c (sid r)) (start_promise c E r) w"
  unfolding start_body_def ensures_pbind [of _ "db_get _"]
proof (rule ensures_db_get [OF assms(2)], goal_cases)
  case (1 v)
  have expired: "start_promise c E r (Inr ''expired'') v"
    if "row_is (sid r) (r\<lparr>status := STOPPED, error := Some ''expired'', updated_at := t\<rparr>) v"
    for t and v :: "'e world"
    using that by (auto simp: start_promise_def start_outcome_def intro!: exI)
  have launch: "ensures (undisturbed E (sid r))
      (try_catch (asyncio_timeout T (worker_launch c r)) (launched c r) (except_Exception (launch_failed c (sid r))))
      (start_promise c E r) v"
    if "row_is (sid r) (r\<lparr>status := STARTING, attempts := int (job_try c), updated_at := t\<rparr>) v"
    for T t and v :: "'e world"
    by (rule launch_phase_outcome [OF assms(1) that]) simp_all
  from 1 expired launch assms(3) show ?case
    by (auto simp: count_job_def intro: start_promise_exn
        intro!: get_now_then transition_then transition_andthen emit_then split: if_splits)
next
  case (2 e v)
  then show ?case by (auto intro: start_promise_exn [OF _ same_identity_refl])
qed

lemma timed_job_then:
  fixes body :: "('e world, 'a) prog"
  assumes "row_is i r w" "\<And>v. row_is i r v \<Longrightarrow> ensures (undisturbed E i) body Q v"
    and "\<And>res u v. Q res u \<Longrightarrow> undisturbed E i u v \<Longrightarrow> Q res v"
    and "\<And>res u ev. Q res u \<Longrightarrow> Q res (u\<lparr>emitted := emitted u @ [ev]\<rparr>)"
  shows "ensures (undisturbed E i) (timed_job c task body) Q w"
  unfolding timed_job_def
proof (intro observe_queue_wait_then [OF assms(1)] get_now_then, assumption)
  fix t and v :: "'e world" assume "row_is i r v"
  from assms(2) [OF this]
  show "ensures (undisturbed E i)
      (try_finally body (pbind get_now (\<lambda>now. emit (JOB_LATENCY task (deployment (ctx_settings c)) (now - t))))) Q v"
    unfolding try_finally_def ensures_try_catch
    by (rule ensures_mono) (auto simp: ensures_simps intro: assms(3,4) split: sum.split)
qed

lemma start_promise_stable:
  "start_promise c E r res u \<Longrightarrow> undisturbed E' (sid r) u v \<Longrightarrow> start_promise c E r res v"
  "start_promise c E r res u \<Longrightarrow> start_promise c E r res (u\<lparr>emitted := ev\<rparr>)"
  by (auto simp: start_promise_def undisturbed_def row_is_def)

lemma start_sandbox_outcome:
  fixes c :: "'e ctx" and w :: "'e world"
  assumes "detached (ctx_runtime c)" "row_is (sid r) r w" "status r \<in> STARTABLE"
  shows "ensures (undisturbed E (sid r)) (start_sandbox c (uuid_str (sid r))) (start_promise c E r) w"
  unfolding start_sandbox_def
  by (simp, rule timed_job_then [OF assms(2) start_body_outcome [OF assms(1) _ assms(3)]])
     (auto intro: start_promise_stable)

section \<open>The jobs alone, without faults\<close>

lemma run_transition [run_simps]:
  assumes "quiet w" "row_is i r w"
  shows "run (transition i S f) w =
    (if status r \<in> S
     then (Inr True, w\<lparr>sandboxes := update_rows (\<lambda>q. sid q = i \<and> status q \<in> S) f (clock w) (sandboxes w)\<rparr>)
     else (Inr False, w))"
proof -
  have "update_rows (\<lambda>q. sid q = i \<and> status q \<in> S) f (clock w) (sandboxes w) = sandboxes w" if "status r \<notin> S"
    using that assms(2) find_row_mem [of "sandboxes w"] by (auto simp: row_is_def intro!: update_rows_id)
  then show ?thesis
    using rowcount_row_is [OF assms(2), of "\<lambda>q. status q \<in> S"] assms(1)
    by (simp add: transition_def run_pbind run_db_update del: One_nat_def)
qed

lemma row_is_transition:
  assumes "row_is i r w" "status r \<in> S" "\<And>q. sid (f q) = sid q"
  shows "row_is i ((f r)\<lparr>updated_at := t\<rparr>) (w\<lparr>sandboxes := update_rows (\<lambda>q. sid q = i \<and> status q \<in> S) f t (sandboxes w)\<rparr>)"
  using row_is_update [OF assms(1,3), of "\<lambda>q. sid q = i \<and> status q \<in> S" t] assms(1,2)
  by (auto simp: row_is_def dest: find_row_sid split: if_splits)

lemma run_count_job [run_simps]:
  "run (count_job c task outcome) w =
     (Inr (), w\<lparr>emitted := emitted w @ [JOBS task outcome (deployment (ctx_settings c))]\<rparr>)"
  by (simp add: count_job_def run_emit)

definition queue_wait_events :: "'e ctx \<Rightarrow> string \<Rightarrow> datetime \<Rightarrow> event list" where
  "queue_wait_events c job now =
     (case enqueue_time c of
        Some t \<Rightarrow> if job_try c = 1 then [JOB_QUEUE_WAIT job (deployment (ctx_settings c)) (max 0 (now - t))] else []
      | None \<Rightarrow> [])"

lemma run_observe_queue_wait [run_simps]:
  "run (observe_queue_wait c job) w =
     (Inr (), w\<lparr>emitted := emitted w @ queue_wait_events c job (clock w)\<rparr>)"
  by (simp add: observe_queue_wait_def queue_wait_events_def run_simps split: option.split)

lemma run_timed_job [run_simps]:
  "run (timed_job c task body) w =
     (let w1 = w\<lparr>emitted := emitted w @ queue_wait_events c task (clock w)\<rparr>; (res, w2) = run body w1
      in (res, w2\<lparr>emitted := emitted w2 @ [JOB_LATENCY task (deployment (ctx_settings c)) (clock w2 - clock w)]\<rparr>))"
  by (simp add: timed_job_def run_simps Let_def split: prod.split)

lemma run_discard:
  "run (discard R i) w =
     (case run (rt_remove R i) w of (Inl e, v) \<Rightarrow> (if is_Exception e then Inr () else Inl e, v) | (Inr b, v) \<Rightarrow> (Inr (), v))"
  by (simp add: discard_def run_simps except_Exception_def split: prod.split sum.split)

section \<open>A start job settles its row\<close>

text \<open>A worker on the in-memory runtime, a queued row, and an environment that only repairs the database.\<close>

definition demo_row :: "status \<Rightarrow> sandbox" where
  "demo_row s = new_sandbox 7 HTTP s STABLE (seconds 600) None 0"

definition fake_ctx :: "(uuid \<Rightarrow> (fake world, unit) prog) \<Rightarrow> nat \<Rightarrow> fake ctx" where
  "fake_ctx during_launch n =
     \<lparr>ctx_settings = default_settings, ctx_runtime = fake_runtime during_launch, job_try = n,
      enqueue_time = Some 0, random_random = 1 / 2, random_uniform = 1 / 4\<rparr>"

lemma fake_ctx_simps [simp]:
  "ctx_settings (fake_ctx h n) = default_settings" "ctx_runtime (fake_ctx h n) = fake_runtime h"
  "job_try (fake_ctx h n) = n" "random_random (fake_ctx h n) = 1 / 2"
  "enqueue_time (fake_ctx h n) = Some 0" "random_uniform (fake_ctx h n) = 1 / 4"
  by (simp_all add: fake_ctx_def)

lemma demo_row_simps [simp]:
  "sid (demo_row s) = 7" "status (demo_row s) = s" "expires_at (demo_row s) = seconds 600"
  "created_at (demo_row s) = 0"
  by (simp_all add: demo_row_def new_sandbox_def)

lemma row_is_demo [simp]: "row_is 7 (demo_row s) (fake_world [demo_row s] now f)"
  by (simp add: row_is_def find_row_def)

lemma repairs_undisturbed [simp]: "undisturbed E i v (v\<lparr>faults := []\<rparr>)"
  by (simp add: undisturbed_def row_is_def faults_in_def)

text \<open>C1. A start job that finds its row queued (or starting, after a crash) never leaves it in between.
  In any environment that leaves the row alone, however the container runtime behaves, wherever
  the launch deadline strikes and whichever statements fail, the job ends with the row running
  (with a URL, no error and this try's number), failed (with a reason, and only on the last
  try), stopped because it expired, or queued again with the error recorded and an arq Retry
  after the back-off; any other exception is one the database raised, or a cancellation.\<close>

theorem start_job_settles_its_row:
  fixes c :: "'e ctx" and w :: "'e world"
  assumes "detached (ctx_runtime c)" "row_is (sid r) r w" "status r \<in> STARTABLE"
    and "\<And>k v. undisturbed E (sid r) v (I k v)"
  shows "\<exists>q. row_is (sid r) q (snd (run_with (start_sandbox c (uuid_str (sid r))) I k w)) \<and> same_identity r q \<and>
    start_outcome c E (fst (run_with (start_sandbox c (uuid_str (sid r))) I k w)) q"
  using run_with_ensures [where I = I, OF assms(4) start_sandbox_outcome [OF assms(1-3)]]
  unfolding start_promise_def .

theorem start_job_settles_its_row_witness:
  "\<exists>q. row_is 7 q (snd (run_with (start_sandbox (fake_ctx nothing 1) (uuid_str 7)) (\<lambda>k v. v\<lparr>faults := []\<rparr>) 0
        (fake_world [demo_row QUEUED] 0 empty_fake))) \<and>
     start_outcome (fake_ctx nothing 1) {} (fst (run_with (start_sandbox (fake_ctx nothing 1) (uuid_str 7))
        (\<lambda>k v. v\<lparr>faults := []\<rparr>) 0 (fake_world [demo_row QUEUED] 0 empty_fake))) q"
  using start_job_settles_its_row [of "fake_ctx nothing 1" "demo_row QUEUED"
      "fake_world [demo_row QUEUED] 0 empty_fake" "{}" "\<lambda>k v. v\<lparr>faults := []\<rparr>" 0, OF _ _ _ repairs_undisturbed]
  by (auto simp: STARTABLE_def)



text \<open>C14. A start that loses its row while the container comes up (a DELETE, the reaper) discards the
  container and touches nothing else: it returns \<open>cancelled\<close>, and what remains is exactly what
  removing the container leaves.\<close>

theorem cancelled_start_discards_the_container:
  assumes "quiet w" "row_is (sid r) q w" "status q \<noteq> STARTING"
    and "\<And>e v. run (rt_remove (ctx_runtime c) (sid r)) w = (Inl e, v) \<Longrightarrow> is_Exception e"
  shows "run (launched c r u) w = (Inr ''cancelled'', snd (run (rt_remove (ctx_runtime c) (sid r)) w))"
  using assms
  by (cases "run (rt_remove (ctx_runtime c) (sid r)) w")
     (auto simp: launched_def run_pbind run_andthen run_transition run_discard split: sum.split)

theorem cancelled_start_discards_the_container_witness:
  "run (launched (fake_ctx nothing 1) (demo_row QUEUED) ''http://x'')
     (fake_world [demo_row STOPPING] 0 (empty_fake\<lparr>containers := [(7, 0)]\<rparr>)) =
   (Inr ''cancelled'', fake_world [demo_row STOPPING] 0 empty_fake)"
  using cancelled_start_discards_the_container [of "fake_world [demo_row STOPPING] 0 (empty_fake\<lparr>containers := [(7, 0)]\<rparr>)"
      "demo_row QUEUED" "demo_row STOPPING" "fake_ctx nothing 1" "''http://x''"]
  by (simp add: fake_remove_def run_simps empty_fake_def fake_world_def quiet_def row_is_def find_row_def)

section \<open>The start job on a container runtime that works\<close>

definition runs_at :: "string \<Rightarrow> int \<Rightarrow> uuid \<Rightarrow> (exn + string) \<times> 'e world \<Rightarrow> bool" where
  "runs_at u n i out \<longleftrightarrow> fst out = Inr ''running'' \<and>
     (\<exists>q. row_is i q (snd out) \<and> status q = RUNNING \<and> url q = Some u \<and> error q = None \<and> attempts q = n)"

lemma row_is_emitted [simp]: "row_is i q (w\<lparr>emitted := ev\<rparr>) = row_is i q w"
  by (simp add: row_is_def)

lemma run_launched:
  assumes "quiet w" "row_is (sid r) q w" "status q = STARTING"
  shows "runs_at u (attempts q) (sid r) (run (launched c r u) w)"
proof -
  let ?f = "\<lambda>q. q\<lparr>status := RUNNING, url := Some u, error := None\<rparr>"
  have "row_is (sid r) ((?f q)\<lparr>updated_at := clock w\<rparr>)
      (w\<lparr>sandboxes := update_rows (\<lambda>q. sid q = sid r \<and> status q \<in> {STARTING}) ?f (clock w) (sandboxes w)\<rparr>)"
    by (rule row_is_transition [OF assms(2)]) (simp_all add: assms(3))
  with assms show ?thesis
    by (auto simp: launched_def run_simps runs_at_def intro!: exI)
qed

lemma run_launch_phase:
  fixes c :: "'e ctx" and w :: "'e world"
  assumes "quiet w" "row_is (sid r) q w" "status q = STARTING"
    and "detached (ctx_runtime c)" "calm (ctx_runtime c)"
    and "chaos_failure_rate (ctx_settings c) \<le> random_random c"
    and "fst (run (rt_launch (ctx_runtime c) (sid r) (expires_at r)) w) = Inr u"
  shows "runs_at u (attempts q) (sid r)
    (run (try_catch (asyncio_timeout T (worker_launch c r)) (launched c r) h) w)"
proof -
  obtain v where v: "run (worker_launch c r) w = (Inr u, v)"
    using assms(6,7) by (cases "run (rt_launch (ctx_runtime c) (sid r) (expires_at r)) w")
      (simp add: worker_launch_def)
  have "quiet v" "row_is (sid r) q v"
    using run_keeps_quiet [OF worker_helpers_quiet(3) [OF assms(5)] assms(1), of r]
      run_same_db [OF worker_helpers_frame(3) [OF assms(4)], of r w] assms(2) v
    by (simp_all add: row_is_def)
  with assms(3) v show ?thesis
    by (simp add: run_try_catch run_asyncio_timeout [OF worker_helpers_quiet(3) [OF assms(5)] assms(1)] run_launched)
qed

text \<open>The happy path: alone, without faults, with time left and a runtime that brings the
  container up at \<open>u\<close>, a start job on a startable row returns \<open>running\<close>, and the row is running
  at \<open>u\<close>, without an error, with this try's number.\<close>

theorem start_job_brings_the_sandbox_up:
  fixes c :: "'e ctx" and w :: "'e world"
  assumes "quiet w" "row_is (sid r) r w" "status r \<in> STARTABLE" "clock w < expires_at r"
    and "detached (ctx_runtime c)" "calm (ctx_runtime c)"
    and "chaos_failure_rate (ctx_settings c) \<le> random_random c"
    and "\<And>v. quiet v \<Longrightarrow> ext v = ext w \<Longrightarrow> fst (run (rt_launch (ctx_runtime c) (sid r) (expires_at r)) v) = Inr u"
  shows "runs_at u (int (job_try c)) (sid r) (run (start_sandbox c (uuid_str (sid r))) w)"
proof -
  let ?f = "\<lambda>r. r\<lparr>status := STARTING, attempts := int (job_try c)\<rparr>"
  let ?w = "w\<lparr>emitted := emitted w @ queue_wait_events c START_SANDBOX (clock w)\<rparr>"
  let ?v = "?w\<lparr>sandboxes := update_rows (\<lambda>q. sid q = sid r \<and> status q \<in> STARTABLE) ?f (clock w) (sandboxes w)\<rparr>"
  have "row_is (sid r) ((?f r)\<lparr>updated_at := clock w\<rparr>) ?v"
    using row_is_transition [of "sid r" r ?w STARTABLE ?f "clock w"] assms(2,3) by simp
  with assms have "runs_at u (int (job_try c)) (sid r) (run (try_catch
      (asyncio_timeout (launch_timeout_s (ctx_settings c)) (worker_launch c r)) (launched c r)
      (except_Exception (launch_failed c (sid r)))) ?v)"
    using run_launch_phase [of ?v r "(?f r)\<lparr>updated_at := clock w\<rparr>" c u] by simp
  with assms(1-4) show ?thesis
    by (auto simp: start_sandbox_def start_body_def run_timed_job run_pbind run_db_get run_get_now
        run_transition row_is_def runs_at_def Let_def split: prod.split)
qed

lemma run_fake_launch:
  "launch_error (ext v) = None \<Longrightarrow> run (fake_launch nothing i x) v =
     (Inr ''http://localhost:49153'', v\<lparr>ext := (ext v)\<lparr>containers := AList.update i x (containers (ext v))\<rparr>\<rparr>)"
  by (simp add: fake_launch_def nothing_def run_simps)

theorem start_job_brings_the_sandbox_up_witness:
  "runs_at ''http://localhost:49153'' 1 7
     (run (start_sandbox (fake_ctx nothing 1) (uuid_str 7)) (fake_world [demo_row QUEUED] 0 empty_fake))"
  using start_job_brings_the_sandbox_up [of "fake_world [demo_row QUEUED] 0 empty_fake" "demo_row QUEUED"
      "fake_ctx nothing 1" "''http://localhost:49153''"]
  by (simp add: STARTABLE_def run_fake_launch empty_fake_def default_settings_def seconds_def)

section \<open>Stopping\<close>

text \<open>What a stop job that finds row \<open>r\<close> leaves behind.\<close>

definition stop_outcome :: "'e ctx \<Rightarrow> exn set \<Rightarrow> sandbox \<Rightarrow> exn + string \<Rightarrow> sandbox \<Rightarrow> bool" where
  "stop_outcome c E r res q =
     (case res of
        Inr s \<Rightarrow>
          s = ''stopped'' \<and> status q = (if status r = STOPPING then STOPPED else status r) \<or>
          s = ''failed'' \<and> q = r \<and> job_max_tries (ctx_settings c) \<le> int (job_try c)
      | Inl e \<Rightarrow>
          e = Retry (retry_defer_s c) \<and> q = r \<and> int (job_try c) < job_max_tries (ctx_settings c) \<or>
          e \<in> E \<or> \<not> is_Exception e \<and> q = r)"

definition stop_promise :: "'e ctx \<Rightarrow> exn set \<Rightarrow> sandbox \<Rightarrow> exn + string \<Rightarrow> 'e world \<Rightarrow> bool" where
  "stop_promise c E r res v \<longleftrightarrow>
     (\<exists>q. row_is (sid r) q v \<and> same_identity r q \<and> stop_outcome c E r res q)"

lemma stop_body_outcome:
  fixes c :: "'e ctx" and w :: "'e world"
  assumes "detached (ctx_runtime c)" "row_is (sid r) r w"
  shows "ensures (undisturbed E (sid r)) (stop_body c (sid r)) (stop_promise c E r) w"
  unfolding stop_body_def ensures_try_catch
proof (rule ensures_keeps_row [OF detachedD(2) [OF assms(1)] assms(2)])
  fix res and v :: "'e world" assume v: "row_is (sid r) r v"
  have gone: "stop_promise c E r (Inr ''stopped'') v"
    if "row_is (sid r) q v" "same_identity r q" "status q = (if status r = STOPPING then STOPPED else status r)"
    for q and v :: "'e world"
    using that by (auto simp: stop_promise_def stop_outcome_def)
  have kept: "stop_promise c E r res v" if "row_is (sid r) r v" "stop_outcome c E r res r"
    for res and v :: "'e world"
    using that by (auto simp: stop_promise_def)
  have db: "stop_promise c E r (Inl e) v" if "e \<in> E" "same_identity r q" "row_is (sid r) q v"
    for e q and v :: "'e world"
    using that by (auto simp: stop_promise_def stop_outcome_def)
  have "ensures (undisturbed E (sid r)) (andthen (transition (sid r) {STOPPING} (\<lambda>r. r\<lparr>status := STOPPED\<rparr>))
      (andthen (count_job c STOP_SANDBOX ''success'') (Return ''stopped''))) (stop_promise c E r) v"
    unfolding count_job_def andthen_def [of "transition _ _ _"]
    by (rule transition_then [OF v]) (auto intro!: emit_then dest: gone intro: db)
  moreover have "ensures (undisturbed E (sid r)) (remove_failed c e) (stop_promise c E r) v" for e
    unfolding remove_failed_def count_job_def
    using v by (auto intro!: emit_then kept simp: stop_outcome_def)
  ultimately show "case res of
      Inl e \<Rightarrow> ensures (undisturbed E (sid r)) (except_Exception (remove_failed c) e) (stop_promise c E r) v
    | Inr a \<Rightarrow> ensures (undisturbed E (sid r)) (andthen (transition (sid r) {STOPPING} (\<lambda>r. r\<lparr>status := STOPPED\<rparr>))
        (andthen (count_job c STOP_SANDBOX ''success'') (Return ''stopped''))) (stop_promise c E r) v"
    using v by (auto simp: ensures_except_Exception stop_outcome_def intro: kept split: sum.split)
qed

lemma stop_promise_stable:
  "stop_promise c E r res u \<Longrightarrow> undisturbed E' (sid r) u v \<Longrightarrow> stop_promise c E r res v"
  "stop_promise c E r res u \<Longrightarrow> stop_promise c E r res (u\<lparr>emitted := ev\<rparr>)"
  by (auto simp: stop_promise_def undisturbed_def row_is_def)

lemma stop_sandbox_outcome:
  fixes c :: "'e ctx" and w :: "'e world"
  assumes "detached (ctx_runtime c)" "row_is (sid r) r w"
  shows "ensures (undisturbed E (sid r)) (stop_sandbox c (uuid_str (sid r))) (stop_promise c E r) w"
  unfolding stop_sandbox_def
  by (simp, rule timed_job_then [OF assms(2) stop_body_outcome [OF assms(1)]])
     (auto intro: stop_promise_stable)

text \<open>C7. A stop job settles a stopping row and is harmless on any other. In any environment that
  leaves the row alone: when the container is removed, a stopping row becomes stopped and any
  other status stays; when the removal fails, the row is exactly as it was, and the job retries
  after the back-off, or gives up on the last try.\<close>

theorem stop_job_settles_its_row:
  fixes c :: "'e ctx" and w :: "'e world"
  assumes "detached (ctx_runtime c)" "row_is (sid r) r w"
    and "\<And>k v. undisturbed E (sid r) v (I k v)"
  shows "\<exists>q. row_is (sid r) q (snd (run_with (stop_sandbox c (uuid_str (sid r))) I k w)) \<and> same_identity r q \<and>
    stop_outcome c E r (fst (run_with (stop_sandbox c (uuid_str (sid r))) I k w)) q"
  using run_with_ensures [where I = I, OF assms(3) stop_sandbox_outcome [OF assms(1,2)]]
  unfolding stop_promise_def .

theorem stop_job_settles_its_row_witness:
  "\<exists>q. row_is 7 q (snd (run_with (stop_sandbox (fake_ctx nothing 1) (uuid_str 7)) (\<lambda>k v. v\<lparr>faults := []\<rparr>) 0
        (fake_world [demo_row STOPPING] 0 empty_fake))) \<and>
     stop_outcome (fake_ctx nothing 1) {} (demo_row STOPPING)
       (fst (run_with (stop_sandbox (fake_ctx nothing 1) (uuid_str 7))
        (\<lambda>k v. v\<lparr>faults := []\<rparr>) 0 (fake_world [demo_row STOPPING] 0 empty_fake))) q"
  using stop_job_settles_its_row [of "fake_ctx nothing 1" "demo_row STOPPING"
      "fake_world [demo_row STOPPING] 0 empty_fake" "{}" "\<lambda>k v. v\<lparr>faults := []\<rparr>" 0, OF _ _ repairs_undisturbed]
  by auto

section \<open>The same job delivered twice, at the same time\<close>

text \<open>What happens while the first delivery launches: the second runs from start to end.\<close>

definition second_delivery :: "uuid \<Rightarrow> (fake world, unit) prog" where
  "second_delivery i = pbind (start_sandbox (fake_ctx nothing 2) (uuid_str i)) (\<lambda>_. Return ())"

lemma start_sandbox_quiet [guar_intros]:
  "calm (ctx_runtime c) \<Longrightarrow> guar keeps_quiet (start_sandbox c arg)"
  unfolding start_sandbox_def timed_job_def start_body_def launch_failed_def launched_def
  by (intro guar_intros | assumption)+

lemma fake_calm [intro]: "(\<And>i. guar keeps_quiet (h i)) \<Longrightarrow> calm (fake_runtime h)"
  unfolding calm_def fake_runtime_simps fake_launch_def fake_remove_def fake_list_sandboxes_def
  by (intro conjI allI guar_intros)

lemma second_delivery_quiet [simp]: "guar keeps_quiet (second_delivery i)"
  unfolding second_delivery_def by (intro guar_intros) simp

lemma run_fake_launch_timeout:
  assumes "quiet w" "\<And>i. guar keeps_quiet (h i)"
  shows "run (asyncio_timeout T (worker_launch (fake_ctx h n) r)) w = run (fake_launch h (sid r) (expires_at r)) w"
proof -
  have "calm (ctx_runtime (fake_ctx h n))" using assms(2) by auto
  from run_asyncio_timeout [OF worker_helpers_quiet(3) [OF this] assms(1)]
  show ?thesis by (simp add: worker_launch_def default_settings_def)
qed

lemma run_second_delivery:
  "run (second_delivery i) w = (case run (start_sandbox (fake_ctx nothing 2) (uuid_str i)) w of
     (Inl e, v) \<Rightarrow> (Inl e, v) | (Inr a, v) \<Rightarrow> (Inr (), v))"
  by (simp add: second_delivery_def run_pbind split: prod.split sum.split)

lemma run_fake_launch_hook:
  "launch_error (ext v) = None \<Longrightarrow> run (fake_launch h i x) v =
     (case run (h i) (v\<lparr>ext := (ext v)\<lparr>containers := AList.update i x (containers (ext v))\<rparr>\<rparr>) of
        (Inl e, u) \<Rightarrow> (Inl e, u) | (Inr a, u) \<Rightarrow> (Inr ''http://localhost:49153'', u))"
  by (simp add: fake_launch_def run_simps split: prod.split sum.split)

lemma nothing_simps [simp]: "guar keeps_quiet (nothing i)" "run (nothing i) w = (Inr (), w)"
  by (simp_all add: nothing_def)

lemmas scenario_simps = run_simps run_fake_launch_timeout run_fake_launch start_sandbox_def start_body_def
  launched_def transition_def update_rows_def find_row_def STARTABLE_def run_discard fake_remove_def
  empty_fake_def queue_wait_events_def Let_def


end
