(* ===== verification/Producer.thy ===== *)
theory Producer
  imports Api Fakes "HOL-Library.Multiset"
begin

text \<open>
  What the sandbox API (\<open>src/app/routes/sandboxes.py\<close>) promises its callers: idempotent creation,
  the cap, intent recorded before work is queued, the branches of DELETE, and the listing.
\<close>

section \<open>POST without interference\<close>

definition with_key :: "string \<Rightarrow> sandbox list \<Rightarrow> sandbox option" where
  "with_key k = find (\<lambda>r. idempotency_key r = Some k)"

lemma run_replay [run_simps]:
  "quiet w \<Longrightarrow> run (replay k) w =
     (case with_key k (sandboxes w) of
        None \<Rightarrow> (Inr None, w)
      | Some r \<Rightarrow> (Inr (Some (accepted r, True)),
          w\<lparr>emitted := emitted w @ [JOBS_ENQUEUED START_SANDBOX ''deduplicated'' (pool r)]\<rparr>))"
  by (simp add: replay_def run_simps with_key_def find_filter split: list.split)

lemma run_replay_if_key [run_simps]:
  "quiet w \<Longrightarrow> run (replay_if_key key) w =
     (case key of None \<Rightarrow> (Inr None, w) | Some k \<Rightarrow> if k = [] then (Inr None, w) else run (replay k) w)"
  by (simp add: replay_if_key_def split: option.split)

definition active_count :: "sandbox list \<Rightarrow> int" where
  "active_count rows = int (length (filter (\<lambda>r. status r \<in> ACTIVE_STATUSES) rows))"

text \<open>Nothing to replay: no key, or no row with it.\<close>

definition fresh_key :: "string option \<Rightarrow> sandbox list \<Rightarrow> bool" where
  "fresh_key key rows \<longleftrightarrow> (\<forall>k. key = Some k \<longrightarrow> k \<noteq> [] \<and> with_key k rows = None)"

lemma run_replay_fresh:
  "quiet w \<Longrightarrow> fresh_key key (sandboxes w) \<Longrightarrow> run (replay_if_key key) w = (Inr None, w)"
  by (auto simp: run_replay_if_key run_replay fresh_key_def split: option.split)

lemma fresh_insert:
  assumes "fresh_key key rows" "find_row i rows = None"
  shows "\<not> violates_unique (new_sandbox i t s d x key now) rows"
  using assms unfolding violates_unique_def fresh_key_def with_key_def find_row_def
  by (auto simp: find_None_iff_set new_sandbox_def)

text \<open>The pool a new sandbox is routed to, as Redis stands.\<close>

definition chosen_pool :: "uuid \<Rightarrow> (string \<rightharpoonup> string) \<Rightarrow> deployment" where
  "chosen_pool i m =
     (case m WEIGHT_KEY of None \<Rightarrow> STABLE
      | Some s \<Rightarrow> (case py_int 10 s of Inl _ \<Rightarrow> STABLE | Inr n \<Rightarrow> route i (clamp_weight n)))"

lemma run_pick: "quiet w \<Longrightarrow> run (pick_deployment i t) w = (Inr (chosen_pool i (redis w)), w)"
  by (simp add: run_pick_deployment chosen_pool_def)

definition keyed_row :: "status \<Rightarrow> sandbox" where
  "keyed_row s = new_sandbox 7 HTTP s STABLE (seconds 600) (Some ''k'') 0"

lemma keyed_row_simps [simp]:
  "sid (keyed_row s) = 7" "status (keyed_row s) = s" "idempotency_key (keyed_row s) = Some ''k''"
  "pool (keyed_row s) = STABLE"
  by (simp_all add: keyed_row_def new_sandbox_def)

definition demo_body :: sandbox_create where
  "demo_body = \<lparr>create_type = HTTP, ttl_s = 600\<rparr>"

text \<open>A retried POST is a replay: when a row has the request's idempotency key, the answer is that
  row's, marked as replayed, and nothing else happens: no second row, no job, whatever the row's
  status, and even at capacity.\<close>

theorem post_with_known_key_replays:
  assumes "quiet w" "with_key k (sandboxes w) = Some r" "k \<noteq> []"
  shows "run (create_sandbox S s i body (Some k)) w =
    (Inr (accepted r, True),
     w\<lparr>emitted := emitted w @ [JOBS_ENQUEUED START_SANDBOX ''deduplicated'' (pool r)]\<rparr>)"
  using assms by (simp add: create_sandbox_def run_simps)

theorem post_with_known_key_replays_witness:
  "fst (run (create_sandbox stub_services (default_settings\<lparr>sandbox_max_active := 0\<rparr>) 9 demo_body (Some ''k''))
     (stub_world [keyed_row FAILED] 0)) = Inr (accepted (keyed_row FAILED), True)"
  using post_with_known_key_replays [of "stub_world [keyed_row FAILED] 0" "''k''" "keyed_row FAILED"
      stub_services "default_settings\<lparr>sandbox_max_active := 0\<rparr>" 9 demo_body]
  by (simp add: with_key_def)

text \<open>The cap holds without side effects: with nothing to replay and as many active sandboxes as
  allowed, a POST raises 429 with \<open>Retry-After: 30\<close> and changes nothing.\<close>

theorem post_at_capacity_is_refused:
  assumes "quiet w" "fresh_key key (sandboxes w)" "sandbox_max_active s \<le> active_count (sandboxes w)"
  shows "run (create_sandbox S s i body key) w = (Inl (capacity_429 s), w)"
  using assms by (simp add: create_sandbox_def run_pbind run_db_select run_replay_fresh active_count_def)

theorem post_at_capacity_is_refused_witness:
  "run (create_sandbox stub_services (default_settings\<lparr>sandbox_max_active := 1\<rparr>) 9 demo_body None)
     (stub_world [keyed_row STARTING] 0) =
   (Inl (capacity_429 (default_settings\<lparr>sandbox_max_active := 1\<rparr>)), stub_world [keyed_row STARTING] 0)"
  using post_at_capacity_is_refused [of "stub_world [keyed_row STARTING] 0" None
      "default_settings\<lparr>sandbox_max_active := 1\<rparr>" stub_services 9 demo_body]
  by (simp add: fresh_key_def active_count_def)

text \<open>The world after the insert, and after the call of the queue.\<close>

definition inserted :: "sandbox \<Rightarrow> 'e world \<Rightarrow> 'e world" where
  "inserted r w = w\<lparr>sandboxes := sandboxes w @ [r], emitted := emitted w @ [Inserted (sid r)]\<rparr>"

definition requested :: "uuid \<Rightarrow> sandbox_create \<Rightarrow> string option \<Rightarrow> 'e world \<Rightarrow> sandbox" where
  "requested i body key w =
     new_sandbox i (create_type body) QUEUED (chosen_pool i (redis w)) (clock w + seconds (ttl_s body)) key (clock w)"

lemma run_create_admitted:
  assumes "quiet w" "fresh_key key (sandboxes w)" "active_count (sandboxes w) < sandbox_max_active s"
    and "find_row i (sandboxes w) = None"
  shows "run (create_sandbox S s i body key) w =
    run (enqueue_start S s (requested i body key w)) (inserted (requested i body key w) w)"
  using assms fresh_insert [OF assms(2,4)]
  by (simp add: create_sandbox_def run_pbind run_try_catch run_db_select run_get_now run_db_insert run_pick
      run_replay_fresh active_count_def requested_def inserted_def Let_def)

text \<open>C10. An admitted POST records before it queues: with nothing to replay, room under the cap, a fresh
  id and a queue that takes the job, exactly one row is added, queued, with its expiry \<open>ttl_s\<close>
  from now and in the pool the weight routes it to; its insert is committed before the job is
  sent to that pool's queue; the answer is the row's.\<close>

theorem post_creates_one_queued_row:
  assumes "quiet w" "fresh_key key (sandboxes w)" "active_count (sandboxes w) < sandbox_max_active s"
    and "find_row i (sandboxes w) = None" "r = requested i body key w"
    and "enqueue_job S START_SANDBOX (uuid_str i) (sandbox_job_id START_SANDBOX i) (QUEUES (pool r)) (ext w) = (Inr created, x)"
  shows "run (create_sandbox S s i body key) w =
    (Inr (accepted r, False),
     w\<lparr>sandboxes := sandboxes w @ [r], ext := x,
       emitted := emitted w @ [Inserted i, Sent START_SANDBOX i (pool r), JOBS_ENQUEUED START_SANDBOX ''enqueued'' (pool r)]\<rparr>)"
proof -
  have "sid r = i" by (simp add: assms(5) requested_def new_sandbox_def)
  with assms show ?thesis
    by (simp add: run_create_admitted enqueue_start_def inserted_def run_simps)
qed

theorem post_creates_one_queued_row_witness:
  "map status (sandboxes (snd (run (create_sandbox stub_services default_settings 9 demo_body (Some ''j''))
     (stub_world [keyed_row RUNNING] 5)))) = [RUNNING, QUEUED]"
  using post_creates_one_queued_row [of "stub_world [keyed_row RUNNING] 5" "Some ''j''" default_settings 9
      "requested 9 demo_body (Some ''j'') (stub_world [keyed_row RUNNING] 5)" demo_body stub_services True]
  by (simp add: fresh_key_def with_key_def active_count_def default_settings_def find_row_def
      stub_enqueue_def empty_stub_def requested_def new_sandbox_def chosen_pool_def)

text \<open>C11. A POST whose job cannot be queued never leaves a row that looks queued: the row is marked
  failed with the class of the exception, and the caller gets 503.\<close>

theorem post_with_dead_queue_fails_visibly:
  assumes "quiet w" "fresh_key key (sandboxes w)" "active_count (sandboxes w) < sandbox_max_active s"
    and "find_row i (sandboxes w) = None" "r = requested i body key w"
    and "enqueue_job S START_SANDBOX (uuid_str i) (sandbox_job_id START_SANDBOX i) (QUEUES (pool r)) (ext w) = (Inl e, x)"
    and "is_Exception e"
  shows "run (create_sandbox S s i body key) w =
    (Inl sandboxes_503,
     w\<lparr>sandboxes := sandboxes w @ [r\<lparr>status := FAILED, error := Some (''enqueue: '' @ exn_name e), updated_at := clock w\<rparr>],
       ext := x,
       emitted := emitted w @ [Inserted i, Sent START_SANDBOX i (pool r), JOBS_ENQUEUED START_SANDBOX ''error'' (pool r)]\<rparr>)"
proof -
  have sid: "sid r = i" by (simp add: assms(5) requested_def new_sandbox_def)
  have "update_rows (\<lambda>q. sid q = i) f t (sandboxes w @ [r]) = sandboxes w @ [(f r)\<lparr>updated_at := t\<rparr>]" for f t
    using assms(4) sid by (auto simp: update_rows_def find_row_None image_iff intro!: map_idI)
  with assms sid show ?thesis
    by (simp add: run_create_admitted enqueue_start_def inserted_def run_simps)
qed

definition dead_queue :: "stub services" where
  "dead_queue = stub_services\<lparr>enqueue_job := (\<lambda>f arg i q x. (Inl (Err TimeoutError []), x))\<rparr>"

theorem post_with_dead_queue_fails_visibly_witness:
  "map (\<lambda>r. (status r, error r)) (sandboxes (snd (run (create_sandbox dead_queue default_settings 9 demo_body None)
     (stub_world [] 5)))) = [(FAILED, Some ''enqueue: TimeoutError'')]"
  using post_with_dead_queue_fails_visibly [of "stub_world [] 5" None default_settings 9
      "requested 9 demo_body None (stub_world [] 5)" demo_body dead_queue "Err TimeoutError []"]
  by (simp add: fresh_key_def active_count_def default_settings_def find_row_def dead_queue_def)

section \<open>DELETE\<close>

lemma run_get_or_404 [run_simps]:
  "quiet w \<Longrightarrow> run (get_or_404 i) w =
     (case find_row i (sandboxes w) of None \<Rightarrow> Inl (HTTPException 404 ''sandbox not found'' []) | Some r \<Rightarrow> Inr r, w)"
  by (simp add: get_or_404_def run_simps split: option.split)

text \<open>What DELETE does, branch by branch, as one function of the row it finds.\<close>

definition stopping :: "uuid \<Rightarrow> 'e world \<Rightarrow> 'e world" where
  "stopping i w = w\<lparr>sandboxes := update_rows (\<lambda>q. sid q = i \<and> status q \<in> ACTIVE_STATUSES) (\<lambda>q. q\<lparr>status := STOPPING\<rparr>)
     (clock w) (sandboxes w)\<rparr>"

definition delete_spec :: "'e services \<Rightarrow> uuid \<Rightarrow> 'e world \<Rightarrow> (exn + sandbox) \<times> 'e world" where
  "delete_spec S i w =
     (case find_row i (sandboxes w) of
        None \<Rightarrow> (Inl (HTTPException 404 ''sandbox not found'' []), w)
      | Some r \<Rightarrow>
          if terminal (status r) then (Inr r, w)
          else let d = chosen_pool i (redis w);
                   (answer, x) = enqueue_job S STOP_SANDBOX (uuid_str i) (sandbox_job_id STOP_SANDBOX i) (QUEUES d) (ext w);
                   outcome = (case answer of Inl _ \<Rightarrow> ''error'' | Inr _ \<Rightarrow> ''enqueued'')
               in (case answer of Inl _ \<Rightarrow> Inl sandboxes_503
                                | Inr _ \<Rightarrow> Inr (r\<lparr>status := STOPPING, updated_at := clock w\<rparr>),
                   (stopping i w)\<lparr>ext := x,
                     emitted := emitted w @ [Sent STOP_SANDBOX i d, JOBS_ENQUEUED STOP_SANDBOX outcome d]\<rparr>))"

text \<open>C9. DELETE alone does what its contract says on every branch: 404 for an unknown id; a stopped or
  failed sandbox comes back unchanged and nothing is written or queued; any other becomes
  stopping and its stop job is sent to the pool of the current weight (again, when it was
  stopping already); when the queue refuses, the caller gets 503 and the row stays stopping.\<close>

theorem delete_follows_its_contract:
  assumes "quiet w"
    and "\<And>d e. fst (enqueue_job S STOP_SANDBOX (uuid_str i) (sandbox_job_id STOP_SANDBOX i) (QUEUES d) (ext w)) = Inl e \<Longrightarrow> is_Exception e"
  shows "run (delete_sandbox S s i) w = delete_spec S i w"
proof (cases "find_row i (sandboxes w)")
  case None
  with assms show ?thesis by (simp add: delete_sandbox_def delete_spec_def run_simps)
next
  case (Some r)
  note [simp] = find_row_sid [OF Some]
  let ?d = "chosen_pool i (redis w)"
  obtain answer x where ans: "enqueue_job S STOP_SANDBOX (uuid_str i) (sandbox_job_id STOP_SANDBOX i) (QUEUES ?d) (ext w) = (answer, x)"
    by fastforce
  with assms(2) [of ?d] have "answer = Inl e \<Longrightarrow> is_Exception e" for e by simp
  with assms(1) Some ans show ?thesis
    by (cases answer)
       (auto simp: delete_sandbox_def delete_spec_def stopping_def run_pbind run_andthen run_try_catch run_emit
        run_get_or_404 run_db_update run_db_get run_enqueue run_pick find_row_update_rows Let_def)
qed

theorem delete_follows_its_contract_witness:
  "map status (sandboxes (snd (run (delete_sandbox stub_services default_settings 7)
     (stub_world [keyed_row RUNNING] 5)))) = [STOPPING]"
  using delete_follows_its_contract [of "stub_world [keyed_row RUNNING] 5" stub_services 7 default_settings]
  by (simp add: delete_spec_def find_row_def stub_enqueue_def empty_stub_def chosen_pool_def stopping_def
      update_rows_def)

section \<open>Listing\<close>

lemma newest_first_sorted: "sorted_wrt (\<lambda>p q. created_at q \<le> created_at p) (newest_first rows)"
  using sorted_sort_key [of "\<lambda>r. - created_at r" rows]
  by (simp add: newest_first_def sorted_wrt_map)

text \<open>C15. The listing returns the newest sandboxes: at most \<open>limit\<close> of them, each a row of the table,
  newest first, and every row it leaves out is at least as old as every row it returns (and it
  leaves none out when the limit allows).\<close>

theorem list_returns_the_newest:
  assumes "quiet w" "0 \<le> limit"
  shows "\<exists>out. run (api_list_sandboxes limit) w = (Inr out, w) \<and>
    int (length out) = min limit (int (length (sandboxes w))) \<and>
    sorted_wrt (\<lambda>p q. created_at q \<le> created_at p) out \<and>
    (\<exists>rest. mset (out @ rest) = mset (sandboxes w) \<and>
       (\<forall>p \<in> set out. \<forall>q \<in> set rest. created_at q \<le> created_at p))"
proof -
  let ?rows = "newest_first (sandboxes w)"
  let ?out = "take (nat limit) ?rows" and ?rest = "drop (nat limit) ?rows"
  have "sorted_wrt (\<lambda>p q. created_at q \<le> created_at p) (?out @ ?rest)"
    by (simp add: newest_first_sorted)
  then have "sorted_wrt (\<lambda>p q. created_at q \<le> created_at p) ?out"
    "\<forall>p \<in> set ?out. \<forall>q \<in> set ?rest. created_at q \<le> created_at p"
    unfolding sorted_wrt_append by blast+
  moreover have "mset (?out @ ?rest) = mset (sandboxes w)"
    by (simp add: newest_first_def del: mset_append)
  moreover have "int (length ?out) = min limit (int (length (sandboxes w)))"
    using assms(2) by (simp add: newest_first_def min_def) linarith
  ultimately show ?thesis
    using assms(1) by (intro exI [of _ ?out] conjI exI [of _ ?rest]) (simp_all add: api_list_sandboxes_def run_simps)
qed

theorem list_returns_the_newest_witness:
  "\<exists>out. run (api_list_sandboxes 1) (stub_world [keyed_row RUNNING, keyed_row FAILED] 0) =
     (Inr out, stub_world [keyed_row RUNNING, keyed_row FAILED] 0) \<and> length out = 1"
  using list_returns_the_newest [of "stub_world [keyed_row RUNNING, keyed_row FAILED] 0" 1] by auto

section \<open>Concurrent requests with one idempotency key\<close>

text \<open>
  The rely of a request on the table is \<open>db_evolves\<close>: others make it evolve legally; which
  statements fail, and everything else, is left open.
\<close>

definition key_row :: "string \<Rightarrow> uuid \<Rightarrow> 'e world \<Rightarrow> bool" where
  "key_row k i v \<longleftrightarrow> table_ok (sandboxes v) \<and>
     (\<exists>r. find_row i (sandboxes v) = Some r \<and> idempotency_key r = Some k)"

lemma key_row_stable: "db_evolves u v \<Longrightarrow> key_row k i u \<Longrightarrow> key_row k i v"
  unfolding key_row_def db_evolves_def evolves_def same_identity_def by fastforce

lemma table_ok_stable: "db_evolves u v \<Longrightarrow> table_ok (sandboxes u) \<Longrightarrow> table_ok (sandboxes v)"
  by (simp add: db_evolves_def evolves_def)

lemma key_row_simps [simp]:
  "key_row k i (v\<lparr>faults := fs\<rparr>) = key_row k i v" "key_row k i (v\<lparr>emitted := ev\<rparr>) = key_row k i v"
  by (simp_all add: key_row_def)

lemma key_row_mem:
  "table_ok (sandboxes v) \<Longrightarrow> r \<in> set (sandboxes v) \<Longrightarrow> idempotency_key r = Some k \<Longrightarrow> key_row k (sid r) v"
  by (auto simp: key_row_def table_ok_def unique_keys_def intro: find_row_mem)

text \<open>The answer of a request names a row that carries its key.\<close>

definition names_key :: "string \<Rightarrow> exn + create_response \<Rightarrow> 'e world \<Rightarrow> bool" where
  "names_key k res v \<longleftrightarrow> table_ok (sandboxes v) \<and> (\<forall>a b. res = Inr (a, b) \<longrightarrow> key_row k (acc_sandbox_id a) v)"

lemma db_evolves_simps [simp]:
  "db_evolves (v\<lparr>faults := fs\<rparr>) u = db_evolves v u" "db_evolves v (u\<lparr>emitted := ev\<rparr>) = db_evolves v u"
  "db_evolves (v\<lparr>emitted := ev\<rparr>) u = db_evolves v u"
  by (simp_all add: db_evolves_def)

lemma filter_Cons_mem: "filter P xs = y # ys \<Longrightarrow> y \<in> set xs \<and> P y"
  by (metis filter_eq_ConsD in_set_conv_decomp)

lemma ensures_replay:
  assumes "table_ok (sandboxes w)"
  shows "ensures db_evolves (replay k)
    (\<lambda>res v. table_ok (sandboxes v) \<and> (\<forall>a b. res = Inr (Some (a, b)) \<longrightarrow> key_row k (acc_sandbox_id a) v)) w"
proof -
  have row: "key_row k (sid r) u"
    if "filter (\<lambda>r. idempotency_key r = Some k) (sandboxes v) = r # rs" "table_ok (sandboxes v)" "db_evolves v u"
    for r rs and u v :: "'a world"
    using filter_Cons_mem [OF that(1)] that(2) key_row_mem key_row_stable [OF that(3)] by blast
  show ?thesis
    unfolding replay_def db_select_def ensures_simps
    using assms
    by (auto simp: Let_def ensures_simps accepted_def split: fault.split list.split
        dest: table_ok_stable intro: row)
qed

lemma ensures_table_ok:
  assumes "guar db_evolves p" "table_ok (sandboxes w)" "\<And>res v. table_ok (sandboxes v) \<Longrightarrow> Q res v"
  shows "ensures db_evolves p Q w"
  by (rule ensures_frame [where P = "\<lambda>v. table_ok (sandboxes v)" and G = db_evolves])
     (use assms in \<open>auto intro: table_ok_stable\<close>)

lemma table_ok_bind:
  assumes "table_ok (sandboxes w)" "guar db_evolves p" "\<And>e v. table_ok (sandboxes v) \<Longrightarrow> Q (Inl e) v"
    and "\<And>a v. table_ok (sandboxes v) \<Longrightarrow> ensures db_evolves (k a) Q v"
  shows "ensures db_evolves (pbind p k) Q w"
  unfolding ensures_pbind by (rule ensures_table_ok [OF assms(2,1)]) (auto intro: assms(3,4) split: sum.split)

lemma ensures_key_row:
  assumes "guar db_evolves p" "key_row k i w" "\<And>res v. key_row k i v \<Longrightarrow> Q res v"
  shows "ensures db_evolves p Q w"
  by (rule ensures_frame [where P = "key_row k i" and G = db_evolves])
     (use assms in \<open>auto intro: key_row_stable\<close>)

lemma ensures_insert_key:
  assumes "table_ok (sandboxes w)" "row_ok r" "idempotency_key r = Some k"
  shows "ensures db_evolves (db_insert r)
    (\<lambda>res v. table_ok (sandboxes v) \<and> (res = Inr () \<longrightarrow> key_row k (sid r) v)) w"
proof -
  have ins: "key_row k (sid r) u"
    if "table_ok (sandboxes v)" "\<not> violates_unique r (sandboxes v)" "sandboxes u = sandboxes v @ [r]"
    for u v :: "'a world"
    using evolves_insert [OF that(2) assms(2)] that assms(3)
    by (intro key_row_mem) (auto simp: evolves_def)
  have ok: "table_ok (rows @ [r])" if "table_ok rows" "\<not> violates_unique r rows" for rows
    using evolves_insert [OF that(2) assms(2)] that(1) by (simp add: evolves_def)
  show ?thesis
    unfolding db_insert_def ensures_simps
    using assms(1) by (auto simp: Let_def ok split: fault.split dest: table_ok_stable intro: ins)
qed

lemma enqueue_start_names_key:
  assumes "key_row k (sid r) w"
  shows "ensures db_evolves (enqueue_start S s r) (names_key k) w"
proof -
  have "ensures db_evolves (enqueue_start S s r) (\<lambda>res v. \<forall>a b. res = Inr (a, b) \<longrightarrow> a = accepted r) w"
    unfolding enqueue_start_def
    by (auto simp: ensures_simps intro!: ensures_always split: sum.split)
  moreover have "ensures db_evolves (enqueue_start S s r) (\<lambda>res v. key_row k (sid r) v) w"
    by (rule ensures_key_row [OF enqueue_start_evolves assms])
  ultimately show ?thesis
    by (rule ensures_mono [OF ensures_conj]) (auto simp: names_key_def key_row_def accepted_def)
qed

lemma create_sandbox_names_key:
  fixes w :: "'e world"
  assumes "table_ok (sandboxes w)" "k \<noteq> []"
  shows "ensures db_evolves (create_sandbox S s i body (Some k)) (names_key k) w"
proof -
  have bad: "names_key k (Inl e) v" if "table_ok (sandboxes v)" for e and v :: "'e world"
    using that by (simp add: names_key_def)
  have replay: "replay_if_key (Some k) = replay k" using assms(2) by (simp add: replay_if_key_def)
  let ?r = "\<lambda>d now created. new_sandbox i (create_type body) QUEUED d (now + seconds (ttl_s body)) (Some k) created"
  have row: "row_ok (?r d now created)" "idempotency_key (?r d now created) = Some k" for d now created
    by (simp_all add: new_sandbox_def row_ok_def)
  have again: "ensures db_evolves (pbind (replay k) (\<lambda>found. case found of Some answer \<Rightarrow> Return answer | None \<Rightarrow> Raise e)) (names_key k) v"
    if "table_ok (sandboxes v)" for e and v :: "'e world"
    unfolding ensures_pbind
    by (rule ensures_mono [OF ensures_replay [OF that]])
       (auto simp: names_key_def split: sum.split option.split)
  have tail: "ensures db_evolves (try_catch (db_insert (?r d now created)) (\<lambda>_. enqueue_start S s (?r d now created))
      (\<lambda>e. if is_class IntegrityError e
           then pbind (replay k) (\<lambda>found. case found of Some answer \<Rightarrow> Return answer | None \<Rightarrow> Raise e)
           else Raise e)) (names_key k) v"
    if "table_ok (sandboxes v)" for d now created and v :: "'e world"
    unfolding ensures_try_catch
    by (rule ensures_mono [OF ensures_insert_key [OF that row]])
       (auto intro: enqueue_start_names_key again bad split: sum.split)
  have fresh: "ensures db_evolves
      (pbind (db_select (\<lambda>r. status r \<in> ACTIVE_STATUSES)) (\<lambda>active.
       if sandbox_max_active s \<le> int (length active) then Raise (capacity_429 s)
       else pbind (pick_deployment i (redis_timeout_s s)) (\<lambda>d. pbind get_now (\<lambda>now. pbind get_now (\<lambda>created.
         try_catch (db_insert (?r d now created)) (\<lambda>_. enqueue_start S s (?r d now created))
           (\<lambda>e. if is_class IntegrityError e
                then pbind (replay k) (\<lambda>found. case found of Some answer \<Rightarrow> Return answer | None \<Rightarrow> Raise e)
                else Raise e)))))) (names_key k) v"
    if "table_ok (sandboxes v)" for v :: "'e world"
    by (rule table_ok_bind [OF that])
       (auto intro!: table_ok_bind guar_intros tail bad)
  show ?thesis
    unfolding create_sandbox_def replay ensures_pbind [of _ "replay k"] Let_def
    by (rule ensures_mono [OF ensures_replay [OF assms(1)]])
       (auto simp: names_key_def intro: fresh bad split: sum.split option.split)
qed

lemma unique_key_row:
  assumes "unique_keys rows" "r \<in> set rows" "q \<in> set rows"
    and "idempotency_key r = Some k" "idempotency_key q = Some k"
  shows "r = q"
proof -
  let ?some = "filter (\<lambda>r. idempotency_key r \<noteq> None) rows"
  have "filter (\<lambda>k. k \<noteq> None) (map idempotency_key rows) = map idempotency_key ?some"
    by (simp add: filter_map comp_def)
  with assms(1) have "inj_on idempotency_key (set ?some)"
    by (simp add: unique_keys_def distinct_map)
  from inj_onD [OF this, of r q] assms show ?thesis by simp
qed

lemma key_row_unique: "key_row k i v \<Longrightarrow> key_row k j v \<Longrightarrow> i = j"
  unfolding key_row_def table_ok_def by (metis find_row_in find_row_sid unique_key_row)

text \<open>C5. Whatever interferes, two POSTs with one idempotency key that both succeed name the same
  sandbox. Each request may run among any other requests, jobs and sweeps, any statement of it
  may fail, and the second answer may come arbitrarily long after the first.\<close>

theorem one_sandbox_per_idempotency_key:
  assumes "table_ok (sandboxes w)" "k \<noteq> []" "\<And>n v. db_evolves v (I n v)" "\<And>n v. db_evolves v (J n v)"
    and "run_with (create_sandbox S s i body (Some k)) I 0 w = (Inr (a, b), u)"
    and "db_evolves u v"
    and "run_with (create_sandbox S s j body' (Some k)) J 0 v = (Inr (a', b'), u')"
  shows "acc_sandbox_id a = acc_sandbox_id a'"
proof -
  have key: "key_row k (acc_sandbox_id a) u"
    using run_with_ensures [where I = I and i = 0, OF assms(3) create_sandbox_names_key [where S = S and s = s and i = i and body = body, OF assms(1,2)]] assms(5)
    by (simp add: names_key_def)
  have v: "table_ok (sandboxes v)"
    using key_row_stable [OF assms(6) key] by (simp add: key_row_def)
  have "db_evolves v u'"
    using db.run_with_guarantee [of J, OF assms(4) create_sandbox_evolves] assms(7) by (metis snd_conv)
  with assms(6) have "key_row k (acc_sandbox_id a) u'"
    by (intro key_row_stable [OF _ key]) (rule db.G_trans)
  moreover have "key_row k (acc_sandbox_id a') u'"
    using run_with_ensures [where I = J and i = 0, OF assms(4) create_sandbox_names_key [where S = S and s = s and i = j and body = body', OF v assms(2)]] assms(7)
    by (simp add: names_key_def)
  ultimately show ?thesis
    by (rule key_row_unique)
qed

definition first_post :: "stub world \<Rightarrow> (exn + create_response) \<times> stub world" where
  "first_post w = run_with (create_sandbox stub_services default_settings 9 demo_body (Some ''k'')) (\<lambda>_ v. v) 0 w"

definition second_post :: "stub world \<Rightarrow> (exn + create_response) \<times> stub world" where
  "second_post w = run_with (create_sandbox stub_services default_settings 8 demo_body (Some ''k'')) (\<lambda>_ v. v) 0 w"

definition first_row :: sandbox where
  "first_row = requested 9 demo_body (Some ''k'') (stub_world [] 0)"

lemma first_row: "sid first_row = 9" "idempotency_key first_row = Some ''k''"
  by (simp_all add: first_row_def requested_def new_sandbox_def)

lemma demo_first: "\<exists>u. first_post (stub_world [] 0) = (Inr (accepted first_row, False), u) \<and> quiet u \<and> sandboxes u = [first_row]"
proof -
  have "run (create_sandbox stub_services default_settings 9 demo_body (Some ''k'')) (stub_world [] 0) =
      run (enqueue_start stub_services default_settings first_row) (inserted first_row (stub_world [] 0))"
    unfolding first_row_def
    by (rule run_create_admitted) (simp_all add: fresh_key_def with_key_def active_count_def find_row_def default_settings_def)
  then show ?thesis
    by (simp add: first_post_def run_with_id enqueue_start_def inserted_def run_pbind run_andthen run_try_catch
        run_enqueue run_emit stub_enqueue_def empty_stub_def)
qed

lemma demo_second:
  "quiet u \<Longrightarrow> sandboxes u = [first_row] \<Longrightarrow> \<exists>u'. second_post u = (Inr (accepted first_row, True), u')"
  by (simp add: second_post_def run_with_id create_sandbox_def run_pbind run_replay_if_key run_replay with_key_def first_row)

lemma demo_posts:
  "\<exists>a u. first_post (stub_world [] 0) = (Inr (a, False), u) \<and> (\<exists>a' u'. second_post u = (Inr (a', True), u'))"
  using demo_first demo_second by metis

theorem one_sandbox_per_idempotency_key_witness:
  "\<exists>a u a' u'. first_post (stub_world [] 0) = (Inr (a, False), u) \<and> second_post u = (Inr (a', True), u') \<and>
     acc_sandbox_id a = acc_sandbox_id a'"
proof -
  obtain a u a' u' where posts: "first_post (stub_world [] 0) = (Inr (a, False), u)" "second_post u = (Inr (a', True), u')"
    using demo_posts by blast
  moreover have "acc_sandbox_id a = acc_sandbox_id a'"
    by (rule one_sandbox_per_idempotency_key [where k = "''k''" and w = "stub_world [] 0" and v = u,
          OF _ _ _ _ posts(1) [unfolded first_post_def] _ posts(2) [unfolded second_post_def]])
       (simp_all add: table_ok_def unique_keys_def db.G_refl)
  ultimately show ?thesis by blast
qed

section \<open>Recorded before queued\<close>

text \<open>Every start job of sandbox \<open>i\<close> is sent after the commit of its row.\<close>

definition sent_after_insert :: "uuid \<Rightarrow> event list \<Rightarrow> bool" where
  "sent_after_insert i evs \<longleftrightarrow>
     (\<forall>n < length evs. \<forall>d. evs ! n = Sent START_SANDBOX i d \<longrightarrow> Inserted i \<in> set (take n evs))"

text \<open>Steps that append events, none of which sends the start job of \<open>i\<close>: the rely of its creator.\<close>

definition unsent :: "uuid \<Rightarrow> 'e world \<Rightarrow> 'e world \<Rightarrow> bool" where
  "unsent i w v \<longleftrightarrow> (\<exists>evs. emitted v = emitted w @ evs \<and> (\<forall>d. Sent START_SANDBOX i d \<notin> set evs))"

lemma sent_after_insert_append:
  "sent_after_insert i evs \<Longrightarrow> (\<forall>d. Sent START_SANDBOX i d \<notin> set es) \<or> Inserted i \<in> set evs \<Longrightarrow>
   sent_after_insert i (evs @ es)"
  unfolding sent_after_insert_def
  by (auto simp: nth_append split: if_splits)
     (metis add_diff_inverse_nat nat_add_left_cancel_less nth_mem)

interpretation unsent: guarantee "unsent i" for i
proof
  show "unsent i w w" for w :: "'a world" by (auto simp: unsent_def)
  show "unsent i u w" if "unsent i u v" "unsent i v w" for u v w :: "'a world"
    using that by (force simp: unsent_def)
qed

definition appends :: "'e world \<Rightarrow> 'e world \<Rightarrow> bool" where
  "appends w v \<longleftrightarrow> (\<exists>evs. emitted v = emitted w @ evs)"

interpretation appends: guarantee appends
  by unfold_locales (auto simp: appends_def)

lemma unsent_emit [guar_intros]:
  assumes "\<And>d. ev \<noteq> Sent START_SANDBOX i d"
  shows "guar (unsent i) (emit ev)"
  unfolding emit_def by (rule guar_does) (use assms [symmetric] in \<open>simp add: unsent_def\<close>)

lemma unsent_steps [guar_intros]:
  "guar (unsent i) get_now" "guar (unsent i) (db_select P)" "guar (unsent i) (db_insert r)"
  "guar (unsent i) (redis_get k)"
  by (auto simp: get_now_def db_select_def db_insert_def redis_get_def unsent_def
      intro!: guar_statement unsent.guar_reads)

lemma unsent_timeout [guar_intros]: "guar (unsent i) p \<Longrightarrow> guar (unsent i) (asyncio_timeout t p)"
  unfolding asyncio_timeout_def by (erule unsent.guar_with_deadline [rotated]) (simp add: unsent_def)

lemma unsent_pick [guar_intros]: "guar (unsent i) (pick_deployment j t)"
  unfolding pick_deployment_def get_weight_def by (intro guar_intros)

lemma unsent_replay [guar_intros]: "guar (unsent i) (replay k)" "guar (unsent i) (replay_if_key key)"
  unfolding replay_def replay_if_key_def
  by (intro guar_intros | simp split: list.split | intro conjI impI allI)+

lemma appends_enqueue_start: "guar appends (enqueue_start S s r)"
proof -
  have base: "guar appends (recorded_call ev f)" "guar appends (emit ev')" "guar appends (db_update P g)"
    for ev ev' P g and f :: "'a \<Rightarrow> (exn + bool) \<times> 'a"
    by (auto simp: recorded_call_def emit_def db_update_def appends_def Let_def split: prod.split
        intro!: guar_atomically guar_does guar_statement)
  have timeout: "guar appends (asyncio_timeout t p)" if "guar appends p" for t and p :: "('a world, bool) prog"
    unfolding asyncio_timeout_def using that by (rule appends.guar_with_deadline [rotated]) (simp add: appends_def)
  show ?thesis
    unfolding enqueue_start_def enqueue_sandbox_job_def by (intro guar_intros base timeout)
qed

lemma sent_after_insert_unsent: "unsent i u v \<Longrightarrow> sent_after_insert i (emitted u) \<Longrightarrow> sent_after_insert i (emitted v)"
  by (auto simp: unsent_def intro: sent_after_insert_append)

lemma ensures_unsent:
  assumes "guar (unsent i) p" "sent_after_insert i (emitted w)" "\<And>res v. sent_after_insert i (emitted v) \<Longrightarrow> Q res v"
  shows "ensures (unsent i) p Q w"
  by (rule ensures_frame [where P = "\<lambda>v. sent_after_insert i (emitted v)" and G = "unsent i"])
     (use assms sent_after_insert_unsent in auto)

lemma unsent_bind:
  assumes "sent_after_insert i (emitted w)" "guar (unsent i) p" "\<And>e v. sent_after_insert i (emitted v) \<Longrightarrow> Q (Inl e) v"
    and "\<And>a v. sent_after_insert i (emitted v) \<Longrightarrow> ensures (unsent i) (k a) Q v"
  shows "ensures (unsent i) (pbind p k) Q w"
  unfolding ensures_pbind by (rule ensures_unsent [OF assms(2,1)]) (auto intro: assms(3,4) split: sum.split)

lemma ensures_enqueue_start_sent:
  assumes "sent_after_insert i (emitted w)" "Inserted i \<in> set (emitted w)"
  shows "ensures (unsent i) (enqueue_start S s r) (\<lambda>_ v. sent_after_insert i (emitted v)) w"
  by (rule ensures_frame [where P = "\<lambda>v. sent_after_insert i (emitted v) \<and> Inserted i \<in> set (emitted v)",
        OF _ _ _ appends_enqueue_start])
     (use assms in \<open>auto simp: appends_def unsent_def intro: sent_after_insert_append\<close>)

lemma ensures_insert_sent:
  assumes "sent_after_insert i (emitted w)" "sid r = i"
  shows "ensures (unsent i) (db_insert r)
    (\<lambda>res v. sent_after_insert i (emitted v) \<and> (res = Inr () \<longrightarrow> Inserted i \<in> set (emitted v))) w"
  unfolding db_insert_def ensures_simps
  using assms by (auto simp: Let_def split: fault.split dest!: sent_after_insert_unsent
      intro!: sent_after_insert_append)

lemma create_sandbox_sent:
  fixes w :: "'e world"
  assumes "sent_after_insert i (emitted w)"
  shows "ensures (unsent i) (create_sandbox S s i body key) (\<lambda>_ v. sent_after_insert i (emitted v)) w"
proof -
  have insert: "ensures (unsent i) (try_catch (db_insert r) (\<lambda>_. enqueue_start S s r)
      (\<lambda>e. if is_class IntegrityError e
           then pbind (replay_if_key key) (\<lambda>found. case found of Some answer \<Rightarrow> Return answer | None \<Rightarrow> Raise e)
           else Raise e)) (\<lambda>_ v. sent_after_insert i (emitted v)) v"
    if "sent_after_insert i (emitted v)" "sid r = i" for r and v :: "'e world"
    unfolding ensures_try_catch
    by (rule ensures_mono [OF ensures_insert_sent [OF that]])
       (auto intro!: unsent_bind guar_intros ensures_enqueue_start_sent split: sum.split option.split)
  have "sid (new_sandbox i t st d x key now) = i" for t st d x now by (simp add: new_sandbox_def)
  with assms show ?thesis
    unfolding create_sandbox_def Let_def
    by (auto intro!: unsent_bind guar_intros insert split: option.split)
qed

text \<open>C6. The row is recorded before its job is queued, whatever interferes: in every interleaving of a
  POST with others, and whichever of its statements fail, the start job of its sandbox is sent
  only after the insert of the row was committed, so a worker that gets the job finds the row.\<close>

theorem row_is_recorded_before_its_job:
  assumes "sent_after_insert i (emitted w)" "\<And>n v. unsent i v (I n v)"
  shows "sent_after_insert i (emitted (snd (run_with (create_sandbox S s i body key) I n w)))"
  using run_with_ensures [where I = I, OF assms(2) create_sandbox_sent [OF assms(1)]] .

theorem row_is_recorded_before_its_job_witness:
  "sent_after_insert 9 (emitted (snd (first_post (stub_world [] 0))))"
  unfolding first_post_def
  by (rule row_is_recorded_before_its_job) (simp_all add: sent_after_insert_def unsent_def)

end
