(* ===== verification/Races.thy ===== *)
theory Races
  imports Jobs Producer
begin

text \<open>
  Interleavings of the API with the worker that are worth knowing: the late failure write of a
  POST (\<open>src/app/routes/sandboxes.py\<close>), which is no compare-and-set, meets a fast worker.
\<close>

section \<open>A queue that takes the job but answers too late\<close>

definition late_queue :: "fake services" where
  "late_queue =
     \<lparr>containers_get = (\<lambda>n x. (Inl (Err NotFound n), x)), containers_run = (\<lambda>_ x. (Inl (Err (APIError 500) []), x)),
      container_remove = (\<lambda>_ x. (Inr (), x)), container_reload = (\<lambda>c x. (Inr c, x)),
      containers_list = (\<lambda>_ x. (Inr [], x)), images_get = (\<lambda>_ x. (Inr (), x)), images_pull = (\<lambda>_ x. (Inr (), x)),
      http_get = (\<lambda>_ x. ((Inr 200, 0), x)), enqueue_job = (\<lambda>_ _ _ _ x. (Inl (Err TimeoutError []), x)),
      zcount = (\<lambda>_ _ x. (Inr 0, x)), redis_ping = (\<lambda>x. (Inr (), x)), docker_from_env = (\<lambda>x. (Inr (), x)),
      start_http_server = (\<lambda>_ x. (Inr (), x))\<rparr>"

text \<open>The job that did reach the queue runs while the POST handles the time-out (its step 6).\<close>

definition worker_at_step_6 :: "nat \<Rightarrow> fake world \<Rightarrow> fake world" where
  "worker_at_step_6 n w = (if n = 6 then snd (run (start_sandbox (fake_ctx nothing 1) (uuid_str 7)) w) else w)"

text \<open>The POST up to its failure write.\<close>

definition seven :: sandbox where
  "seven = new_sandbox 7 HTTP QUEUED STABLE (seconds 600) None 0"

definition sent_world :: "fake world" where
  "sent_world = (fake_world [seven] 0 empty_fake)\<lparr>emitted := [Inserted 7, Sent START_SANDBOX 7 STABLE]\<rparr>"

definition fail_write :: "(fake world, create_response) prog" where
  "fail_write = andthen (emit (JOBS_ENQUEUED START_SANDBOX ''error'' STABLE))
     (andthen (db_update (\<lambda>q. sid q = 7) (\<lambda>q. q\<lparr>status := FAILED, error := Some ''enqueue: TimeoutError''\<rparr>))
       (Raise sandboxes_503))"

lemma post_until_timeout:
  "run_with (create_sandbox late_queue default_settings 7 demo_body None) worker_at_step_6 0 (fake_world [] 0 empty_fake) =
     run_with fail_write worker_at_step_6 6 sent_world"
  by (simp add: create_sandbox_def replay_if_key_def db_select_def statement_def atomically_def
      pick_deployment_def get_weight_def asyncio_timeout_def redis_get_def worker_at_step_6_def Let_def
      get_now_def reads_def default_settings_def demo_body_def db_insert_def router.pick_pool_none
      new_sandbox_def violates_unique_def enqueue_start_def enqueue_sandbox_job_def recorded_call_def
      late_queue_def emit_def does_def andthen_def fail_write_def sent_world_def seven_def fake_world_def eval_nat_numeral)

lemma fast_worker:
  "let w = snd (run (start_sandbox (fake_ctx nothing 1) (uuid_str 7)) sent_world)
   in faults w = [] \<and> map fst (containers (ext w)) = [7] \<and>
      map (\<lambda>r. (sid r, status r, url r)) (sandboxes w) = [(7, RUNNING, Some ''http://localhost:49153'')]"
  by (simp add: scenario_simps sent_world_def seven_def new_sandbox_def default_settings_def seconds_def)

lemma run_with_fail_write:
  assumes "faults (I 6 w) = []" "\<And>v. I 7 v = v"
  shows "run_with fail_write I 6 w = (Inl sandboxes_503,
    (I 6 w)\<lparr>sandboxes := update_rows (\<lambda>q. sid q = 7) (\<lambda>q. q\<lparr>status := FAILED, error := Some ''enqueue: TimeoutError''\<rparr>)
       (clock (I 6 w)) (sandboxes (I 6 w)), emitted := emitted (I 6 w) @ [JOBS_ENQUEUED START_SANDBOX ''error'' STABLE]\<rparr>)"
  using assms by (simp add: fail_write_def andthen_def emit_def does_def db_update_def statement_def
      atomically_def Let_def eval_nat_numeral)


end
