(* ===== verification/Containers.thy ===== *)
theory Containers
  imports Fakes
begin

text \<open>
  The contracts between the program and what runs its sandboxes. \<open>docker_daemon\<close> states what the
  Docker SDK documents of the calls \<open>src/app/runtime.py\<close> makes, for a daemon that is up;
  \<open>sandbox_runtime\<close> states what the worker relies on of the protocol \<open>SandboxRuntime\<close>.
  \<open>DockerRuntime\<close> on any such daemon is such a runtime, and so is the tests' \<open>FakeRuntime\<close>.
\<close>

section \<open>What a container runtime promises the worker\<close>

text \<open>
  \<open>live x\<close> are the sandboxes the runtime runs in state \<open>x\<close>, with their expiry; \<open>ok\<close> holds of the
  states the contract speaks about. Removal is idempotent and touches nothing else; the list
  has every live sandbox once.
\<close>

locale sandbox_runtime =
  fixes R :: "'e runtime" and live :: "'e \<Rightarrow> uuid \<Rightarrow> datetime option" and ok :: "'e \<Rightarrow> bool"
  assumes remove_law: "quiet w \<Longrightarrow> ok (ext w) \<Longrightarrow>
      \<exists>x. run (rt_remove R i) w = (Inr (live (ext w) i \<noteq> None), w\<lparr>ext := x\<rparr>) \<and> ok x \<and> live x = (live (ext w))(i := None)"
    and list_law: "quiet w \<Longrightarrow> ok (ext w) \<Longrightarrow>
      \<exists>cs x. run (rt_list_sandboxes R) w = (Inr cs, w\<lparr>ext := x\<rparr>) \<and> ok x \<and> live x = live (ext w) \<and>
        distinct (map rs_sandbox_id cs) \<and> map_of (map (\<lambda>c. (rs_sandbox_id c, rs_expires_at c)) cs) = live (ext w)"
begin

lemma remove_twice:
  assumes "quiet w" "ok (ext w)"
  shows "\<exists>x y. run (rt_remove R i) w = (Inr (live (ext w) i \<noteq> None), w\<lparr>ext := x\<rparr>) \<and>
    run (rt_remove R i) (w\<lparr>ext := x\<rparr>) = (Inr False, w\<lparr>ext := y\<rparr>) \<and> live y = live x"
proof -
  obtain x where x: "run (rt_remove R i) w = (Inr (live (ext w) i \<noteq> None), w\<lparr>ext := x\<rparr>)" "ok x"
      "live x = (live (ext w))(i := None)"
    using remove_law [OF assms] by blast
  moreover have "quiet (w\<lparr>ext := x\<rparr>)" using assms(1) by (simp add: quiet_def)
  ultimately show ?thesis using remove_law [of "w\<lparr>ext := x\<rparr>" i] by fastforce
qed

end

text \<open>The tests' runtime keeps the contract as long as no error is injected.\<close>

definition fake_ok :: "fake \<Rightarrow> bool" where
  "fake_ok f \<longleftrightarrow> distinct (map fst (containers f)) \<and> remove_error f = None \<and> list_error f = None"

lemma map_of_filter_key: "map_of (filter (\<lambda>(j, _). j \<noteq> i) xs) = (map_of xs)(i := None)"
  by (induction xs) (auto simp: fun_eq_iff)

interpretation fake_runtime: sandbox_runtime "fake_runtime h" "\<lambda>f. map_of (containers f)" fake_ok for h
proof
  fix w :: "fake world" and i
  assume "quiet w" "fake_ok (ext w)"
  then show "\<exists>x. run (rt_remove (fake_runtime h) i) w = (Inr (map_of (containers (ext w)) i \<noteq> None), w\<lparr>ext := x\<rparr>) \<and>
      fake_ok x \<and> map_of (containers x) = (map_of (containers (ext w)))(i := None)"
    by (auto simp: fake_remove_def fake_ok_def run_simps map_of_filter_key distinct_map_filter
        intro!: exI [of _ "ext w\<lparr>containers := filter (\<lambda>(j, _). j \<noteq> i) (containers (ext w))\<rparr>"])
next
  fix w :: "fake world"
  assume "quiet w" "fake_ok (ext w)"
  then show "\<exists>cs x. run (rt_list_sandboxes (fake_runtime h)) w = (Inr cs, w\<lparr>ext := x\<rparr>) \<and> fake_ok x \<and>
      map_of (containers x) = map_of (containers (ext w)) \<and> distinct (map rs_sandbox_id cs) \<and>
      map_of (map (\<lambda>c. (rs_sandbox_id c, rs_expires_at c)) cs) = map_of (containers (ext w))"
    by (intro exI [of _ "map (\<lambda>(i, x). \<lparr>rs_sandbox_id = i, rs_expires_at = x\<rparr>) (containers (ext w))"] exI [of _ "ext w"])
       (auto simp: fake_list_sandboxes_def fake_ok_def run_simps comp_def case_prod_unfold)
qed

section \<open>What a Docker daemon promises the runtime\<close>

lemma docker_calls_quiet:
  "guar keeps_quiet (docker_get S n)" "guar keeps_quiet (docker_remove S n)"
  "guar keeps_quiet (ensure_container S s i x)"
  unfolding docker_get_def docker_remove_def ensure_container_def Let_def by (intro guar_intros)+

lemma run_run_bounded:
  "quiet w \<Longrightarrow> guar keeps_quiet p \<Longrightarrow> run (run_bounded s d p) w = run p w"
  by (simp add: run_bounded_def run_asyncio_timeout)

text \<open>
  \<open>named x n\<close> is the container called \<open>n\<close> in state \<open>x\<close>. The laws are the SDK's documented
  behaviour for the calls the program makes: names are unique (409 for a name that is taken, 404
  for one that is not), \<open>run\<close> starts a container with the labels asked for and publishes its
  ports, \<open>list\<close> filters by label.
\<close>

locale docker_daemon =
  fixes S :: "'e services" and named :: "'e \<Rightarrow> string \<Rightarrow> container option"
  assumes get_state: "named (snd (containers_get S n x)) = named x"
    and get_found: "named x n = Some c \<Longrightarrow> fst (containers_get S n x) = Inr c"
    and get_missing: "named x n = None \<Longrightarrow> \<exists>m. fst (containers_get S n x) = Inl (Err NotFound m)"
    and own_name: "named x n = Some c \<Longrightarrow> c_name c = n"
    and run_free: "named x (name sp) = None \<Longrightarrow>
      \<exists>c. fst (containers_run S sp x) = Inr c \<and> named (snd (containers_run S sp x)) = (named x)(name sp \<mapsto> c) \<and>
        c_status c = ''running'' \<and> c_labels c = labels sp \<and>
        (\<forall>p \<in> fst ` set (ports sp). \<exists>h hs. map_of (c_ports c) p = Some (h # hs))"
    and run_taken: "named x (name sp) \<noteq> None \<Longrightarrow>
      (\<exists>m. fst (containers_run S sp x) = Inl (Err (APIError 409) m)) \<and> named (snd (containers_run S sp x)) = named x"
    and remove_found: "named x (c_name c) \<noteq> None \<Longrightarrow>
      fst (container_remove S c x) = Inr () \<and> named (snd (container_remove S c x)) = (named x)(c_name c := None)"
    and remove_missing: "named x (c_name c) = None \<Longrightarrow>
      (\<exists>m. fst (container_remove S c x) = Inl (Err NotFound m)) \<and> named (snd (container_remove S c x)) = named x"
    and reload_found: "named x (c_name c) = Some d \<Longrightarrow> fst (container_reload S c x) = Inr d"
    and reload_state: "named (snd (container_reload S c x)) = named x"
    and list_all_labelled: "\<exists>cs. fst (containers_list S l x) = Inr cs \<and> distinct (map c_name cs) \<and>
        set cs = {c. named x (c_name c) = Some c \<and> map_of (c_labels c) l \<noteq> None}"
    and list_state: "named (snd (containers_list S l x)) = named x"

text \<open>
  The container of a sandbox, as \<open>_ensure_container\<close> leaves it: the running one of that name if
  there is one, else a new one with the labels of the sandbox.
\<close>

definition ensured :: "settings \<Rightarrow> uuid \<Rightarrow> datetime \<Rightarrow> container option \<Rightarrow> container \<Rightarrow> bool" where
  "ensured s i t before c \<longleftrightarrow> c_status c = ''running'' \<and>
     (case before of
        Some d \<Rightarrow> if c_status d = ''running'' then c = d else c_labels c = labels (sandbox_spec s i t)
      | None \<Rightarrow> c_labels c = labels (sandbox_spec s i t))"

context docker_daemon begin

lemma run_docker_get:
  "\<exists>x. run (docker_get S n) w = (Inr (named (ext w) n), w\<lparr>ext := x\<rparr>) \<and> named x = named (ext w)"
proof (cases "named (ext w) n")
  case None
  with get_missing [OF this] get_state [of n "ext w"] show ?thesis
    by (intro exI [of _ "snd (containers_get S n (ext w))"]) (auto simp: docker_get_def run_simps)
next
  case (Some c)
  with get_found [OF this] get_state [of n "ext w"] show ?thesis
    by (intro exI [of _ "snd (containers_get S n (ext w))"]) (auto simp: docker_get_def run_simps)
qed

text \<open>Removal is idempotent: it says whether there was a container, and afterwards there is none.\<close>

lemma run_docker_remove:
  "\<exists>x. run (docker_remove S n) w = (Inr (named (ext w) n \<noteq> None), w\<lparr>ext := x\<rparr>) \<and> named x = (named (ext w))(n := None)"
proof (cases "named (ext w) n")
  case None
  with get_missing [OF this] get_state [of n "ext w"] show ?thesis
    by (intro exI [of _ "snd (containers_get S n (ext w))"]) (auto simp: docker_remove_def run_simps fun_eq_iff)
next
  case (Some c)
  let ?x = "snd (containers_get S n (ext w))"
  have "c_name c = n" by (rule own_name [OF Some])
  with Some get_found [OF Some] get_state [of n "ext w"] remove_found [of ?x c] show ?thesis
    by (intro exI [of _ "snd (container_remove S c ?x)"]) (simp add: docker_remove_def run_simps)
qed

lemma run_remove_sandbox:
  assumes "quiet w"
  shows "\<exists>x. run (remove_sandbox S s i) w = (Inr (named (ext w) (container_name i) \<noteq> None), w\<lparr>ext := x\<rparr>) \<and>
    named x = (named (ext w))(container_name i := None)"
  using run_docker_remove [of "container_name i" w] assms
  by (simp add: remove_sandbox_def run_run_bounded docker_calls_quiet)

lemma tcp_port_published: "tcp_port s \<in> fst ` set (ports (sandbox_spec s i t))"
  by (simp add: sandbox_spec_def)

lemma name_of_spec [simp]: "name (sandbox_spec s i t) = container_name i"
  by (simp add: sandbox_spec_def)

text \<open>The last steps: reload the container, then read its port.\<close>

definition finish :: "settings \<Rightarrow> string \<Rightarrow> container \<Rightarrow> ('e world, string) prog" where
  "finish s n c = pbind (call (container_reload S c)) (\<lambda>container. of_sum (host_port s n container))"

lemma run_finish:
  assumes "named (ext w) n = Some c" "map_of (c_ports c) (tcp_port s) = Some (h # hs)"
  shows "\<exists>x. run (finish s n c) w = (Inr h, w\<lparr>ext := x\<rparr>) \<and> named x = named (ext w)"
  using assms reload_found [of "ext w" c c] reload_state [of c "ext w"] own_name [OF assms(1)]
  by (auto simp: finish_def run_simps host_port_def intro!: exI [of _ "snd (container_reload S c (ext w))"])

definition create :: "settings \<Rightarrow> uuid \<Rightarrow> datetime \<Rightarrow> ('e world, string) prog" where
  "create s i t =
     pbind (try_catch (call (containers_run S (sandbox_spec s i t))) (\<lambda>c. Return c)
         (\<lambda>exc. if api_status exc = Some 409 then call (containers_get S (container_name i)) else Raise exc))
       (finish s (container_name i))"

lemma run_create:
  assumes "named (ext w) (container_name i) = None"
  shows "\<exists>c h hs x. run (create s i t) w = (Inr h, w\<lparr>ext := x\<rparr>) \<and> named x = (named (ext w))(container_name i \<mapsto> c) \<and>
    c_status c = ''running'' \<and> c_labels c = labels (sandbox_spec s i t) \<and>
    map_of (c_ports c) (tcp_port s) = Some (h # hs)"
proof -
  let ?y = "snd (containers_run S (sandbox_spec s i t) (ext w))"
  obtain c where c: "fst (containers_run S (sandbox_spec s i t) (ext w)) = Inr c"
      "named ?y = (named (ext w))(container_name i \<mapsto> c)" "c_status c = ''running''"
      "c_labels c = labels (sandbox_spec s i t)"
      "\<forall>p \<in> fst ` set (ports (sandbox_spec s i t)). \<exists>h hs. map_of (c_ports c) p = Some (h # hs)"
    using run_free [of "ext w" "sandbox_spec s i t", unfolded name_of_spec, OF assms] by blast
  from bspec [OF c(5) tcp_port_published] obtain h hs where h: "map_of (c_ports c) (tcp_port s) = Some (h # hs)"
    by metis
  have "named (ext (w\<lparr>ext := ?y\<rparr>)) (container_name i) = Some c" by (simp add: c(2))
  from run_finish [OF this h]
  obtain x where x: "run (finish s (container_name i) c) (w\<lparr>ext := ?y\<rparr>) = (Inr h, w\<lparr>ext := x\<rparr>)" "named x = named ?y"
    by (auto simp del: fun_upd_apply)
  have "run (create s i t) w = (Inr h, w\<lparr>ext := x\<rparr>)"
    by (simp add: create_def run_pbind run_try_catch run_call c(1) x(1))
  with c h x(2) show ?thesis by (simp only:) blast
qed

lemma run_ensure_container:
  assumes "\<And>d. named (ext w) (container_name i) = Some d \<Longrightarrow> c_status d = ''running'' \<Longrightarrow>
      \<exists>h hs. map_of (c_ports d) (tcp_port s) = Some (h # hs)"
  shows "\<exists>c h hs x. run (ensure_container S s i t) w = (Inr h, w\<lparr>ext := x\<rparr>) \<and>
    named x = (named (ext w))(container_name i \<mapsto> c) \<and> ensured s i t (named (ext w) (container_name i)) c \<and>
    map_of (c_ports c) (tcp_port s) = Some (h # hs)"
proof -
  let ?n = "container_name i"
  have prog: "ensure_container S s i t =
      pbind (docker_get S ?n) (\<lambda>found.
      pbind (case found of
               Some c \<Rightarrow> if c_status c \<noteq> ''running'' then andthen (call (container_remove S c)) (Return None) else Return (Some c)
             | None \<Rightarrow> Return None) (\<lambda>kept.
      case kept of Some c \<Rightarrow> finish s ?n c | None \<Rightarrow> create s i t))"
    unfolding ensure_container_def Let_def create_def finish_def
    by (rule arg_cong [where f = "pbind _"], rule ext, rule arg_cong [where f = "pbind _"], rule ext)
       (simp split: option.split)
  obtain x where x: "run (docker_get S ?n) w = (Inr (named (ext w) ?n), w\<lparr>ext := x\<rparr>)" "named x = named (ext w)"
    using run_docker_get [of ?n w] by blast
  show ?thesis
  proof (cases "named (ext w) ?n")
    case None
    then show ?thesis
      using run_create [of "w\<lparr>ext := x\<rparr>" i s t] x by (auto simp: prog run_simps ensured_def)
  next
    case (Some d)
    show ?thesis
    proof (cases "c_status d = ''running''")
      case True
      then obtain h hs where h: "map_of (c_ports d) (tcp_port s) = Some (h # hs)" using assms Some by blast
      then show ?thesis
        using run_finish [of "w\<lparr>ext := x\<rparr>" ?n d s h hs] x Some True
        by (intro exI [of _ d] exI [of _ h] exI [of _ hs]) (auto simp: prog run_simps ensured_def fun_upd_idem)
    next
      case False
      then show ?thesis
        using run_create [of "w\<lparr>ext := snd (container_remove S d x)\<rparr>" i s t] remove_found [of x d] x Some own_name [OF Some]
        by (auto simp: prog run_simps ensured_def)
    qed
  qed
qed

end

lemma stub_named_Cons: "stub_named (x\<lparr>held := c # cs\<rparr>) = (stub_named (x\<lparr>held := cs\<rparr>))(c_name c \<mapsto> c)"
  by (auto simp: stub_named_def fun_eq_iff)

lemma stub_named_filter:
  "stub_named (x\<lparr>held := filter (\<lambda>d. c_name d \<noteq> n) (held x)\<rparr>) = (stub_named x)(n := None)"
proof -
  have "find (\<lambda>c. c_name c = m) (filter (\<lambda>d. c_name d \<noteq> n) cs) = (if m = n then None else find (\<lambda>c. c_name c = m) cs)"
    for m and cs :: "container list" by (induction cs) auto
  then show ?thesis by (auto simp: stub_named_def fun_eq_iff)
qed

lemma stub_named_name: "stub_named x n = Some c \<Longrightarrow> c_name c = n \<and> c \<in> set (held x)"
  by (auto simp: stub_named_def dest: find_SomeD)

lemma stub_ports: "p \<in> fst ` set ps \<Longrightarrow> \<exists>h hs. map_of (map (\<lambda>(p, h). (p, [''49153''])) ps) p = Some (h # hs)"
  by (induction ps) auto

text \<open>The in-memory client is such a daemon.\<close>

interpretation stub: docker_daemon stub_services stub_named
proof
  fix x :: stub and l :: string
  let ?P = "\<lambda>c. stub_named x (c_name c) = Some c \<and> map_of (c_labels c) l \<noteq> None"
  have "inj_on c_name (set (filter ?P (held x)))"
  proof (rule inj_onI)
    fix p q assume "p \<in> set (filter ?P (held x))" "q \<in> set (filter ?P (held x))" "c_name p = c_name q"
    then have "stub_named x (c_name p) = Some p" "stub_named x (c_name p) = Some q" by auto
    then show "p = q" by simp
  qed
  then have "distinct (map c_name (remdups (filter ?P (held x))))"
    by (simp add: distinct_map)
  moreover have "set (remdups (filter ?P (held x))) = {c. ?P c}"
    using stub_named_name by auto
  ultimately show "\<exists>cs. fst (containers_list stub_services l x) = Inr cs \<and> distinct (map c_name cs) \<and> set cs = {c. ?P c}"
    by (simp add: stub_list_def)
next
  fix x :: stub and sp :: run_spec
  assume "stub_named x (name sp) = None"
  then show "\<exists>c. fst (containers_run stub_services sp x) = Inr c \<and>
      stub_named (snd (containers_run stub_services sp x)) = (stub_named x)(name sp \<mapsto> c) \<and>
      c_status c = ''running'' \<and> c_labels c = labels sp \<and>
      (\<forall>p \<in> fst ` set (ports sp). \<exists>h hs. map_of (c_ports c) p = Some (h # hs))"
    using stub_named_Cons [where x = x and c = "stub_container sp" and cs = "held x"]
    by (auto simp: stub_run_def stub_container_def stub_ports simp del: Ball_def)
qed (auto simp: stub_get_def stub_run_def stub_remove_def stub_list_def stub_named_filter dest: stub_named_name)

section \<open>Labels\<close>

text \<open>The labels a container is created with read back as its sandbox, at most a second early.\<close>

lemma label_neq: "LABEL_ID \<noteq> LABEL_EXPIRES" "LABEL_EXPIRES \<noteq> LABEL_ID"
  by (simp_all add: LABEL_ID_def LABEL_EXPIRES_def)

lemma read_labels_spec:
  assumes "c_labels c = labels (sandbox_spec s i t)" "0 \<le> t" "t < seconds 253402300800"
  shows "\<exists>t'. read_labels c = Inr \<lparr>rs_sandbox_id = i, rs_expires_at = t'\<rparr> \<and> t' \<le> t \<and> t < t' + seconds 1"
proof -
  have "\<bar>int_timestamp t\<bar> < 10 ^ 12"
    using assms(2,3) by (auto simp: int_timestamp_def seconds_def)
  then have "py_int 10 (str_of_int (int_timestamp t)) = Inr (int_timestamp t)"
    by (rule py_int_str_of_int) simp_all
  with fromtimestamp_int_timestamp [OF assms(2,3)] assms(1) show ?thesis
    by (auto simp: read_labels_def label_def sandbox_spec_def label_neq)
qed

definition readable :: "container \<Rightarrow> runtime_sandbox option" where
  "readable c = (case read_labels c of Inr r \<Rightarrow> Some r | Inl _ \<Rightarrow> None)"

text \<open>Labels that \<open>list_sandboxes\<close> does not expect: a time stamp no platform can hold.\<close>

definition overflowing :: "container \<Rightarrow> bool" where
  "overflowing c = (case read_labels c of Inl e \<Rightarrow> \<not> is_class KeyError e \<and> \<not> is_class ValueError e | Inr _ \<Rightarrow> False)"

lemma found_sandboxes_readable:
  "\<forall>c \<in> set cs. \<not> overflowing c \<Longrightarrow> found_sandboxes cs = Inr (List.map_filter readable cs)"
  by (induction cs) (auto simp: overflowing_def readable_def map_filter_simps split: sum.splits)

lemma found_sandboxes_overflowing:
  "\<exists>c \<in> set cs. overflowing c \<Longrightarrow> \<exists>e. found_sandboxes cs = Inl e \<and> \<not> is_class KeyError e \<and> \<not> is_class ValueError e"
  by (induction cs) (auto simp: overflowing_def split: sum.splits)

section \<open>\<open>DockerRuntime\<close> keeps the worker's contract\<close>

definition labelled :: "container \<Rightarrow> bool" where
  "labelled c \<longleftrightarrow> map_of (c_labels c) LABEL_ID \<noteq> None"

text \<open>The states the program makes: what carries the label is a sandbox under its own name.\<close>

definition docker_ok :: "('e \<Rightarrow> string \<Rightarrow> container option) \<Rightarrow> 'e \<Rightarrow> bool" where
  "docker_ok named x \<longleftrightarrow>
     (\<forall>n c. named x n = Some c \<longrightarrow> labelled c \<longrightarrow> (\<exists>r. read_labels c = Inr r \<and> n = container_name (rs_sandbox_id r))) \<and>
     (\<forall>i c. named x (container_name i) = Some c \<longrightarrow> labelled c)"

definition docker_live :: "('e \<Rightarrow> string \<Rightarrow> container option) \<Rightarrow> 'e \<Rightarrow> uuid \<Rightarrow> datetime option" where
  "docker_live named x i =
     (case named x (container_name i) of None \<Rightarrow> None | Some c \<Rightarrow> map_option rs_expires_at (readable c))"

lemma container_name_inject [simp]: "container_name i = container_name j \<longleftrightarrow> i = j"
  by (simp add: container_name_def uuid_str_inject)

context docker_daemon begin

lemma run_list_sandboxes:
  assumes "quiet w" "docker_ok named (ext w)"
  shows "\<exists>rs x. run (list_sandboxes S s) w = (Inr rs, w\<lparr>ext := x\<rparr>) \<and> named x = named (ext w) \<and>
    distinct (map rs_sandbox_id rs) \<and> map_of (map (\<lambda>c. (rs_sandbox_id c, rs_expires_at c)) rs) = docker_live named (ext w)"
proof -
  let ?x = "snd (containers_list S LABEL_ID (ext w))"
  let ?named = "named (ext w)"
  obtain cs where cs: "fst (containers_list S LABEL_ID (ext w)) = Inr cs" "distinct (map c_name cs)"
      "set cs = {c. ?named (c_name c) = Some c \<and> labelled c}"
    using list_all_labelled [of LABEL_ID "ext w"] by (auto simp: labelled_def)
  define f where "f c = projr (read_labels c)" for c
  have f: "read_labels c = Inr (f c) \<and> c_name c = container_name (rs_sandbox_id (f c))" if "c \<in> set cs" for c
    using that cs(3) assms(2) unfolding docker_ok_def f_def by (metis (mono_tags, lifting) mem_Collect_eq sum.sel(2))
  then have found: "found_sandboxes cs = Inr (map f cs)"
    by (induction cs) auto
  have names: "map c_name cs = map container_name (map (rs_sandbox_id \<circ> f) cs)" using f by simp
  then have ids: "distinct (map (rs_sandbox_id \<circ> f) cs)"
    using cs(2) distinct_map by metis
  have live: "map_of (map (\<lambda>c. (rs_sandbox_id (f c), rs_expires_at (f c))) cs) i = docker_live named (ext w) i" for i
  proof (cases "?named (container_name i)")
    case None
    have ne: "i \<noteq> rs_sandbox_id (f c)" if "c \<in> set cs" for c using f [OF that] that cs(3) None by auto
    have "map_of (map (\<lambda>c. (rs_sandbox_id (f c), rs_expires_at (f c))) cs) i = None"
      unfolding map_of_eq_None_iff by (auto dest: ne)
    with None show ?thesis by (simp add: docker_live_def)
  next
    case (Some c)
    then have c: "c \<in> set cs" using assms(2) own_name [OF Some] by (auto simp: cs(3) docker_ok_def)
    with f own_name [OF Some] have "rs_sandbox_id (f c) = i" by force
    with c ids have "map_of (map (\<lambda>c. (rs_sandbox_id (f c), rs_expires_at (f c))) cs) i = Some (rs_expires_at (f c))"
      by (intro map_of_is_SomeI) (auto simp: comp_def)
    with Some f [OF c] show ?thesis by (simp add: docker_live_def readable_def)
  qed
  have "run (list_sandboxes S s) w = (Inr (map f cs), w\<lparr>ext := ?x\<rparr>)"
    using assms(1) by (simp add: list_sandboxes_def run_simps run_run_bounded guar_intros cs(1) found)
  moreover have "map_of (map (\<lambda>c. (rs_sandbox_id c, rs_expires_at c)) (map f cs)) = docker_live named (ext w)"
    by (rule ext) (use live in \<open>simp add: comp_def\<close>)
  ultimately show ?thesis
    using ids list_state [of LABEL_ID "ext w"]
    by (intro exI [of _ "map f cs"] exI [of _ ?x]) simp
qed

end

sublocale docker_daemon \<subseteq> docker_runtime: sandbox_runtime "docker_runtime S s" "docker_live named" "docker_ok named" for s
proof
  fix w and i
  assume w: "quiet w" "docker_ok named (ext w)"
  obtain x where x: "run (remove_sandbox S s i) w = (Inr (named (ext w) (container_name i) \<noteq> None), w\<lparr>ext := x\<rparr>)"
      "named x = (named (ext w))(container_name i := None)"
    using run_remove_sandbox [OF w(1)] by blast
  have "docker_live named (ext w) i \<noteq> None \<longleftrightarrow> named (ext w) (container_name i) \<noteq> None"
  proof (cases "named (ext w) (container_name i)")
    case (Some c)
    with w(2) obtain r where "read_labels c = Inr r" unfolding docker_ok_def by blast
    with Some show ?thesis by (simp add: docker_live_def readable_def)
  qed (simp add: docker_live_def)
  with x w(2) show "\<exists>x. run (rt_remove (docker_runtime S s) i) w = (Inr (docker_live named (ext w) i \<noteq> None), w\<lparr>ext := x\<rparr>) \<and>
      docker_ok named x \<and> docker_live named x = (docker_live named (ext w))(i := None)"
    by (intro exI [of _ x]) (auto simp: docker_runtime_def docker_ok_def docker_live_def fun_eq_iff)
next
  fix w
  assume w: "quiet w" "docker_ok named (ext w)"
  obtain rs x where x: "run (list_sandboxes S s) w = (Inr rs, w\<lparr>ext := x\<rparr>)" "named x = named (ext w)"
      "distinct (map rs_sandbox_id rs)"
      "map_of (map (\<lambda>c. (rs_sandbox_id c, rs_expires_at c)) rs) = docker_live named (ext w)"
    using run_list_sandboxes [OF w] by blast
  moreover have "docker_ok named x" "docker_live named x = docker_live named (ext w)"
    using w(2) x(2) by (simp_all add: docker_ok_def docker_live_def fun_eq_iff)
  ultimately show "\<exists>cs x. run (rt_list_sandboxes (docker_runtime S s)) w = (Inr cs, w\<lparr>ext := x\<rparr>) \<and> docker_ok named x \<and>
      docker_live named x = docker_live named (ext w) \<and> distinct (map rs_sandbox_id cs) \<and>
      map_of (map (\<lambda>c. (rs_sandbox_id c, rs_expires_at c)) cs) = docker_live named (ext w)"
    by (simp add: docker_runtime_def) blast
qed

end
