(* ===== verification/Launching.thy ===== *)
theory Launching
  imports Containers
begin

text \<open>
  What \<open>DockerRuntime\<close> (\<open>src/app/runtime.py\<close>) achieves on a daemon that keeps \<open>docker_daemon\<close>:
  create or reuse, readiness, idempotent removal, and labels that read back.
\<close>

section \<open>Create or reuse, and removal\<close>

context docker_daemon begin

lemma run_remove_twice:
  assumes "quiet w"
  shows "\<exists>x y. run (remove_sandbox S s i) w = (Inr (named (ext w) (container_name i) \<noteq> None), w\<lparr>ext := x\<rparr>) \<and>
    named x = (named (ext w))(container_name i := None) \<and>
    run (remove_sandbox S s i) (w\<lparr>ext := x\<rparr>) = (Inr False, w\<lparr>ext := y\<rparr>) \<and> named y = named x"
proof -
  obtain x where x: "run (remove_sandbox S s i) w = (Inr (named (ext w) (container_name i) \<noteq> None), w\<lparr>ext := x\<rparr>)"
      "named x = (named (ext w))(container_name i := None)"
    using run_remove_sandbox [OF assms] by blast
  moreover have "quiet (w\<lparr>ext := x\<rparr>)" using assms by simp
  from run_remove_sandbox [OF this, of s i] x(2) obtain y where
    "run (remove_sandbox S s i) (w\<lparr>ext := x\<rparr>) = (Inr False, w\<lparr>ext := y\<rparr>)" "named y = named x"
    by auto
  ultimately show ?thesis by blast
qed

end

definition one_container :: stub where
  "one_container = empty_stub\<lparr>held := [stub_container (sandbox_spec default_settings 7 0)]\<rparr>"

definition exited_container :: stub where
  "exited_container = empty_stub\<lparr>held := [(stub_container (sandbox_spec default_settings 7 0))\<lparr>c_status := ''exited''\<rparr>]\<rparr>"

lemma tcp_port_default: "map_of (c_ports (stub_container (sandbox_spec s i t))) (tcp_port s) = Some [''49153'']"
  by (simp add: stub_container_def sandbox_spec_def)



text \<open>Removal is idempotent: the first call says whether there was a container, afterwards there is
  none and nothing else has changed, and every further call returns False.\<close>

theorem remove_is_idempotent:
  assumes "docker_daemon S named" "quiet w"
  shows "\<exists>x y. run (remove_sandbox S s i) w = (Inr (named (ext w) (container_name i) \<noteq> None), w\<lparr>ext := x\<rparr>) \<and>
    named x = (named (ext w))(container_name i := None) \<and>
    run (remove_sandbox S s i) (w\<lparr>ext := x\<rparr>) = (Inr False, w\<lparr>ext := y\<rparr>) \<and> named y = named x"
  by (rule docker_daemon.run_remove_twice [OF assms])

theorem remove_is_idempotent_witness:
  "\<exists>x y. run (remove_sandbox stub_services default_settings 7) ((stub_world [] 0)\<lparr>ext := one_container\<rparr>) =
       (Inr True, (stub_world [] 0)\<lparr>ext := x\<rparr>) \<and>
     run (remove_sandbox stub_services default_settings 7) ((stub_world [] 0)\<lparr>ext := x\<rparr>) =
       (Inr False, (stub_world [] 0)\<lparr>ext := y\<rparr>)"
  using remove_is_idempotent [OF stub.docker_daemon_axioms, of "(stub_world [] 0)\<lparr>ext := one_container\<rparr>" default_settings 7]
  by (auto simp: one_container_def stub_named_def stub_container_def)

section \<open>Readiness\<close>

text \<open>At most \<open>k\<close> steps, on every path.\<close>

primrec steps_le :: "('w, 'a) prog \<Rightarrow> nat \<Rightarrow> bool" where
  "steps_le (Return a) = (\<lambda>k. True)"
| "steps_le (Raise e) = (\<lambda>k. True)"
| "steps_le (Step f n) = (\<lambda>k. 0 < k \<and> (\<forall>w. steps_le (n w) (k - 1)))"

lemma steps_le_mono: "steps_le p m \<Longrightarrow> m \<le> n \<Longrightarrow> steps_le p n"
proof (induction p arbitrary: m n)
  case (Step f q)
  have pos: "0 < m" and rest: "steps_le (q w) (m - 1)" for w using Step.prems(1) by simp_all
  have "steps_le (q w) (n - 1)" for w
    by (rule Step.IH [OF _ rest]) (simp_all add: Step.prems(2) diff_le_mono)
  with pos Step.prems(2) show ?case by simp
qed simp_all

lemma steps_le_call:
  assumes "0 < k" "\<And>a. steps_le (q a) (k - 1)"
  shows "steps_le (pbind (call f) q) k"
proof -
  have "steps_le (pbind (case r of Inl e \<Rightarrow> Raise e | Inr a \<Rightarrow> Return a) q) (k - 1)" for r
    by (cases r) (simp_all add: assms(2) del: One_nat_def)
  then show ?thesis by (simp add: call_def atomically_def assms(1))
qed

lemma steps_le_try_catch:
  "steps_le p k \<Longrightarrow> (\<And>a. steps_le (ok a) 0) \<Longrightarrow> (\<And>e. steps_le (h e) 0) \<Longrightarrow> steps_le (try_catch p ok h) k"
proof (induction p arbitrary: k)
  case (Return a)
  then show ?case using steps_le_mono [of "ok a" 0] by simp
next
  case (Raise e)
  then show ?case using steps_le_mono [of "h e" 0] by simp
qed auto

lemma steps_le_wait_ready_loop:
  "steps_le (wait_ready_loop S u b) (nat ((b + 199999) div 200000))"
proof (induction S u b rule: wait_ready_loop.induct)
  case (1 S u b)
  show ?case
  proof (cases "b \<le> 0")
    case True
    then show ?thesis by (subst wait_ready_loop.simps) simp
  next
    case False
    let ?k = "nat ((b + 199999) div 200000)"
    have k: "0 < ?k" using False by (simp add: pos_imp_zdiv_pos_iff)
    have rest: "steps_le (wait_ready_loop S u (b - max 0 elapsed - 200000)) (?k - 1)"
      if "\<not> b \<le> elapsed" "(r = Inr code \<and> \<not> code < 500) \<or> (r = Inl e \<and> is_TransportError e)"
      for r :: "exn + int" and elapsed code e
    proof -
      have "steps_le (wait_ready_loop S u (b - max 0 elapsed - 200000))
          (nat ((b - max 0 elapsed - 200000 + 199999) div 200000))"
        using 1(1) [of elapsed r e] 1(2) [of elapsed r code] False that by blast
      moreover have "nat ((b - max 0 elapsed - 200000 + 199999) div 200000) \<le> ?k - 1"
      proof -
        have "(b - max 0 elapsed - 200000 + 199999) div 200000 \<le> (b - 200000 + 199999) div 200000"
          by (rule zdiv_mono1) simp_all
        also have "\<dots> = (b + 199999) div 200000 - 1"
          using div_add_self2 [of 200000 "b - 1"] by simp
        finally show ?thesis by linarith
      qed
      ultimately show ?thesis by (rule steps_le_mono)
    qed
    show ?thesis
      using False
      by (subst wait_ready_loop.simps)
         (auto simp: probe_def simp del: One_nat_def intro!: steps_le_call [OF k] intro: rest split: prod.split sum.split)
  qed
qed

definition probe_url :: "settings \<Rightarrow> uuid \<Rightarrow> string" where
  "probe_url s i = ''http://'' @ container_name i @ '':'' @ str_of_int (sandbox_port s) @ ''/''"

lemma wait_ready_probes:
  "wait_ready S s i =
     try_catch (wait_ready_loop S (probe_url s i) (micros (sandbox_ready_timeout_s s)))
       (\<lambda>_. Return ())
       (\<lambda>e. if is_class TimeoutError e
            then Raise (Err SandboxNotReady
                   (''no answer on '' @ probe_url s i @ '' within '' @ str_of_float (sandbox_ready_timeout_s s) @ ''s''))
            else Raise e)"
  unfolding wait_ready_def probe_url_def Let_def by (rule refl)

text \<open>A probe that is not an answer: a refused connection, a time-out, or a server error.\<close>

fun no_answer :: "exn + int \<Rightarrow> bool" where
  "no_answer (Inr code) = (500 \<le> code)"
| "no_answer (Inl e) = is_TransportError e"

lemma run_probe: "run (probe S u) w = (Inr (fst (http_get S u (ext w))), w\<lparr>ext := snd (http_get S u (ext w))\<rparr>)"
  by (simp add: probe_def run_call split_beta)

lemma run_wait_ready_loop_silent:
  "(\<And>x. no_answer (fst (fst (http_get S u x)))) \<Longrightarrow>
   fst (run (wait_ready_loop S u b) w) = Inl (Err TimeoutError [])"
proof (induction S u b arbitrary: w rule: wait_ready_loop.induct)
  case (1 S u b)
  obtain r elapsed x where get: "http_get S u (ext w) = ((r, elapsed), x)" by (metis prod.exhaust)
  with "1.prems" [of "ext w"] have "no_answer r" by simp
  with 1 get show ?case
    by (subst wait_ready_loop.simps) (auto simp: run_pbind run_probe split: sum.split)
qed

text \<open>A sandbox that never answers is reported, not waited for: when every probe of it is refused,
  times out or ends in a server error, \<open>_wait_ready\<close> raises SandboxNotReady, whatever the readiness
  time-out.\<close>

theorem silent_sandbox_is_reported:
  assumes "\<And>x. no_answer (fst (fst (http_get S (probe_url s i) x)))"
  shows "\<exists>m. fst (run (wait_ready S s i) w) = Inl (Err SandboxNotReady m)"
proof -
  obtain v where "run (wait_ready_loop S (probe_url s i) (micros (sandbox_ready_timeout_s s))) w =
      (Inl (Err TimeoutError []), v)"
    using run_wait_ready_loop_silent [OF assms] by (metis eq_fst_iff)
  then show ?thesis by (simp add: wait_ready_probes run_try_catch)
qed

definition broken_server :: "stub services" where
  "broken_server = stub_services\<lparr>http_get := (\<lambda>_ x. ((Inr 502, 1000), x))\<rparr>"

theorem silent_sandbox_is_reported_witness:
  "\<exists>m. fst (run (wait_ready broken_server default_settings 7) (stub_world [] 0)) = Inl (Err SandboxNotReady m)"
  by (rule silent_sandbox_is_reported) (simp add: broken_server_def)

text \<open>C28. Probing is bounded: one readiness check makes at most one probe per started 200 ms of its
  time-out, however the probes end and however long each takes.\<close>

theorem probing_is_bounded:
  "steps_le (wait_ready S s i) (nat ((micros (sandbox_ready_timeout_s s) + 199999) div 200000))"
  unfolding wait_ready_probes by (rule steps_le_try_catch [OF steps_le_wait_ready_loop]) simp_all

section \<open>Launch\<close>

text \<open>The server of sandbox \<open>i\<close> answers its first probe in time, and answering changes no container.\<close>

definition answers :: "'e services \<Rightarrow> ('e \<Rightarrow> string \<Rightarrow> container option) \<Rightarrow> settings \<Rightarrow> uuid \<Rightarrow> bool" where
  "answers S named s i \<longleftrightarrow>
     (\<forall>x. named x (container_name i) \<noteq> None \<longrightarrow>
        (\<exists>code elapsed x'. http_get S (probe_url s i) x = ((Inr code, elapsed), x') \<and> code < 500 \<and>
           elapsed < micros (sandbox_ready_timeout_s s) \<and> named x' = named x)) \<and> 0 < micros (sandbox_ready_timeout_s s)"

context docker_daemon begin

lemma run_wait_ready_answered:
  assumes "answers S named s i" "named (ext w) (container_name i) \<noteq> None"
  shows "\<exists>x. run (wait_ready S s i) w = (Inr (), w\<lparr>ext := x\<rparr>) \<and> named x = named (ext w)"
proof -
  obtain code elapsed x where get: "http_get S (probe_url s i) (ext w) = ((Inr code, elapsed), x)" "code < 500"
      "elapsed < micros (sandbox_ready_timeout_s s)" "named x = named (ext w)"
    using assms unfolding answers_def by blast
  moreover have "0 < micros (sandbox_ready_timeout_s s)" using assms(1) by (simp add: answers_def)
  ultimately show ?thesis
    by (intro exI [of _ x]) (simp add: wait_ready_probes wait_ready_loop.simps run_simps run_probe)
qed

lemma run_launch:
  assumes "quiet w" "answers S named s i"
    and "\<And>d. named (ext w) (container_name i) = Some d \<Longrightarrow> c_status d = ''running'' \<Longrightarrow>
      \<exists>h hs. map_of (c_ports d) (tcp_port s) = Some (h # hs)"
  shows "\<exists>c h hs x. run (launch S s i t) w = (Inr (''http://'' @ sandbox_public_host s @ '':'' @ h), w\<lparr>ext := x\<rparr>) \<and>
    named x = (named (ext w))(container_name i \<mapsto> c) \<and> ensured s i t (named (ext w) (container_name i)) c \<and>
    map_of (c_ports c) (tcp_port s) = Some (h # hs)"
proof -
  obtain c h hs y where y: "run (ensure_container S s i t) w = (Inr h, w\<lparr>ext := y\<rparr>)"
      "named y = (named (ext w))(container_name i \<mapsto> c)" "ensured s i t (named (ext w) (container_name i)) c"
      "map_of (c_ports c) (tcp_port s) = Some (h # hs)"
    using run_ensure_container [of w i s t] assms(3) by blast
  have "named (ext (w\<lparr>ext := y\<rparr>)) (container_name i) \<noteq> None" by (simp add: y(2))
  from run_wait_ready_answered [OF assms(2) this] obtain x where
    x: "run (wait_ready S s i) (w\<lparr>ext := y\<rparr>) = (Inr (), w\<lparr>ext := x\<rparr>)" "named x = named y" by auto
  have "run (launch S s i t) w = (Inr (''http://'' @ sandbox_public_host s @ '':'' @ h), w\<lparr>ext := x\<rparr>)"
    by (simp add: launch_def run_pbind run_andthen run_run_bounded [OF assms(1) docker_calls_quiet(3)] y(1) x(1))
  with x(2) y(2-4) show ?thesis by (simp only:) blast
qed

end


lemma stub_answers: "answers stub_services stub_named default_settings 7"
  by (simp add: answers_def micros_def default_settings_def)


section \<open>Labels\<close>

text \<open>C26. What \<open>launch\<close> writes on a container, \<open>list_sandboxes\<close> reads back: the sandbox's id, and its expiry
  in whole seconds, at most a second early and never late, for every time before the year 10000.\<close>

theorem labels_round_trip:
  assumes "0 \<le> t" "t < seconds 253402300800" "c_labels c = labels (sandbox_spec s i t)"
  shows "\<exists>t'. found_sandboxes [c] = Inr [\<lparr>rs_sandbox_id = i, rs_expires_at = t'\<rparr>] \<and> t' \<le> t \<and> t < t' + seconds 1"
  using read_labels_spec [OF assms(3,1,2)] by auto

theorem labels_round_trip_witness:
  "\<exists>t'. found_sandboxes [stub_container (sandbox_spec default_settings 7 1500000)] =
     Inr [\<lparr>rs_sandbox_id = 7, rs_expires_at = t'\<rparr>] \<and> t' \<le> 1500000"
  using labels_round_trip [of 1500000 "stub_container (sandbox_spec default_settings 7 1500000)" default_settings 7]
  by (auto simp: seconds_def stub_container_def)

text \<open>C30. Malformed labels are skipped, but not all of them: a container without the labels, with no
  number, no UUID or a year outside 1 to 9999 is left out of the list and every other is in it; a
  number that fits no time stamp of the platform (OverflowError, OSError) makes the whole
  listing fail instead.\<close>

theorem listing_skips_malformed_labels:
  "case found_sandboxes cs of
     Inr rs \<Rightarrow> rs = List.map_filter readable cs \<and> \<not> (\<exists>c \<in> set cs. overflowing c)
   | Inl e \<Rightarrow> (\<exists>c \<in> set cs. overflowing c) \<and> \<not> is_class KeyError e \<and> \<not> is_class ValueError e"
proof (cases "\<exists>c \<in> set cs. overflowing c")
  case True
  with found_sandboxes_overflowing [OF True] show ?thesis by auto
next
  case False
  with found_sandboxes_readable [of cs] show ?thesis by auto
qed

text \<open>A label with a number of this size is such a one.\<close>

lemma huge_label_overflows:
  assumes "map_of (c_labels c) LABEL_EXPIRES = Some (str_of_int n)" "2 ^ 63 \<le> n" "n < 10 ^ 20"
  shows "overflowing c"
proof -
  have "py_int 10 (str_of_int n) = Inr n"
    by (rule py_int_str_of_int [where k = 20]) (use assms(2,3) in simp_all)
  with assms show ?thesis
    by (simp add: overflowing_def read_labels_def label_def fromtimestamp_def)
qed

section \<open>A lost create race\<close>

text \<open>Another worker creates the container between the look-up (step 0) and the create (step 1).\<close>

definition other_creates :: "('e \<Rightarrow> 'e) \<Rightarrow> nat \<Rightarrow> 'e world \<Rightarrow> 'e world" where
  "other_creates g k w = (if k = 1 then w\<lparr>ext := g (ext w)\<rparr> else w)"

lemma run_with_call:
  "run_with (pbind (call f) q) I k w =
     (case f (ext (I k w)) of
        (Inl e, x) \<Rightarrow> (Inl e, (I k w)\<lparr>ext := x\<rparr>)
      | (Inr a, x) \<Rightarrow> run_with (q a) I (Suc k) ((I k w)\<lparr>ext := x\<rparr>))"
  "run_with (try_catch (call f) ok h) I k w =
     (case f (ext (I k w)) of
        (Inl e, x) \<Rightarrow> run_with (h e) I (Suc k) ((I k w)\<lparr>ext := x\<rparr>)
      | (Inr a, x) \<Rightarrow> run_with (ok a) I (Suc k) ((I k w)\<lparr>ext := x\<rparr>))"
  by (simp_all add: call_def atomically_def Let_def split: prod.split sum.split)

lemma try_catch_pbind_nested: "pbind (try_catch p ok h) k = try_catch p (\<lambda>a. pbind (ok a) k) (\<lambda>e. pbind (h e) k)"
  by (induction p) simp_all

context docker_daemon begin

lemma run_with_lost_race:
  assumes "named (ext w) (container_name i) = None" "\<And>x. named (g x) = (named x)(container_name i \<mapsto> d)"
    and "map_of (c_ports d) (tcp_port s) = Some (h # hs)"
  shows "\<exists>x. run_with (ensure_container S s i t) (other_creates g) 0 w = (Inr h, w\<lparr>ext := x\<rparr>) \<and>
    named x = (named (ext w))(container_name i \<mapsto> d)"
proof -
  let ?n = "container_name i"
  obtain m x1 where get1: "containers_get S ?n (ext w) = (Inl (Err NotFound m), x1)" "named x1 = named (ext w)"
    using get_missing [OF assms(1)] get_state [of ?n "ext w"] by (metis prod.collapse)
  then have "named (g x1) (name (sandbox_spec s i t)) \<noteq> None" by (simp add: assms(2))
  from run_taken [OF this] obtain m' x2 where
    create: "containers_run S (sandbox_spec s i t) (g x1) = (Inl (Err (APIError 409) m'), x2)" "named x2 = named (g x1)"
    by (metis prod.collapse)
  have x2: "named x2 = (named (ext w))(?n \<mapsto> d)" by (simp add: create(2) assms(2) get1(2))
  then have "named x2 ?n = Some d" by simp
  from get_found [OF this] get_state [of ?n x2] obtain x3 where
    get2: "containers_get S ?n x2 = (Inr d, x3)" "named x3 = named x2" by (metis prod.collapse)
  then have "named x3 (c_name d) = Some d" using own_name [of x3 ?n d] x2 by simp
  from reload_found [OF this] reload_state [of d x3] obtain x4 where
    reload: "container_reload S d x3 = (Inr d, x4)" "named x4 = named x3" by (metis prod.collapse)
  have "run_with (ensure_container S s i t) (other_creates g) 0 w = (Inr h, w\<lparr>ext := x4\<rparr>)"
    by (simp add: ensure_container_def docker_get_def Let_def run_with_call try_catch_pbind_nested other_creates_def
        get1(1) create(1) get2(1) reload(1) host_port_def assms(3))
  moreover have "named x4 = (named (ext w))(?n \<mapsto> d)" by (simp only: reload(2) get2(2) x2)
  ultimately show ?thesis by blast
qed

end

text \<open>C19. A lost create race is no error: when another worker creates the sandbox's container between the
  look-up and the create, the 409 is answered by reusing that container; its port is returned and
  no second container exists.\<close>

theorem lost_create_race_reuses:
  assumes "docker_daemon S named" "named (ext w) (container_name i) = None"
    and "\<And>x. named (g x) = (named x)(container_name i \<mapsto> d)"
    and "map_of (c_ports d) (tcp_port s) = Some (h # hs)"
  shows "\<exists>x. run_with (ensure_container S s i t) (other_creates g) 0 w = (Inr h, w\<lparr>ext := x\<rparr>) \<and>
    named x = (named (ext w))(container_name i \<mapsto> d)"
  by (rule docker_daemon.run_with_lost_race [OF assms])

definition other_worker :: "stub \<Rightarrow> stub" where
  "other_worker x = x\<lparr>held := stub_container (sandbox_spec default_settings 7 0) # held x\<rparr>"

theorem lost_create_race_reuses_witness:
  "\<exists>x. run_with (ensure_container stub_services default_settings 7 0) (other_creates other_worker) 0 (stub_world [] 0) =
     (Inr ''49153'', (stub_world [] 0)\<lparr>ext := x\<rparr>) \<and>
   stub_named x = (stub_named empty_stub)(container_name 7 \<mapsto> stub_container (sandbox_spec default_settings 7 0))"
  using lost_create_race_reuses [OF stub.docker_daemon_axioms, of "stub_world [] 0" 7 other_worker
      "stub_container (sandbox_spec default_settings 7 0)" default_settings "''49153''" "[]" 0]
  by (simp add: other_worker_def stub_named_Cons tcp_port_default)
     (simp add: stub_named_def empty_stub_def stub_container_def)

end
