(* ===== verification/Sweeps.thy ===== *)
theory Sweeps
  imports Reaper Launching "HOL-Library.Multiset"
begin

text \<open>
  What one sweep of the reaper (\<open>reconcile_sandboxes\<close>, \<open>src/app/worker.py\<close>) achieves: the abstract
  specification of a sweep, row by row and container by container, and the proof that the sweep
  computes it on every runtime that keeps the contract \<open>sandbox_runtime\<close>.
\<close>

section \<open>The specification of a sweep\<close>

definition wanted :: "datetime \<Rightarrow> sandbox list \<Rightarrow> uuid \<Rightarrow> datetime \<Rightarrow> bool" where
  "wanted now rows i t \<longleftrightarrow> now < t \<and> (\<exists>r. find_row i rows = Some r \<and> status r \<notin> NO_CONTAINER_WANTED)"

text \<open>The containers that stay.\<close>

definition swept_live :: "datetime \<Rightarrow> sandbox list \<Rightarrow> (uuid \<Rightarrow> datetime option) \<Rightarrow> uuid \<Rightarrow> datetime option" where
  "swept_live now rows live i = (case live i of Some t \<Rightarrow> if wanted now rows i t then Some t else None | None \<Rightarrow> None)"

text \<open>What becomes of a row.\<close>

definition swept_row :: "datetime \<Rightarrow> (uuid \<Rightarrow> datetime option) \<Rightarrow> sandbox \<Rightarrow> sandbox" where
  "swept_row now live r =
     (case live (sid r) of
        Some t \<Rightarrow>
          if status r \<in> ACTIVE_STATUSES \<and> (t \<le> now \<or> status r \<in> NO_CONTAINER_WANTED)
          then r\<lparr>status := STOPPED, updated_at := now\<rparr> else r
      | None \<Rightarrow>
          if status r = RUNNING then r\<lparr>status := FAILED, error := Some ''container disappeared'', updated_at := now\<rparr>
          else if status r = STOPPING then r\<lparr>status := STOPPED, updated_at := now\<rparr> else r)"

section \<open>The table under the sweep's updates\<close>

lemma update_rows_update_rows:
  assumes "\<And>r. sid (f r) = sid r"
    and "\<And>r. P r \<Longrightarrow> \<not> Q ((f r)\<lparr>updated_at := now\<rparr>)"
  shows "update_rows Q f now (update_rows P f now rows) = update_rows (\<lambda>r. P r \<or> Q r) f now rows"
  using assms(2) by (auto simp: update_rows_def)

lemma run_transition_any:
  "quiet w \<Longrightarrow> \<exists>b. run (transition i S f) w =
     (Inr b, w\<lparr>sandboxes := update_rows (\<lambda>q. sid q = i \<and> status q \<in> S) f (clock w) (sandboxes w)\<rparr>)"
  by (simp add: transition_def run_simps)

text \<open>The sandboxes whose containers have to go.\<close>

definition gone :: "datetime \<Rightarrow> (uuid \<rightharpoonup> status) \<Rightarrow> runtime_sandbox list \<Rightarrow> uuid list" where
  "gone now statuses cs = map rs_sandbox_id (filter (\<lambda>c. reap_reason now statuses c \<noteq> None) cs)"

abbreviation stop_rows :: "uuid set \<Rightarrow> datetime \<Rightarrow> sandbox list \<Rightarrow> sandbox list" where
  "stop_rows is \<equiv> update_rows (\<lambda>r. sid r \<in> is \<and> status r \<in> ACTIVE_STATUSES) (\<lambda>r. r\<lparr>status := STOPPED\<rparr>)"

lemma stop_rows_insert:
  "stop_rows is now (update_rows (\<lambda>q. sid q = i \<and> status q \<in> ACTIVE_STATUSES) (\<lambda>r. r\<lparr>status := STOPPED\<rparr>) now rows) =
     stop_rows (insert i is) now rows"
  by (auto simp: update_rows_def)

definition removed_total :: "reaped \<Rightarrow> nat" where
  "removed_total n = expired n + orphan n"

lemma bump_total [simp]:
  "why \<noteq> VANISHED \<Longrightarrow> removed_total (bump why n) = Suc (removed_total n)"
  "why \<noteq> VANISHED \<Longrightarrow> vanished (bump why n) = vanished n"
  by (cases why; simp add: removed_total_def)+

lemma reap_reason_VANISHED [simp]: "reap_reason now st c = Some why \<Longrightarrow> why \<noteq> VANISHED"
  by (auto simp: reap_reason_def split: if_splits option.splits)

section \<open>Vanished containers\<close>

abbreviation fail_row :: "sandbox \<Rightarrow> sandbox" where
  "fail_row r \<equiv> r\<lparr>status := FAILED, error := Some ''container disappeared''\<rparr>"

abbreviation fail_rows :: "uuid set \<Rightarrow> datetime \<Rightarrow> sandbox list \<Rightarrow> sandbox list" where
  "fail_rows is \<equiv> update_rows (\<lambda>r. sid r \<in> is \<and> status r = RUNNING) fail_row"

definition running_in :: "sandbox list \<Rightarrow> uuid \<Rightarrow> bool" where
  "running_in rows i \<longleftrightarrow> (\<exists>r. find_row i rows = Some r \<and> status r = RUNNING)"

lemma fail_rows_insert:
  "fail_rows is now (update_rows (\<lambda>q. sid q = i \<and> status q \<in> {RUNNING}) fail_row now rows) = fail_rows (insert i is) now rows"
  by (auto simp: update_rows_def)

lemma run_fail_vanished:
  assumes "quiet w" "distinct (map sid (sandboxes w))" "distinct is" "\<And>i. i \<in> set is \<Longrightarrow> running_in (sandboxes w) i"
  shows "\<exists>m ev. run (fail_vanished is n) w =
      (Inr (m, None), w\<lparr>sandboxes := fail_rows (set is) (clock w) (sandboxes w), emitted := ev\<rparr>) \<and>
    removed_total m = removed_total n \<and> vanished m = vanished n + length is"
  using assms
proof (induction "is" arbitrary: n w)
  case Nil
  have "fail_rows {} (clock w) (sandboxes w) = sandboxes w" by (rule update_rows_id) simp
  then show ?case by (auto intro!: exI [of _ "emitted w"])
next
  case (Cons i "is")
  let ?rows = "update_rows (\<lambda>q. sid q = i \<and> status q \<in> {RUNNING}) fail_row (clock w) (sandboxes w)"
  let ?w = "w\<lparr>sandboxes := ?rows, emitted := emitted w @ [SANDBOXES_REAPED (reason_text VANISHED)]\<rparr>"
  from Cons.prems(2,4) have "length (filter (\<lambda>q. sid q = i \<and> status q \<in> {RUNNING}) (sandboxes w)) = 1"
    by (subst rowcount_1) (auto simp: running_in_def)
  then have "run (transition i {RUNNING} fail_row) w = (Inr True, w\<lparr>sandboxes := ?rows\<rparr>)"
    using Cons.prems(1) by (simp add: transition_def run_simps del: One_nat_def)
  then have step: "run (fail_vanished (i # is) n) w = run (fail_vanished is (bump VANISHED n)) ?w"
    by (simp add: guarded_def unless_stopped_def count_reason_def run_simps)
  have "running_in ?rows j" if "j \<in> set is" for j
  proof -
    have "i \<noteq> j" using that Cons.prems(3) by auto
    moreover obtain r where "find_row j (sandboxes w) = Some r" "status r = RUNNING"
      using Cons.prems(4) [of j] \<open>j \<in> set is\<close> by (auto simp: running_in_def)
    ultimately show ?thesis
      by (auto simp: running_in_def find_row_update_rows dest: find_row_sid)
  qed
  with Cons.prems have pre: "quiet ?w" "distinct (map sid (sandboxes ?w))" "distinct is"
      "\<And>j. j \<in> set is \<Longrightarrow> running_in (sandboxes ?w) j" by simp_all
  obtain m ev where IH: "run (fail_vanished is (bump VANISHED n)) ?w =
      (Inr (m, None), ?w\<lparr>sandboxes := fail_rows (set is) (clock ?w) (sandboxes ?w), emitted := ev\<rparr>)"
    "removed_total m = removed_total (bump VANISHED n)" "vanished m = vanished (bump VANISHED n) + length is"
    using Cons.IH [OF pre, of "bump VANISHED n"] by blast
  have "run (fail_vanished (i # is) n) w =
      (Inr (m, None), w\<lparr>sandboxes := fail_rows (set (i # is)) (clock w) (sandboxes w), emitted := ev\<rparr>)"
    unfolding step IH(1) list.set fail_rows_insert [symmetric] by simp
  with IH(2,3) show ?case by (intro exI [of _ m] exI [of _ ev]) (simp add: removed_total_def)
qed

section \<open>The sweep\<close>

text \<open>The three kinds of updates of a sweep, on the sets of sandboxes they are for, are its specification.\<close>

lemma swept_rows:
  assumes "\<And>r. r \<in> set rows \<Longrightarrow> sid r \<in> G \<longleftrightarrow> (\<exists>t. live (sid r) = Some t \<and> (t \<le> now \<or> status r \<in> NO_CONTAINER_WANTED))"
    and "\<And>r. r \<in> set rows \<Longrightarrow> sid r \<in> L \<longleftrightarrow> live (sid r) = None \<and> status r = RUNNING"
    and "\<And>i. i \<in> I \<longleftrightarrow> live i \<noteq> None"
  shows "update_rows (\<lambda>r. status r = STOPPING \<and> sid r \<notin> I) (\<lambda>r. r\<lparr>status := STOPPED\<rparr>) now
      (fail_rows L now (stop_rows G now rows)) = map (swept_row now live) rows"
  unfolding update_rows_def map_map
proof (rule map_cong [OF refl])
  fix r assume r: "r \<in> set rows"
  show "((\<lambda>r. if status r = STOPPING \<and> sid r \<notin> I then r\<lparr>status := STOPPED, updated_at := now\<rparr> else r) \<circ>
      ((\<lambda>r. if sid r \<in> L \<and> status r = RUNNING then (fail_row r)\<lparr>updated_at := now\<rparr> else r) \<circ>
       (\<lambda>r. if sid r \<in> G \<and> status r \<in> ACTIVE_STATUSES then r\<lparr>status := STOPPED, updated_at := now\<rparr> else r))) r =
    swept_row now live r"
    using assms(1,2) [OF r] assms(3) [of "sid r"]
    by (cases "live (sid r)"; cases "status r") (auto simp: swept_row_def NO_CONTAINER_WANTED_def)
qed

lemma map_of_rows:
  assumes "distinct (map sid rows)"
  shows "map_of (map (\<lambda>r. (sid r, g r)) (filter P rows)) i =
    (case find_row i rows of None \<Rightarrow> None | Some r \<Rightarrow> if P r then Some (g r) else None)"
  using assms
proof (induction rows)
  case (Cons r rows)
  have "find_row i rows = None" if "i = sid r" using that Cons.prems by (auto simp: find_row_None)
  with Cons show ?case by (auto simp: find_row_def split: option.split)
qed (simp add: find_row_def)

lemma gone_iff:
  assumes "map_of (map (\<lambda>c. (rs_sandbox_id c, rs_expires_at c)) cs) = live" "distinct (map rs_sandbox_id cs)"
    and "distinct (map sid rows)"
    and "st = map_of (map (\<lambda>r. (sid r, status r)) (filter (\<lambda>r. sid r \<in> set (map rs_sandbox_id cs)) rows))"
  shows "i \<in> set (gone now st cs) \<longleftrightarrow> (\<exists>t. live i = Some t \<and> \<not> wanted now rows i t)"
proof -
  have live: "live (rs_sandbox_id c) = Some (rs_expires_at c)" if "c \<in> set cs" for c
    unfolding assms(1) [symmetric] using that assms(2) by (intro map_of_is_SomeI) (auto simp: comp_def)
  have listed: "\<exists>c \<in> set cs. rs_sandbox_id c = i \<and> rs_expires_at c = t" if "live i = Some t" for i t
  proof -
    from that have "(i, t) \<in> set (map (\<lambda>c. (rs_sandbox_id c, rs_expires_at c)) cs)"
      unfolding assms(1) [symmetric] by (rule map_of_SomeD)
    then show ?thesis by auto
  qed
  have st: "st (rs_sandbox_id c) = map_option status (find_row (rs_sandbox_id c) rows)" if "c \<in> set cs" for c
    using that by (auto simp: assms(4) map_of_rows [OF assms(3)] dest: find_row_sid split: option.split)
  have reason: "reap_reason now st c \<noteq> None \<longleftrightarrow> \<not> wanted now rows (rs_sandbox_id c) (rs_expires_at c)" if "c \<in> set cs" for c
    by (auto simp: reap_reason_def st [OF that] wanted_def split: option.splits)
  show ?thesis
  proof
    assume "i \<in> set (gone now st cs)"
    then obtain c where "c \<in> set cs" "reap_reason now st c \<noteq> None" "rs_sandbox_id c = i"
      unfolding gone_def set_map set_filter by blast
    with reason live show "\<exists>t. live i = Some t \<and> \<not> wanted now rows i t" by metis
  next
    assume "\<exists>t. live i = Some t \<and> \<not> wanted now rows i t"
    with listed reason obtain c where "c \<in> set cs" "rs_sandbox_id c = i" "reap_reason now st c \<noteq> None"
      by metis
    then show "i \<in> set (gone now st cs)" unfolding gone_def set_map set_filter by blast
  qed
qed

context sandbox_runtime begin

lemma run_reap_containers:
  assumes "quiet w" "ok (ext w)"
  shows "\<exists>m x ev. run (reap_containers R now st cs n) w =
      (Inr (m, None), w\<lparr>sandboxes := stop_rows (set (gone now st cs)) (clock w) (sandboxes w), ext := x, emitted := ev\<rparr>) \<and>
    ok x \<and> live x = (live (ext w)) |` (- set (gone now st cs)) \<and>
    removed_total m = removed_total n + length (gone now st cs) \<and> vanished m = vanished n"
  using assms
proof (induction cs arbitrary: n w)
  case Nil
  have "stop_rows {} (clock w) (sandboxes w) = sandboxes w" by (rule update_rows_id) simp
  then show ?case using Nil by (auto simp: gone_def intro!: exI [of _ "ext w"] exI [of _ "emitted w"])
next
  case (Cons c cs)
  show ?case
  proof (cases "reap_reason now st c")
    case None
    with Cons show ?thesis by (simp add: gone_def)
  next
    case (Some why)
    let ?i = "rs_sandbox_id c"
    obtain x where x: "run (rt_remove R ?i) w = (Inr (live (ext w) ?i \<noteq> None), w\<lparr>ext := x\<rparr>)" "ok x"
        "live x = (live (ext w))(?i := None)"
      using remove_law [OF Cons.prems] by blast
    let ?stop = "\<lambda>r. r\<lparr>status := STOPPED\<rparr>"
    let ?w = "w\<lparr>ext := x, sandboxes := update_rows (\<lambda>q. sid q = ?i \<and> status q \<in> ACTIVE_STATUSES) ?stop (clock w) (sandboxes w),
        emitted := emitted w @ [SANDBOXES_REAPED (reason_text why)]\<rparr>"
    obtain b where b: "run (transition ?i ACTIVE_STATUSES ?stop) (w\<lparr>ext := x\<rparr>) =
        (Inr b, w\<lparr>ext := x, sandboxes := update_rows (\<lambda>q. sid q = ?i \<and> status q \<in> ACTIVE_STATUSES) ?stop (clock w) (sandboxes w)\<rparr>)"
      using run_transition_any [of "w\<lparr>ext := x\<rparr>" ?i ACTIVE_STATUSES ?stop] Cons.prems(1) by auto
    have step: "run (reap_containers R now st (c # cs) n) w = run (reap_containers R now st cs (bump why n)) ?w"
      by (simp add: Some guarded_def unless_stopped_def count_reason_def run_simps x(1) b)
    have "quiet ?w" "ok (ext ?w)" using Cons.prems(1) x(2) by simp_all
    from Cons.IH [OF this, of "bump why n"] obtain m y ev where
      IH: "run (reap_containers R now st cs (bump why n)) ?w =
        (Inr (m, None), ?w\<lparr>sandboxes := stop_rows (set (gone now st cs)) (clock ?w) (sandboxes ?w), ext := y, emitted := ev\<rparr>)"
      "ok y" "live y = (live (ext ?w)) |` (- set (gone now st cs))"
      "removed_total m = removed_total (bump why n) + length (gone now st cs)" "vanished m = vanished (bump why n)"
      by blast
    have g: "gone now st (c # cs) = ?i # gone now st cs" by (simp add: gone_def Some)
    have why: "why \<noteq> VANISHED" using Some by simp
    have "live y = (live (ext w)) |` (- set (gone now st (c # cs)))"
      by (auto simp: IH(3) x(3) g fun_eq_iff restrict_map_def)
    moreover have "run (reap_containers R now st (c # cs) n) w =
        (Inr (m, None), w\<lparr>sandboxes := stop_rows (set (gone now st (c # cs))) (clock w) (sandboxes w), ext := y, emitted := ev\<rparr>)"
      unfolding step IH(1) g list.set stop_rows_insert [symmetric] by simp
    ultimately show ?thesis
      using IH(2,4,5) why by (intro exI [of _ m] exI [of _ y] exI [of _ ev]) (simp add: g)
  qed
qed

lemma run_sweep:
  fixes w :: "'e world"
  assumes "quiet w" "ok (ext w)" "distinct (map sid (sandboxes w))"
    and "\<And>xs. mset (set_order xs) = mset xs"
  shows "\<exists>m x ev. run (sweep R set_order) w =
      (Inr (m, None), w\<lparr>sandboxes := map (swept_row (clock w) (live (ext w))) (sandboxes w), ext := x, emitted := ev\<rparr>) \<and>
    ok x \<and> live x = swept_live (clock w) (sandboxes w) (live (ext w)) \<and>
    removed_total m = card {i. live (ext w) i \<noteq> None \<and> live x i = None} \<and>
    vanished m = length (filter (\<lambda>r. status r = RUNNING \<and> live (ext w) (sid r) = None) (sandboxes w))"
proof -
  let ?rows = "sandboxes w" and ?now = "clock w" and ?live = "live (ext w)"
  obtain cs y where cs: "run (rt_list_sandboxes R) w = (Inr cs, w\<lparr>ext := y\<rparr>)" "ok y" "live y = ?live"
      "distinct (map rs_sandbox_id cs)" "map_of (map (\<lambda>c. (rs_sandbox_id c, rs_expires_at c)) cs) = ?live"
    using list_law [OF assms(1,2)] by blast
  let ?ids = "map rs_sandbox_id cs"
  let ?st = "map_of (map (\<lambda>r. (sid r, status r)) (filter (\<lambda>r. sid r \<in> set ?ids) ?rows))"
  let ?gone = "gone ?now ?st cs"
  let ?lost = "set_order (filter (\<lambda>i. i \<notin> set ?ids) (map sid (filter (\<lambda>r. status r = RUNNING) ?rows)))"
  let ?rows1 = "stop_rows (set ?gone) ?now ?rows"
  let ?rows2 = "fail_rows (set ?lost) ?now ?rows1"
  let ?rows3 = "update_rows (\<lambda>r. status r = STOPPING \<and> sid r \<notin> set ?ids) (\<lambda>r. r\<lparr>status := STOPPED\<rparr>) ?now ?rows2"
  have dom: "i \<in> set ?ids \<longleftrightarrow> ?live i \<noteq> None" for i
    unfolding cs(5) [symmetric] by (auto simp: map_of_eq_None_iff image_iff)
  have gone: "i \<in> set ?gone \<longleftrightarrow> (\<exists>t. ?live i = Some t \<and> \<not> wanted ?now ?rows i t)" for i
    by (rule gone_iff [OF cs(5,4) assms(3) refl])
  have mset: "set (set_order xs) = set xs" "length (set_order xs) = length xs" "distinct (set_order xs) = distinct xs" for xs
    by (rule mset_eq_setD mset_eq_length mset_eq_imp_distinct_iff; rule assms(4))+
  have lost: "i \<in> set ?lost \<longleftrightarrow> ?live i = None \<and> (\<exists>r \<in> set ?rows. sid r = i \<and> status r = RUNNING)" for i
    using dom [of i] by (auto simp: mset)
  have "distinct ?lost"
    using assms(3) by (auto simp: mset intro!: distinct_filter distinct_map_filter)
  have row: "find_row (sid r) ?rows = Some r" if "r \<in> set ?rows" for r
    by (rule find_row_mem [OF assms(3) that])
  have "?rows3 = map (swept_row ?now ?live) ?rows"
  proof -
    have unwanted: "sid r \<in> set ?gone \<longleftrightarrow> (\<exists>t. ?live (sid r) = Some t \<and> (t \<le> ?now \<or> status r \<in> NO_CONTAINER_WANTED))"
      if "r \<in> set ?rows" for r
      unfolding gone using row [OF that] by (auto simp: wanted_def)
    have missing: "sid r \<in> set ?lost \<longleftrightarrow> ?live (sid r) = None \<and> status r = RUNNING" if "r \<in> set ?rows" for r
      unfolding lost using that by (auto, metis option.inject row)
    show ?thesis by (rule swept_rows [OF unwanted missing dom])
  qed
  obtain m1 x ev1 where reap: "run (reap_containers R ?now ?st cs no_reaped) (w\<lparr>ext := y\<rparr>) =
      (Inr (m1, None), w\<lparr>sandboxes := ?rows1, ext := x, emitted := ev1\<rparr>)"
    "ok x" "live x = ?live |` (- set ?gone)" "removed_total m1 = length ?gone" "vanished m1 = 0"
    using run_reap_containers [of "w\<lparr>ext := y\<rparr>" ?now ?st cs no_reaped] assms(1) cs(2,3)
    by (auto simp: removed_total_def no_reaped_def)
  let ?w1 = "w\<lparr>sandboxes := ?rows1, ext := x, emitted := ev1\<rparr>"
  have "running_in ?rows1 i" if lost_i: "i \<in> set ?lost" for i
  proof -
    obtain r where r: "r \<in> set ?rows" "sid r = i" "status r = RUNNING" "?live i = None"
      using lost_i lost [of i] by blast
    then have "i \<notin> set ?gone" unfolding gone by simp
    with row [OF r(1)] r show ?thesis by (auto simp: running_in_def find_row_update_rows)
  qed
  then obtain m2 ev2 where fail: "run (fail_vanished ?lost m1) ?w1 =
      (Inr (m2, None), ?w1\<lparr>sandboxes := ?rows2, emitted := ev2\<rparr>)"
    "removed_total m2 = removed_total m1" "vanished m2 = vanished m1 + length ?lost"
    using run_fail_vanished [of ?w1 ?lost m1] assms(1,3) \<open>distinct ?lost\<close> by auto
  have run: "run (sweep R set_order) w = (Inr (m2, None), ?w1\<lparr>sandboxes := ?rows3, emitted := ev2\<rparr>)"
    using assms(1)
    by (simp add: sweep_def guarded_def unless_stopped_def Let_def run_simps cs(1) reap(1) fail(1) del: set_map)
  have "live x = swept_live ?now ?rows ?live"
    by (rule ext) (simp add: reap(3) swept_live_def restrict_map_def gone del: set_map split: option.split)
  moreover have "{i. ?live i \<noteq> None \<and> live x i = None} = set ?gone"
    unfolding set_eq_iff reap(3) gone by (auto simp: restrict_map_def gone simp del: set_map split: if_splits)
  then have "card {i. ?live i \<noteq> None \<and> live x i = None} = length ?gone"
    by (simp add: gone_def distinct_card distinct_map_filter [OF cs(4)] del: set_map)
  moreover have "length ?lost = length (filter (\<lambda>r. status r = RUNNING \<and> ?live (sid r) = None) ?rows)"
    by (simp add: mset(2) filter_map comp_def dom conj_commute del: set_map)
  ultimately show ?thesis
    using run \<open>?rows3 = map (swept_row ?now ?live) ?rows\<close> reap(2,4,5) fail(2,3)
    by (intro exI [of _ m2] exI [of _ x] exI [of _ ev2]) simp
qed

end

section \<open>Properties of the reaper\<close>

context sandbox_runtime begin

lemma run_reconcile:
  fixes w :: "'e world"
  assumes "ctx_runtime c = R" "quiet w" "ok (ext w)" "distinct (map sid (sandboxes w))"
    and "\<And>xs. mset (set_order xs) = mset xs"
  shows "\<exists>m x ev. run (reconcile_sandboxes c set_order) w =
      (Inr m, w\<lparr>sandboxes := map (swept_row (clock w) (live (ext w))) (sandboxes w), ext := x,
         emitted := ev @ [RECONCILE_RUNS ''success'']\<rparr>) \<and>
    ok x \<and> live x = swept_live (clock w) (sandboxes w) (live (ext w)) \<and>
    removed_total m = card {i. live (ext w) i \<noteq> None \<and> live x i = None} \<and>
    vanished m = length (filter (\<lambda>r. status r = RUNNING \<and> live (ext w) (sid r) = None) (sandboxes w))"
proof -
  obtain m x ev where "run (sweep R set_order) w =
      (Inr (m, None), w\<lparr>sandboxes := map (swept_row (clock w) (live (ext w))) (sandboxes w), ext := x, emitted := ev\<rparr>)"
    "ok x" "live x = swept_live (clock w) (sandboxes w) (live (ext w))"
    "removed_total m = card {i. live (ext w) i \<noteq> None \<and> live x i = None}"
    "vanished m = length (filter (\<lambda>r. status r = RUNNING \<and> live (ext w) (sid r) = None) (sandboxes w))"
    using run_sweep [OF assms(2-5)] by blast
  then show ?thesis
    by (intro exI [of _ m] exI [of _ x] exI [of _ ev]) (simp add: reconcile_sandboxes_def run_simps assms(1))
qed

text \<open>After one sweep there is nothing left to do.\<close>

lemma swept_row_again:
  assumes "find_row (sid r) rows = Some r"
  shows "swept_row now (swept_live now rows l) (swept_row now l r) = swept_row now l r"
proof -
  have "sid (swept_row now l r) = sid r" by (simp add: swept_row_def split: option.split)
  with assms show ?thesis
    by (cases "l (sid r)"; cases "status r")
       (auto simp: swept_row_def swept_live_def wanted_def NO_CONTAINER_WANTED_def)
qed

lemma map_sid_swept [simp]: "map sid (map (swept_row now l) rows) = map sid rows"
  by (auto simp: swept_row_def split: option.split)

lemma swept_live_again:
  assumes "distinct (map sid rows)"
  shows "swept_live now (map (swept_row now l) rows) (swept_live now rows l) = swept_live now rows l"
proof (rule ext)
  fix i
  have "find_row i (map (swept_row now l) rows) = map_option (swept_row now l) (find_row i rows)"
    unfolding find_row_def by (rule find_map_same) (simp add: swept_row_def split: option.split)
  then show "swept_live now (map (swept_row now l) rows) (swept_live now rows l) i = swept_live now rows l i"
    by (cases "l i"; cases "find_row i rows")
       (auto simp: swept_live_def wanted_def swept_row_def dest: find_row_sid split: option.split)
qed

lemma run_reconcile_again:
  fixes w :: "'e world"
  assumes "ctx_runtime c = R" "quiet w" "ok (ext w)" "distinct (map sid (sandboxes w))"
    and "\<And>xs. mset (set_order xs) = mset xs"
    and "run (reconcile_sandboxes c set_order) w = (r, v)"
  shows "\<exists>m u. run (reconcile_sandboxes c set_order) v = (Inr m, u) \<and> sandboxes u = sandboxes v \<and>
    live (ext u) = live (ext v) \<and> removed_total m = 0 \<and> vanished m = 0"
proof -
  let ?now = "clock w" and ?rows = "sandboxes w" and ?live = "live (ext w)"
  obtain x ev where v: "v = w\<lparr>sandboxes := map (swept_row ?now ?live) ?rows, ext := x, emitted := ev\<rparr>"
      "ok x" "live x = swept_live ?now ?rows ?live"
    using run_reconcile [where c = c and set_order = set_order, OF assms(1-5)] assms(6) by force
  have pre: "quiet v" "ok (ext v)" "distinct (map sid (sandboxes v))"
    using assms(2,4) v(1,2) by (simp_all del: map_map)
  obtain m y ev' where u: "run (reconcile_sandboxes c set_order) v =
      (Inr m, v\<lparr>sandboxes := map (swept_row (clock v) (live (ext v))) (sandboxes v), ext := y,
         emitted := ev' @ [RECONCILE_RUNS ''success'']\<rparr>)"
    "live y = swept_live (clock v) (sandboxes v) (live (ext v))"
    "removed_total m = card {i. live (ext v) i \<noteq> None \<and> live y i = None}"
    "vanished m = length (filter (\<lambda>r. status r = RUNNING \<and> live (ext v) (sid r) = None) (sandboxes v))"
    using run_reconcile [where c = c and set_order = set_order, OF assms(1) pre assms(5)] by blast
  have rows: "map (swept_row (clock v) (live (ext v))) (sandboxes v) = sandboxes v"
    using swept_row_again [OF find_row_mem [OF assms(4)]] v(1,3) by simp
  have live: "live y = live (ext v)"
    using u(2) v(1,3) swept_live_again [OF assms(4), of ?now ?live] by simp
  have "\<not> (status r = RUNNING \<and> live (ext v) (sid r) = None)" if "r \<in> set (sandboxes v)" for r
  proof
    assume r: "status r = RUNNING \<and> live (ext v) (sid r) = None"
    have "swept_row (clock v) (live (ext v)) r = r" using rows that by (metis map_eq_conv map_ident)
    moreover have "status (swept_row (clock v) (live (ext v)) r) = FAILED" using r by (simp add: swept_row_def)
    ultimately show False using r by simp
  qed
  with u live rows show ?thesis by (auto simp: filter_empty_conv)
qed

end

text \<open>C16. One sweep converges the table and the runtime. On any container runtime that keeps its contract
  and with no interference, the reaper computes its specification: a container stays exactly if
  it has time left and a row that wants it; a row whose container went is stopped, a running row
  without one fails, a stopping row without one is stopped, every other row is untouched. The
  counts are the numbers of containers removed and of rows failed.\<close>

theorem sweep_converges:
  fixes w :: "'e world"
  assumes "sandbox_runtime (ctx_runtime c) live ok" "quiet w" "ok (ext w)" "distinct (map sid (sandboxes w))"
    and "\<And>xs. mset (set_order xs) = mset xs"
  shows "\<exists>m x ev. run (reconcile_sandboxes c set_order) w =
      (Inr m, w\<lparr>sandboxes := map (swept_row (clock w) (live (ext w))) (sandboxes w), ext := x,
         emitted := ev @ [RECONCILE_RUNS ''success'']\<rparr>) \<and>
    ok x \<and> live x = swept_live (clock w) (sandboxes w) (live (ext w)) \<and>
    removed_total m = card {i. live (ext w) i \<noteq> None \<and> live x i = None} \<and>
    vanished m = length (filter (\<lambda>r. status r = RUNNING \<and> live (ext w) (sid r) = None) (sandboxes w))"
  by (rule sandbox_runtime.run_reconcile [OF assms(1) refl assms(2-5)])

definition reaper_ctx :: "fake ctx" where
  "reaper_ctx = \<lparr>ctx_settings = default_settings, ctx_runtime = fake_runtime nothing, job_try = 1,
     enqueue_time = None, random_random = 0, random_uniform = 0\<rparr>"

definition reaper_row :: "uuid \<Rightarrow> status \<Rightarrow> sandbox" where
  "reaper_row i s = new_sandbox i HTTP s STABLE (seconds 600) None 0"

definition reaper_world :: "fake world" where
  "reaper_world = fake_world [reaper_row 1 RUNNING, reaper_row 2 RUNNING, reaper_row 3 STOPPING] 5
     (empty_fake\<lparr>containers := [(2, 5), (3, 9)]\<rparr>)"

lemma reaper_world_simps:
  "quiet reaper_world" "fake_ok (ext reaper_world)" "distinct (map sid (sandboxes reaper_world))"
  by (simp_all add: reaper_world_def fake_ok_def empty_fake_def reaper_row_def new_sandbox_def)

lemma reaper_ctx_runtime: "sandbox_runtime (ctx_runtime reaper_ctx) (\<lambda>f. map_of (containers f)) fake_ok"
  using fake_runtime.sandbox_runtime_axioms by (simp add: reaper_ctx_def)

theorem sweep_converges_witness:
  "map status (sandboxes (snd (run (reconcile_sandboxes reaper_ctx (\<lambda>xs. xs)) reaper_world))) =
     [FAILED, STOPPED, STOPPED]"
  using sweep_converges [OF reaper_ctx_runtime reaper_world_simps, of "\<lambda>xs. xs"]
  by (auto simp: reaper_world_def swept_row_def reaper_row_def new_sandbox_def NO_CONTAINER_WANTED_def)

text \<open>C21. A second sweep right after the first finds nothing to do: the rare double sweep is harmless.\<close>

theorem second_sweep_is_a_noop:
  fixes w :: "'e world"
  assumes "sandbox_runtime (ctx_runtime c) live ok" "quiet w" "ok (ext w)" "distinct (map sid (sandboxes w))"
    and "\<And>xs. mset (set_order xs) = mset xs"
    and "run (reconcile_sandboxes c set_order) w = (r, v)"
  shows "\<exists>m u. run (reconcile_sandboxes c set_order) v = (Inr m, u) \<and> sandboxes u = sandboxes v \<and>
    live (ext u) = live (ext v) \<and> removed_total m = 0 \<and> vanished m = 0"
  by (rule sandbox_runtime.run_reconcile_again [OF assms(1) refl assms(2-6)])

theorem second_sweep_is_a_noop_witness:
  "\<exists>m u. run (reconcile_sandboxes reaper_ctx (\<lambda>xs. xs)) (snd (run (reconcile_sandboxes reaper_ctx (\<lambda>xs. xs)) reaper_world)) =
      (Inr m, u) \<and> vanished m = 0"
  using second_sweep_is_a_noop [OF reaper_ctx_runtime reaper_world_simps, of "\<lambda>xs. xs", OF refl prod.collapse [symmetric]]
  by auto

section \<open>A sweep that fails\<close>

text \<open>Programs that never raise, in any environment.\<close>

definition never_raises :: "('w, 'a) prog \<Rightarrow> bool" where
  "never_raises p \<longleftrightarrow> (\<forall>w. ensures (\<lambda>_ _. True) p (\<lambda>res _. \<exists>a. res = Inr a) w)"

lemma never_raises_Return: "never_raises (Return a)"
  by (simp add: never_raises_def)

lemma never_raises_pbind:
  assumes p: "never_raises p" and k: "\<And>a. never_raises (k a)"
  shows "never_raises (pbind p k)"
  unfolding never_raises_def ensures_pbind
proof
  fix w
  from p have "ensures (\<lambda>_ _. True) p (\<lambda>res _. \<exists>a. res = Inr a) w" by (simp add: never_raises_def)
  then show "ensures (\<lambda>_ _. True) p
      (\<lambda>r v. case r of Inl e \<Rightarrow> \<exists>a. Inl e = Inr a | Inr a \<Rightarrow> ensures (\<lambda>_ _. True) (k a) (\<lambda>res _. \<exists>a. res = Inr a) v) w"
    by (rule ensures_mono) (use k in \<open>auto simp: never_raises_def\<close>)
qed

lemma never_raises_try:
  "(\<And>a. never_raises (ok a)) \<Longrightarrow> (\<And>e. never_raises (h e)) \<Longrightarrow> never_raises (try_catch p ok h)"
  unfolding never_raises_def ensures_try_catch by (auto intro: ensures_always split: sum.split)

lemma never_raises_emit: "never_raises (emit ev)"
  by (simp add: never_raises_def ensures_simps)

lemmas never_raises_intros = never_raises_Return never_raises_pbind never_raises_try never_raises_emit

lemma never_raises_sweep_steps:
  "(\<And>a. never_raises (k a)) \<Longrightarrow> never_raises (guarded n p k)"
  "never_raises q \<Longrightarrow> (\<And>n. never_raises (l n)) \<Longrightarrow> never_raises (unless_stopped q l)"
  "never_raises (count_reason why n)"
  unfolding guarded_def unless_stopped_def count_reason_def andthen_def
  by (intro never_raises_intros | simp add: case_prod_unfold never_raises_Return split: option.split)+

lemma never_raises_reap: "never_raises (reap_containers R now st cs n)"
  by (induction cs arbitrary: n) (auto intro!: never_raises_Return never_raises_sweep_steps split: option.split)

lemma never_raises_fail: "never_raises (fail_vanished is n)"
  by (induction "is" arbitrary: n) (auto intro!: never_raises_Return never_raises_sweep_steps)

lemma never_raises_sweep: "never_raises (sweep R set_order)"
  unfolding sweep_def Let_def
  by (intro never_raises_sweep_steps never_raises_reap never_raises_fail never_raises_Return)

text \<open>C20. The reaper contains every failure: in any environment, whichever statements and calls fail and
  however the runtime behaves, a sweep returns its counts; only an exception that is no Exception
  (a cancellation) leaves it.\<close>

theorem reaper_contains_failures:
  "(\<exists>m. fst (run_with (reconcile_sandboxes c set_order) I k w) = Inr m) \<or>
   (\<exists>e. fst (run_with (reconcile_sandboxes c set_order) I k w) = Inl e \<and> \<not> is_Exception e)"
proof -
  have "ensures (\<lambda>_ _. True) (reconcile_sandboxes c set_order)
      (\<lambda>res _. (\<exists>m. res = Inr m) \<or> (\<exists>e. res = Inl e \<and> \<not> is_Exception e)) w"
    unfolding reconcile_sandboxes_def ensures_pbind [of _ "sweep _ _"]
    by (rule ensures_mono [OF never_raises_sweep [unfolded never_raises_def, rule_format]])
       (auto simp: ensures_simps split: option.split)
  from run_with_ensures [where I = I and i = k, OF _ this] show ?thesis by simp
qed

lemma found_sandboxes_error: "found_sandboxes cs = Inl e \<Longrightarrow> is_Exception e"
proof (induction cs)
  case (Cons c cs)
  have "is_Exception e'" if "read_labels c = Inl e'" for e'
    using that by (auto simp: read_labels_def label_def fromtimestamp_def uuid_of_str_def Let_def
        split: sum.splits option.splits if_splits dest: py_int_error_is_Exception)
  with Cons show ?case by (auto split: sum.splits if_splits)
qed simp

lemma run_list_overflowing:
  assumes "quiet w" "containers_list S LABEL_ID (ext w) = (Inr cs, x)" "\<exists>d \<in> set cs. overflowing d"
  shows "\<exists>e. run (list_sandboxes S s) w = (Inl e, w\<lparr>ext := x\<rparr>) \<and> is_Exception e"
proof -
  obtain e where "found_sandboxes cs = Inl e" using found_sandboxes_overflowing [OF assms(3)] by blast
  with found_sandboxes_error [OF this] assms(1,2) show ?thesis
    by (simp add: list_sandboxes_def run_simps run_run_bounded guar_intros)
qed

text \<open>One container with an expiry label too large for a time stamp stops every sweep: listing raises
  (OverflowError or OSError, which the handler for malformed labels does not catch), so nothing
  is reaped and no row is touched, on this sweep and on every later one that finds the label.\<close>

theorem overflowing_label_stops_the_sweep:
  assumes "quiet w" "ctx_runtime c = docker_runtime S s"
    and "containers_list S LABEL_ID (ext w) = (Inr cs, x)" "\<exists>d \<in> set cs. overflowing d"
  shows "run (reconcile_sandboxes c set_order) w =
    (Inr no_reaped, w\<lparr>ext := x, emitted := emitted w @ [RECONCILE_RUNS ''failed'']\<rparr>)"
proof -
  obtain e where "run (list_sandboxes S s) w = (Inl e, w\<lparr>ext := x\<rparr>)" "is_Exception e"
    using run_list_overflowing [OF assms(1,3,4)] by blast
  with assms(1,2) show ?thesis
    by (simp add: reconcile_sandboxes_def sweep_def guarded_def run_simps docker_runtime_def)
qed

definition huge_label :: container where
  "huge_label = \<lparr>c_id = ''x'', c_name = ''x'', c_status = ''exited'', c_ports = [],
     c_labels = [(LABEL_ID, uuid_str 7), (LABEL_EXPIRES, str_of_int 10000000000000000000)]\<rparr>"

definition docker_ctx :: "stub ctx" where
  "docker_ctx = \<lparr>ctx_settings = default_settings, ctx_runtime = docker_runtime stub_services default_settings,
     job_try = 1, enqueue_time = None, random_random = 0, random_uniform = 0\<rparr>"

lemma huge_label: "overflowing huge_label" "stub_list LABEL_ID (empty_stub\<lparr>held := [huge_label]\<rparr>) = (Inr [huge_label], empty_stub\<lparr>held := [huge_label]\<rparr>)"
  by (rule huge_label_overflows [where n = 10000000000000000000])
     (simp_all add: huge_label_def label_neq stub_list_def stub_named_def)

theorem overflowing_label_stops_the_sweep_witness:
  "run (reconcile_sandboxes docker_ctx (\<lambda>xs. xs))
     ((stub_world [reaper_row 1 RUNNING] 0)\<lparr>ext := empty_stub\<lparr>held := [huge_label]\<rparr>\<rparr>) =
   (Inr no_reaped, (stub_world [reaper_row 1 RUNNING] 0)\<lparr>ext := empty_stub\<lparr>held := [huge_label]\<rparr>,
      emitted := [RECONCILE_RUNS ''failed'']\<rparr>)"
  using overflowing_label_stops_the_sweep [of "(stub_world [reaper_row 1 RUNNING] 0)\<lparr>ext := empty_stub\<lparr>held := [huge_label]\<rparr>\<rparr>"
      docker_ctx stub_services default_settings "[huge_label]" "empty_stub\<lparr>held := [huge_label]\<rparr>" "\<lambda>xs. xs"]
  by (simp add: docker_ctx_def huge_label)

end
