(* ===== verification/Routing.thy ===== *)
theory Routing
  imports Rollout Schemas Fakes
begin

text \<open>
  What canary routing (\<open>src/app/rollout.py\<close>, \<open>src/app/routes/rollout.py\<close>) and the queue's job ids
  (\<open>src/app/queue.py\<close>) promise.
\<close>

section \<open>The split\<close>

text \<open>C25. Raising the weight only ever moves sandboxes into the canary, never back: a sandbox routed to the
  canary stays there at every higher weight; at 0 or below nothing goes there, from 100 on
  everything does.\<close>

theorem routing_is_monotone:
  assumes "weight \<le> weight'"
  shows "(route i weight = CANARY \<longrightarrow> route i weight' = CANARY) \<and>
    (weight \<le> 0 \<longrightarrow> route i weight = STABLE) \<and> (100 \<le> weight \<longrightarrow> route i weight = CANARY)"
  using assms router.pick_pool_mono router.pick_pool_none router.pick_pool_all by blast

theorem routing_is_monotone_witness:
  "route 0x123e4567e89b12d3a456426614174000 93 = CANARY \<and> route 0x123e4567e89b12d3a456426614174000 94 = CANARY"
proof -
  have "bucket 0x123e4567e89b12d3a456426614174000 = 92"
    by (simp add: bucket_def uuid_bytes_def upt_rec crc32_def crc_byte_unfold crc_bit_def)
  then have "route 0x123e4567e89b12d3a456426614174000 93 = CANARY" by (simp add: route_def)
  with routing_is_monotone [of 93 94 "0x123e4567e89b12d3a456426614174000"] show ?thesis by simp
qed

text \<open>C24. The weight an operator sets is the weight every replica routes by: a PUT with a weight the API
  accepts stores it, answers it, and the next GET and the next routing decision use it.\<close>

theorem weight_round_trip:
  assumes "quiet w" "parse_rollout body = Some b" "\<And>t. redis w WEIGHT_KEY = Some t \<Longrightarrow> \<exists>n. py_int 10 t = Inr n"
  shows "\<exists>v. run (put_rollout (canary_weight b) s) w = (Inr (canary_weight b), v) \<and>
    run (get_rollout s) v = (Inr (canary_weight b), v) \<and>
    run (pick_deployment i t) v = (Inr (route i (canary_weight b)), v)"
proof -
  let ?n = "canary_weight b"
  let ?v = "w\<lparr>redis := (redis w)(WEIGHT_KEY \<mapsto> str_of_int ?n)\<rparr>"
  have n: "0 \<le> ?n" "?n \<le> 100" using parse_rollout_range [OF assms(2)] by simp_all
  then have "py_int 10 (str_of_int ?n) = Inr ?n" by (intro py_int_str_of_int [where k = 3]) simp_all
  moreover have "clamp_weight ?n = ?n" using n by (simp add: clamp_weight_def)
  moreover have "run (put_rollout ?n s) w = (Inr ?n, ?v)"
    using assms(1,3) by (auto simp: put_rollout_def run_simps split: option.split)
  ultimately show ?thesis
    using assms(1) by (intro exI [of _ ?v]) (simp add: get_rollout_def run_simps)
qed

theorem weight_round_trip_witness:
  "\<exists>v. run (put_rollout 25 default_settings) (stub_world [] 0) = (Inr 25, v) \<and>
     run (get_rollout default_settings) v = (Inr 25, v)"
  using weight_round_trip [of "stub_world [] 0" "JObject [(''canary_weight'', JInt 25)]" "\<lparr>canary_weight = 25\<rparr>"
      default_settings 7 2]
  by (auto simp: only_fields_def in_range_def)

lemma run_with_fallback:
  "fst (run_with (try_catch p (\<lambda>a. Return (f a)) (except_Exception (\<lambda>_. Return d))) I k w) =
     (case fst (run_with p I k w) of Inr a \<Rightarrow> Inr (f a) | Inl e \<Rightarrow> if is_Exception e then Inr d else Inl e)"
  by (induction p arbitrary: k w) (simp_all add: except_Exception_def)

lemma get_weight_raises:
  assumes "\<And>e. e \<in> E \<Longrightarrow> is_Exception e"
  shows "ensures (\<lambda>_ v. faults_in E v) (get_weight t) (\<lambda>res _. \<forall>e. res = Inl e \<longrightarrow> is_Exception e) w"
proof -
  have "is_Exception e" if "faults_in E v" "next_fault v = Before e \<or> next_fault v = After e" for e and v :: "'a world"
    using that assms next_fault_in [of E v e] by auto
  then show ?thesis
    by (auto simp: get_weight_def asyncio_timeout_def redis_get_def statement_def atomically_def Let_def next_fault_def
        ensures_simps py_int_error_is_Exception split: fault.split option.split sum.split)
qed

text \<open>C23. Routing fails safe toward stable: in any environment and with any faults of Redis that are
  Exceptions, picking a pool returns one, and it returns stable whenever the weight cannot be
  read or parsed.\<close>

theorem routing_fails_safe:
  assumes "\<And>v n. faults_in E (I n v)" "\<And>e. e \<in> E \<Longrightarrow> is_Exception e"
  shows "fst (run_with (pick_deployment i t) I k w) =
    (case fst (run_with (get_weight t) I k w) of Inr weight \<Rightarrow> Inr (route i weight) | Inl _ \<Rightarrow> Inr STABLE)"
proof -
  have "\<forall>e. fst (run_with (get_weight t) I k w) = Inl e \<longrightarrow> is_Exception e"
    using run_with_ensures [where I = I, OF assms(1) get_weight_raises [OF assms(2)]] .
  then show ?thesis
    unfolding pick_deployment_def run_with_fallback by (simp split: sum.split)
qed

theorem routing_fails_safe_witness:
  "fst (run_with (pick_deployment 7 2) (\<lambda>_ v. v\<lparr>faults := [Before (Err (OtherError ''ConnectionError'') [])]\<rparr>) 0
     (stub_world [] 0)) = Inr STABLE"
  using routing_fails_safe [of "{Err (OtherError ''ConnectionError'') []}"
      "\<lambda>_ v. v\<lparr>faults := [Before (Err (OtherError ''ConnectionError'') [])]\<rparr>" 7 2 0 "stub_world [] 0"]
  by (simp add: faults_in_def get_weight_def asyncio_timeout_def redis_get_def statement_def atomically_def
      next_fault_def)

text \<open>A PUT can fail and still change the split: when the weight stored before is no number, the new
  weight is stored, but reading the previous one raises, and the caller gets 503.\<close>

theorem put_over_garbage_stores_and_fails:
  assumes "quiet w" "redis w WEIGHT_KEY = Some t" "py_int 10 t = Inl e"
  shows "run (put_rollout n s) w = (Inl rollout_503, w\<lparr>redis := (redis w)(WEIGHT_KEY \<mapsto> str_of_int n)\<rparr>)"
  using assms py_int_error_is_Exception [OF assms(3)] by (simp add: put_rollout_def run_simps)

theorem put_over_garbage_stores_and_fails_witness:
  "run (put_rollout 0 default_settings) ((stub_world [] 0)\<lparr>redis := [WEIGHT_KEY \<mapsto> ''ten'']\<rparr>) =
     (Inl rollout_503, (stub_world [] 0)\<lparr>redis := [WEIGHT_KEY \<mapsto> str_of_int 0]\<rparr>)"
proof -
  have "\<exists>e. py_int 10 ''ten'' = Inl e"
    by (simp add: py_int_def drop_sign_def strip_by_def is_space_def digit_val_def)
  then show ?thesis
    using put_over_garbage_stores_and_fails [of "(stub_world [] 0)\<lparr>redis := [WEIGHT_KEY \<mapsto> ''ten'']\<rparr>" "''ten''" _ 0 default_settings]
    by auto
qed

section \<open>Job ids\<close>

text \<open>C35. A job's arguments survive the queue: ids of different jobs or sandboxes differ, so the queue
  never drops a job as another's duplicate, and the worker reads back the sandbox id the API
  wrote.\<close>

theorem job_ids_are_faithful:
  "(sandbox_job_id job i = sandbox_job_id job' j \<longleftrightarrow> job = job' \<and> i = j) \<and> uuid_of_str (uuid_str i) = Inr i \<and>
   QUEUES STABLE \<noteq> QUEUES CANARY \<and> START_SANDBOX \<noteq> STOP_SANDBOX"
  by (simp add: sandbox_job_id_inject default_queue_name_def START_SANDBOX_def STOP_SANDBOX_def)

section \<open>Bodies\<close>

lemma as_sandbox_type_Some: "as_sandbox_type t = Some ty \<longleftrightarrow> t = JString ''http'' \<and> ty = HTTP"
  by (cases t) auto

lemma strict_int_Some: "strict_int v = Some n \<longleftrightarrow> v = JInt n"
  by (cases v) auto

text \<open>C36. A request that passes validation is in bounds: a POST body has a known type and 60 to 3600
  seconds to live (600 when it names none), a PUT body an integer weight from 0 to 100 and no
  other JSON value; a field the schema does not know refuses either.\<close>

theorem accepted_bodies_are_in_bounds:
  assumes "parse_create lax_int j = Some b" "parse_rollout j' = Some r"
  shows "60 \<le> ttl_s b \<and> ttl_s b \<le> 3600 \<and>
    (\<exists>kvs. j = JObject kvs \<and> only_fields [''type'', ''ttl_s''] kvs \<and> map_of kvs ''type'' = Some (JString ''http'') \<and>
       (map_of kvs ''ttl_s'' = None \<longrightarrow> ttl_s b = 600)) \<and>
    (\<exists>kvs. j' = JObject kvs \<and> only_fields [''canary_weight''] kvs \<and>
       map_of kvs ''canary_weight'' = Some (JInt (canary_weight r)) \<and> 0 \<le> canary_weight r \<and> canary_weight r \<le> 100)"
proof -
  obtain kvs where j: "j = JObject kvs" using assms(1) by (cases j) simp_all
  obtain kvs' where j': "j' = JObject kvs'" using assms(2) by (cases j') simp_all
  have "only_fields [''type'', ''ttl_s''] kvs" "map_of kvs ''type'' = Some (JString ''http'')"
    "map_of kvs ''ttl_s'' = None \<longrightarrow> ttl_s b = 600"
    using assms(1) unfolding j by (auto simp: as_sandbox_type_Some split: if_splits option.splits)
  moreover have "only_fields [''canary_weight''] kvs'" "map_of kvs' ''canary_weight'' = Some (JInt (canary_weight r))"
    using assms(2) unfolding j' by (auto simp: strict_int_Some in_range_def split: if_splits option.splits)
  ultimately show ?thesis
    using j j' parse_create_range [OF assms(1)] parse_rollout_range [OF assms(2)] by auto
qed

theorem accepted_bodies_are_in_bounds_witness:
  "60 \<le> (600 :: int) \<and> parse_rollout (JObject [(''canary_weight'', JInt 25)]) = Some \<lparr>canary_weight = 25\<rparr>"
  using accepted_bodies_are_in_bounds [of "\<lambda>_. None" "JObject [(''type'', JString ''http'')]"
      "\<lparr>create_type = HTTP, ttl_s = 600\<rparr>" "JObject [(''canary_weight'', JInt 25)]" "\<lparr>canary_weight = 25\<rparr>"]
  by (auto simp: only_fields_def in_range_def)

end
