(* ===== verification/Lifecycle.thy ===== *)
theory Lifecycle
  imports Producer Jobs Launching
begin

text \<open>
  One sandbox from request to removal, through every component: the API inserts its row and queues
  the start job, a worker launches its container, the API takes the stop request, a worker removes
  the container. Everything is shown on the Docker runtime, for any daemon that keeps its laws.
\<close>

section \<open>A table with a row of interest at its end\<close>

lemma find_last: "find_row i rows = None \<Longrightarrow> sid r = i \<Longrightarrow> find_row i (rows @ [r]) = Some r"
  by (simp add: find_row_append)

lemma update_last:
  "find_row i rows = None \<Longrightarrow> sid r = i \<Longrightarrow>
   update_rows (\<lambda>q. sid q = i \<and> Q q) f t (rows @ [r]) = rows @ [if Q r then (f r)\<lparr>updated_at := t\<rparr> else r]"
  by (auto simp: update_rows_def find_row_None image_iff intro!: map_idI)

lemma count_last:
  "find_row i rows = None \<Longrightarrow> sid r = i \<Longrightarrow>
   length (filter (\<lambda>q. sid q = i \<and> Q q) (rows @ [r])) = (if Q r then 1 else 0)"
  by (auto simp: filter_empty_conv find_row_None image_iff)

lemma run_transition_last:
  assumes fresh: "find_row i rows = None" and "quiet w" "sandboxes w = rows @ [r]" "sid r = i"
  shows "run (transition i S f) w =
    (Inr (status r \<in> S), w\<lparr>sandboxes := rows @ [if status r \<in> S then (f r)\<lparr>updated_at := clock w\<rparr> else r]\<rparr>)"
proof -
  have "run (transition i S f) w =
      (Inr (length (filter (\<lambda>q. sid q = i \<and> status q \<in> S) (rows @ [r])) = 1),
       w\<lparr>sandboxes := update_rows (\<lambda>q. sid q = i \<and> status q \<in> S) f (clock w) (rows @ [r])\<rparr>)"
    using assms(2,3) by (simp add: transition_def run_pbind run_db_update)
  then show ?thesis using update_last [OF fresh assms(4)] count_last [OF fresh assms(4), of "\<lambda>q. status q \<in> S"] by simp
qed

text \<open>A start job on the last row, with a runtime that brings the container up.\<close>

lemma run_start_last:
  fixes c :: "'e ctx" and w :: "'e world"
  assumes fresh: "find_row i rows = None" and "quiet w" "sandboxes w = rows @ [r]" "sid r = i" "status r \<in> STARTABLE" "clock w < expires_at r"
    and "calm (ctx_runtime c)" "chaos_failure_rate (ctx_settings c) \<le> random_random c"
    and "\<And>v. quiet v \<Longrightarrow> ext v = ext w \<Longrightarrow>
      \<exists>u x. run (rt_launch (ctx_runtime c) i (expires_at r)) v = (Inr u, v\<lparr>ext := x\<rparr>) \<and> P u x"
  shows "\<exists>q u x ev. run (start_sandbox c (uuid_str i)) w =
      (Inr ''running'', w\<lparr>ext := x, sandboxes := rows @ [q], emitted := ev\<rparr>) \<and> P u x \<and>
    same_identity r q \<and> status q = RUNNING \<and> url q = Some u \<and> error q = None \<and> attempts q = int (job_try c)"
proof -
  let ?w1 = "w\<lparr>emitted := emitted w @ queue_wait_events c START_SANDBOX (clock w)\<rparr>"
  let ?r2 = "r\<lparr>status := STARTING, attempts := int (job_try c), updated_at := clock w\<rparr>"
  let ?w2 = "?w1\<lparr>sandboxes := rows @ [?r2]\<rparr>"
  have row: "find_row i (sandboxes ?w1) = Some r" using find_last [OF fresh assms(4)] by (simp add: assms(3))
  have pick: "run (transition i STARTABLE (\<lambda>r. r\<lparr>status := STARTING, attempts := int (job_try c)\<rparr>)) ?w1 = (Inr True, ?w2)"
    using run_transition_last [OF fresh, of ?w1 r STARTABLE] assms(2-5) by simp
  obtain u x where launch: "run (rt_launch (ctx_runtime c) i (expires_at r)) ?w2 = (Inr u, ?w2\<lparr>ext := x\<rparr>)" and P: "P u x"
    using assms(9) [of ?w2] assms(2) by auto
  have "run (worker_launch c r) ?w2 = (Inr u, ?w2\<lparr>ext := x\<rparr>)"
    using launch assms(4,8) by (simp add: worker_launch_def)
  then have timed: "run (asyncio_timeout T (worker_launch c r)) ?w2 = (Inr u, ?w2\<lparr>ext := x\<rparr>)" for T
    using run_asyncio_timeout [OF worker_helpers_quiet(3) [OF assms(7)], of ?w2 T r] assms(2) by simp
  let ?q = "?r2\<lparr>status := RUNNING, url := Some u, error := None, updated_at := clock w\<rparr>"
  have serve: "run (transition i {STARTING} (\<lambda>q. q\<lparr>status := RUNNING, url := Some u, error := None\<rparr>)) (?w2\<lparr>ext := x\<rparr>) =
      (Inr True, ?w2\<lparr>ext := x, sandboxes := rows @ [?q]\<rparr>)"
    using run_transition_last [OF fresh, of "?w2\<lparr>ext := x\<rparr>" ?r2 "{STARTING}"] assms(2,4) by simp
  have "\<exists>ev. run (start_sandbox c (uuid_str i)) w = (Inr ''running'', w\<lparr>ext := x, sandboxes := rows @ [?q], emitted := ev\<rparr>)"
    using assms(2,4-6) row pick timed serve
    by (simp add: start_sandbox_def start_body_def launched_def count_job_def run_timed_job run_pbind run_db_get
        run_get_now run_try_catch run_andthen run_emit Let_def) (rule exI, rule refl)
  with P show ?thesis by (intro exI [of _ ?q]) auto
qed

text \<open>A stop request and its job on the last row.\<close>

lemma run_delete_last:
  fixes w :: "'e world"
  assumes fresh: "find_row i rows = None" and "quiet w" "sandboxes w = rows @ [r]" "sid r = i" "status r \<in> ACTIVE_STATUSES"
    and "enqueue_job S STOP_SANDBOX (uuid_str i) (sandbox_job_id STOP_SANDBOX i) (QUEUES (chosen_pool i (redis w))) (ext w) = (Inr b, x)"
  shows "\<exists>ev. run (delete_sandbox S s i) w =
    (Inr (r\<lparr>status := STOPPING, updated_at := clock w\<rparr>),
     w\<lparr>sandboxes := rows @ [r\<lparr>status := STOPPING, updated_at := clock w\<rparr>], ext := x, emitted := ev\<rparr>)"
proof -
  let ?r = "r\<lparr>status := STOPPING, updated_at := clock w\<rparr>"
  have "find_row i (sandboxes w) = Some r" using find_last [OF fresh assms(4)] by (simp add: assms(3))
  moreover have "update_rows (\<lambda>q. sid q = i \<and> status q \<in> ACTIVE_STATUSES) (\<lambda>q. q\<lparr>status := STOPPING\<rparr>) (clock w) (sandboxes w) = rows @ [?r]"
    using update_last [OF fresh assms(4)] assms(3,5) by simp
  moreover have "find_row i (rows @ [?r]) = Some ?r" using find_last [OF fresh, of ?r] assms(4) by simp
  ultimately show ?thesis
    using assms(2,5,6)
    by (simp add: delete_sandbox_def run_get_or_404 run_pbind run_andthen run_try_catch run_db_update run_db_get
        run_pick run_enqueue run_emit Let_def) (rule exI, rule refl)
qed

lemma run_stop_last:
  fixes c :: "'e ctx" and w :: "'e world"
  assumes fresh: "find_row i rows = None" and "quiet w" "sandboxes w = rows @ [r]" "sid r = i" "status r = STOPPING"
    and "\<And>v. quiet v \<Longrightarrow> ext v = ext w \<Longrightarrow> \<exists>b x. run (rt_remove (ctx_runtime c) i) v = (Inr b, v\<lparr>ext := x\<rparr>) \<and> P x"
  shows "\<exists>x ev. run (stop_sandbox c (uuid_str i)) w =
      (Inr ''stopped'', w\<lparr>ext := x, sandboxes := rows @ [r\<lparr>status := STOPPED, updated_at := clock w\<rparr>], emitted := ev\<rparr>) \<and> P x"
proof -
  let ?w1 = "w\<lparr>emitted := emitted w @ queue_wait_events c STOP_SANDBOX (clock w)\<rparr>"
  obtain b x where "run (rt_remove (ctx_runtime c) i) ?w1 = (Inr b, ?w1\<lparr>ext := x\<rparr>)" "P x"
    using assms(6) [of ?w1] assms(2) by auto
  moreover have "run (transition i {STOPPING} (\<lambda>r. r\<lparr>status := STOPPED\<rparr>)) (?w1\<lparr>ext := x\<rparr>) =
      (Inr True, ?w1\<lparr>ext := x, sandboxes := rows @ [r\<lparr>status := STOPPED, updated_at := clock w\<rparr>]\<rparr>)"
    using run_transition_last [OF fresh, of "?w1\<lparr>ext := x\<rparr>" r "{STOPPING}"] assms(2-5) by simp
  ultimately show ?thesis
    by (simp add: stop_sandbox_def stop_body_def count_job_def run_timed_job run_pbind run_try_catch run_andthen run_emit Let_def)
       (intro exI conjI, rule refl)
qed

section \<open>The life of a sandbox\<close>

text \<open>The client, the queue's deliveries and a look at the row after each.\<close>

definition life_of_a_sandbox ::
    "'e services \<Rightarrow> 'e ctx \<Rightarrow> uuid \<Rightarrow> sandbox_create \<Rightarrow> string option \<Rightarrow> ('e world, string \<times> sandbox \<times> string \<times> sandbox) prog" where
  "life_of_a_sandbox S c i body key =
     pbind (create_sandbox S (ctx_settings c) i body key) (\<lambda>(answer, replayed).
     pbind (start_sandbox c (uuid_str (acc_sandbox_id answer))) (\<lambda>started.
     pbind (get_sandbox i) (\<lambda>up.
     pbind (delete_sandbox S (ctx_settings c) i) (\<lambda>_.
     pbind (stop_sandbox c (uuid_str i)) (\<lambda>stopped.
     pbind (get_sandbox i) (\<lambda>down.
     Return (started, up, stopped, down)))))))"

text \<open>arq takes every job, and its queue holds no containers.\<close>

definition takes_jobs :: "'e services \<Rightarrow> ('e \<Rightarrow> string \<Rightarrow> container option) \<Rightarrow> bool" where
  "takes_jobs S named \<longleftrightarrow> (\<forall>f a j q x. \<exists>b y. enqueue_job S f a j q x = (Inr b, y) \<and> named y = named x)"

lemma takes_jobs: "takes_jobs S named \<Longrightarrow> \<exists>b y. enqueue_job S f a j q x = (Inr b, y) \<and> named y = named x"
  by (simp add: takes_jobs_def)

lemma run_create_queued:
  assumes "quiet w" "fresh_key key (sandboxes w)" "active_count (sandboxes w) < sandbox_max_active s"
    and "find_row i (sandboxes w) = None" "takes_jobs S named"
  shows "\<exists>x ev. run (create_sandbox S s i body key) w =
      (Inr (accepted (requested i body key w), False),
       w\<lparr>sandboxes := sandboxes w @ [requested i body key w], ext := x, emitted := ev\<rparr>) \<and> named x = named (ext w)"
proof -
  let ?r = "requested i body key w"
  obtain b x where "enqueue_job S START_SANDBOX (uuid_str i) (sandbox_job_id START_SANDBOX i) (QUEUES (pool ?r)) (ext w) = (Inr b, x)"
    "named x = named (ext w)"
    using takes_jobs [OF assms(5)] by blast
  moreover have "sid ?r = i" by (simp add: requested_def new_sandbox_def)
  ultimately show ?thesis
    using assms(1-4) by (simp add: run_create_admitted enqueue_start_def inserted_def run_simps) (intro exI conjI, rule refl)
qed

text \<open>The two jobs on the Docker runtime of a lawful daemon.\<close>

lemma run_start_docker:
  fixes w :: "'e world"
  assumes "docker_daemon S named" "ctx_runtime c = docker_runtime S (ctx_settings c)"
    and "answers S named (ctx_settings c) i" "chaos_failure_rate (ctx_settings c) \<le> random_random c"
    and "find_row i rows = None" "quiet w" "sandboxes w = rows @ [r]" "sid r = i" "status r \<in> STARTABLE"
    and "clock w < expires_at r" "named (ext w) (container_name i) = None"
  shows "\<exists>q h d x ev. run (start_sandbox c (uuid_str i)) w =
      (Inr ''running'', w\<lparr>ext := x, sandboxes := rows @ [q], emitted := ev\<rparr>) \<and>
    named x = (named (ext w))(container_name i \<mapsto> d) \<and> same_identity r q \<and> status q = RUNNING \<and> error q = None \<and>
    url q = Some (''http://'' @ sandbox_public_host (ctx_settings c) @ '':'' @ h)"
proof -
  let ?s = "ctx_settings c"
  let ?P = "\<lambda>u x. \<exists>h d. u = ''http://'' @ sandbox_public_host ?s @ '':'' @ h \<and> named x = (named (ext w))(container_name i \<mapsto> d)"
  have launch: "\<exists>u x. run (rt_launch (ctx_runtime c) i (expires_at r)) v = (Inr u, v\<lparr>ext := x\<rparr>) \<and> ?P u x"
    if v: "quiet v" "ext v = ext w" for v
  proof -
    have "named (ext v) (container_name i) = None" using v(2) assms(11) by simp
    then obtain d h hs x where "run (launch S ?s i (expires_at r)) v = (Inr (''http://'' @ sandbox_public_host ?s @ '':'' @ h), v\<lparr>ext := x\<rparr>)"
      "named x = (named (ext v))(container_name i \<mapsto> d)"
      using docker_daemon.run_launch [OF assms(1) v(1) assms(3), of "expires_at r"] by (metis option.distinct(1))
    then show ?thesis
      unfolding assms(2) docker_runtime_def runtime.select_convs v(2) by metis
  qed
  have "\<exists>q u x ev. run (start_sandbox c (uuid_str i)) w =
      (Inr ''running'', w\<lparr>ext := x, sandboxes := rows @ [q], emitted := ev\<rparr>) \<and> ?P u x \<and>
    same_identity r q \<and> status q = RUNNING \<and> url q = Some u \<and> error q = None \<and> attempts q = int (job_try c)"
  proof (rule run_start_last [OF assms(5-10) _ assms(4)])
    show "calm (ctx_runtime c)" by (simp add: assms(2))
  qed (rule launch)
  then show ?thesis by blast
qed

lemma run_stop_docker:
  fixes w :: "'e world"
  assumes "docker_daemon S named" "ctx_runtime c = docker_runtime S (ctx_settings c)" "takes_jobs S named"
    and "find_row i rows = None" "quiet w" "sandboxes w = rows @ [r]" "sid r = i" "status r \<in> ACTIVE_STATUSES"
  shows "\<exists>v q x ev. run (delete_sandbox S (ctx_settings c) i) w = (Inr (r\<lparr>status := STOPPING, updated_at := clock w\<rparr>), v) \<and>
    run (stop_sandbox c (uuid_str i)) v = (Inr ''stopped'', w\<lparr>ext := x, sandboxes := rows @ [q], emitted := ev\<rparr>) \<and>
    named x = (named (ext w))(container_name i := None) \<and> same_identity r q \<and> status q = STOPPED"
proof -
  obtain b y where y: "enqueue_job S STOP_SANDBOX (uuid_str i) (sandbox_job_id STOP_SANDBOX i)
      (QUEUES (chosen_pool i (redis w))) (ext w) = (Inr b, y)" "named y = named (ext w)"
    using takes_jobs [OF assms(3)] by blast
  let ?r = "r\<lparr>status := STOPPING, updated_at := clock w\<rparr>"
  obtain ev1 where delete: "run (delete_sandbox S (ctx_settings c) i) w =
      (Inr ?r, w\<lparr>sandboxes := rows @ [?r], ext := y, emitted := ev1\<rparr>)"
    using run_delete_last [OF assms(4-8) y(1)] by blast
  let ?v = "w\<lparr>sandboxes := rows @ [?r], ext := y, emitted := ev1\<rparr>"
  have remove: "\<exists>b x. run (rt_remove (ctx_runtime c) i) v = (Inr b, v\<lparr>ext := x\<rparr>) \<and> named x = (named y)(container_name i := None)"
    if v: "quiet v" "ext v = ext ?v" for v
    using docker_daemon.run_remove_sandbox [OF assms(1) v(1), of "ctx_settings c" i] v(2)
    by (auto simp: assms(2) docker_runtime_def)
  let ?q = "?r\<lparr>status := STOPPED, updated_at := clock ?v\<rparr>"
  have "\<exists>x ev. run (stop_sandbox c (uuid_str i)) ?v =
      (Inr ''stopped'', ?v\<lparr>ext := x, sandboxes := rows @ [?q], emitted := ev\<rparr>) \<and> named x = (named y)(container_name i := None)"
    by (rule run_stop_last [OF assms(4)]) (use assms(5,7) remove in simp_all)
  then obtain x ev where "run (stop_sandbox c (uuid_str i)) ?v =
      (Inr ''stopped'', w\<lparr>ext := x, sandboxes := rows @ [?q], emitted := ev\<rparr>)"
    "named x = (named (ext w))(container_name i := None)" using y(2) by auto
  with delete show ?thesis by (intro exI conjI) auto
qed


definition stub_ctx :: "stub ctx" where
  "stub_ctx =
     \<lparr>ctx_settings = default_settings, ctx_runtime = docker_runtime stub_services default_settings,
      job_try = 1, enqueue_time = None, random_random = 1 / 2, random_uniform = 1 / 2\<rparr>"

lemma stub_takes_jobs: "takes_jobs stub_services stub_named"
  by (auto simp: takes_jobs_def stub_enqueue_def stub_named_def fun_eq_iff)


end
