(* ===== verification/Recovery.thy ===== *)
theory Recovery
  imports Lifecycle
begin

text \<open>
  Crash recovery (\<open>src/app/worker.py\<close>, \<open>start_sandbox\<close>): a start job may be killed before any of its
  steps, and arq delivers it again. What the first attempt leaves behind never stands in the way of
  the second: a container that runs is adopted, one that does not is replaced.
\<close>

section \<open>What a killed program leaves behind\<close>

text \<open>The world when \<open>p\<close> is killed after \<open>n\<close> steps, the environment moving before each of them.\<close>

primrec killed_after :: "nat \<Rightarrow> ('w, 'a) prog \<Rightarrow> (nat \<Rightarrow> 'w \<Rightarrow> 'w) \<Rightarrow> nat \<Rightarrow> 'w \<Rightarrow> 'w" where
  "killed_after 0 p I k w = w"
| "killed_after (Suc n) p I k w =
     (case p of
        Step f rest \<Rightarrow> killed_after n (rest (I k w)) I (Suc k) (f (I k w))
      | _ \<Rightarrow> w)"

context guarantee
begin

lemma killed_guarantee:
  assumes "\<And>i w. G w (I i w)"
  shows "guar G p \<Longrightarrow> G w (killed_after n p I k w)"
proof (induction n arbitrary: p k w)
  case (Suc n)
  show ?case
  proof (cases p)
    case (Step f rest)
    with Suc.prems have step: "G (I k w) (f (I k w))" "guar G (rest (I k w))" by simp_all
    have "G w (f (I k w))" by (rule G_trans [OF assms step(1)])
    then have "G w (killed_after n (rest (I k w)) I (Suc k) (f (I k w)))" by (rule G_trans) (rule Suc.IH [OF step(2)])
    then show ?thesis by (simp add: Step)
  qed (simp_all add: G_refl)
qed (simp add: G_refl)

end

section \<open>Adoptable containers\<close>

text \<open>A container of the sandbox that runs has published its port: the next attempt can adopt it.\<close>

definition adoptable :: "('e \<Rightarrow> string \<Rightarrow> container option) \<Rightarrow> settings \<Rightarrow> uuid \<Rightarrow> 'e \<Rightarrow> bool" where
  "adoptable named s i x \<longleftrightarrow>
     (\<forall>d. named x (container_name i) = Some d \<longrightarrow> c_status d = ''running'' \<longrightarrow>
        (\<exists>h hs. map_of (c_ports d) (tcp_port s) = Some (h # hs)))"

definition keeps_adoptable :: "('e \<Rightarrow> string \<Rightarrow> container option) \<Rightarrow> settings \<Rightarrow> uuid \<Rightarrow> 'e world \<Rightarrow> 'e world \<Rightarrow> bool" where
  "keeps_adoptable named s i u v \<longleftrightarrow> (adoptable named s i (ext u) \<longrightarrow> adoptable named s i (ext v))"

interpretation adopt: guarantee "keeps_adoptable named s i" for named s i
  by unfold_locales (auto simp: keeps_adoptable_def)

lemma guar_adopt_call:
  assumes "\<And>x. adoptable named s i x \<Longrightarrow> adoptable named s i (snd (f x))"
  shows "guar (keeps_adoptable named s i) (call f)"
  unfolding call_def by (rule guar_atomically) (simp add: keeps_adoptable_def assms split_beta)

lemma guar_adopt_other [guar_intros]:
  "guar (keeps_adoptable named s i) (emit ev)" "guar (keeps_adoptable named s i) get_now"
  "guar (keeps_adoptable named s i) (db_get j)" "guar (keeps_adoptable named s i) (db_update P f)"
  by (auto simp: emit_def get_now_def reads_def db_get_def db_update_def keeps_adoptable_def
      intro!: guar_does guar_statement)

lemma guar_adopt_timeout [guar_intros]:
  "guar (keeps_adoptable named s i) p \<Longrightarrow> guar (keeps_adoptable named s i) (asyncio_timeout t p)"
  unfolding asyncio_timeout_def
  by (erule adopt.guar_with_deadline [rotated]) (simp add: keeps_adoptable_def)

lemma guar_probing:
  assumes "guar G (probe S u)"
  shows "guar G (wait_ready_loop S u b)"
  using assms
proof (induction S u b rule: wait_ready_loop.induct)
  case (1 S u b)
  show ?case
    by (subst wait_ready_loop.simps) (intro guar_intros 1)
qed

text \<open>Asking the server of a sandbox changes no container.\<close>

definition probes_only_ask :: "'e services \<Rightarrow> ('e \<Rightarrow> string \<Rightarrow> container option) \<Rightarrow> bool" where
  "probes_only_ask S named \<longleftrightarrow> (\<forall>u x. named (snd (http_get S u x)) = named x)"

context docker_daemon
begin

lemma adoptable_cong: "named y = named x \<Longrightarrow> adoptable named s i y = adoptable named s i x"
  by (simp add: adoptable_def)

lemma adoptable_remove: "adoptable named s i x \<Longrightarrow> adoptable named s i (snd (container_remove S c x))"
  using remove_found [of x c] remove_missing [of x c]
  by (cases "named x (c_name c) = None") (auto simp: adoptable_def)

lemma adoptable_run: "adoptable named s i x \<Longrightarrow> adoptable named s i (snd (containers_run S (sandbox_spec s j t) x))"
proof (cases "named x (container_name j)")
  case None
  let ?y = "snd (containers_run S (sandbox_spec s j t) x)"
  obtain c where c: "named ?y = (named x)(container_name j \<mapsto> c)"
      "\<forall>p \<in> fst ` set (ports (sandbox_spec s j t)). \<exists>h hs. map_of (c_ports c) p = Some (h # hs)"
    using run_free [of x "sandbox_spec s j t", unfolded name_of_spec, OF None] by blast
  from bspec [OF c(2) tcp_port_published] show "adoptable named s i x \<Longrightarrow> ?thesis"
    by (simp add: adoptable_def c(1))
next
  case (Some d)
  then have "named (snd (containers_run S (sandbox_spec s j t) x)) = named x"
    using run_taken [of x "sandbox_spec s j t"] by simp
  then show "adoptable named s i x \<Longrightarrow> ?thesis" by (simp add: adoptable_def)
qed

lemma adopt_calls [guar_intros]:
  "guar (keeps_adoptable named s i) (call (containers_get S n))"
  "guar (keeps_adoptable named s i) (call (container_remove S c))"
  "guar (keeps_adoptable named s i) (call (container_reload S c))"
  "guar (keeps_adoptable named s i) (call (containers_run S (sandbox_spec s j t)))"
  by (rule guar_adopt_call; simp add: adoptable_remove adoptable_run adoptable_cong [OF get_state] adoptable_cong [OF reload_state])+

lemma adopt_docker [guar_intros]:
  "guar (keeps_adoptable named s i) (ensure_container S s j t)"
  "guar (keeps_adoptable named s i) (remove_sandbox S s' j)"
  unfolding ensure_container_def docker_get_def remove_sandbox_def docker_remove_def run_bounded_def Let_def
  by (intro guar_intros)+

lemma adopt_launch:
  assumes "probes_only_ask S named"
  shows "guar (keeps_adoptable named s i) (launch S s j t)"
proof -
  have "guar (keeps_adoptable named s i) (probe S u)" for u
    unfolding probe_def
    by (rule guar_adopt_call) (use assms in \<open>simp add: probes_only_ask_def adoptable_def split_beta Let_def\<close>)
  then show ?thesis
    unfolding launch_def wait_ready_def run_bounded_def Let_def
    by (intro guar_intros guar_probing)
qed

lemma adopt_start:
  assumes "probes_only_ask S named" "ctx_runtime c = docker_runtime S (ctx_settings c)"
  shows "guar (keeps_adoptable named (ctx_settings c) i) (start_sandbox c arg)"
proof -
  have docker: "guar (keeps_adoptable named (ctx_settings c) i) (rt_launch (ctx_runtime c) j t)"
    "guar (keeps_adoptable named (ctx_settings c) i) (rt_remove (ctx_runtime c) j)" for t j
    by (simp_all add: assms(2) docker_runtime_def adopt_launch assms(1) adopt_docker)
  show ?thesis
    unfolding start_sandbox_def timed_job_def observe_queue_wait_def start_body_def launch_failed_def launched_def
      discard_def worker_launch_def count_job_def transition_def Let_def
    by (intro guar_intros docker)
qed

end

section \<open>The start job on its row\<close>

lemma find_row_update_other:
  assumes "\<And>q. sid (f q) = sid q" "j \<noteq> i"
  shows "find_row j (update_rows (\<lambda>q. sid q = i \<and> Q q) f t rows) = find_row j rows"
  using assms by (cases "find_row j rows") (auto simp: find_row_update_rows dest: find_row_sid)

text \<open>Alone and without failures, with a runtime that brings the container up.\<close>

lemma run_start_row:
  fixes c :: "'e ctx" and w :: "'e world"
  assumes "quiet w" "row_is i r w" "status r \<in> STARTABLE" "clock w < expires_at r"
    and "calm (ctx_runtime c)" "chaos_failure_rate (ctx_settings c) \<le> random_random c"
    and "\<And>v. quiet v \<Longrightarrow> ext v = ext w \<Longrightarrow>
      \<exists>u x. run (rt_launch (ctx_runtime c) i (expires_at r)) v = (Inr u, v\<lparr>ext := x\<rparr>) \<and> P u x"
  shows "\<exists>q u x rows ev. run (start_sandbox c (uuid_str i)) w =
      (Inr ''running'', w\<lparr>ext := x, sandboxes := rows, emitted := ev\<rparr>) \<and> P u x \<and>
    find_row i rows = Some q \<and> same_identity r q \<and> status q = RUNNING \<and> url q = Some u \<and> error q = None \<and>
    (\<forall>j. j \<noteq> i \<longrightarrow> find_row j rows = find_row j (sandboxes w))"
proof -
  let ?f = "\<lambda>r. r\<lparr>status := STARTING, attempts := int (job_try c)\<rparr>"
  let ?w1 = "w\<lparr>emitted := emitted w @ queue_wait_events c START_SANDBOX (clock w)\<rparr>"
  let ?rows2 = "update_rows (\<lambda>q. sid q = i \<and> status q \<in> STARTABLE) ?f (clock w) (sandboxes w)"
  let ?r2 = "(?f r)\<lparr>updated_at := clock w\<rparr>"
  let ?w2 = "?w1\<lparr>sandboxes := ?rows2\<rparr>"
  have sid: "sid r = i" using assms(2) by (auto simp: row_is_def dest: find_row_sid)
  have row1: "row_is i r ?w1" using assms(2) by simp
  have pick: "run (transition i STARTABLE ?f) ?w1 = (Inr True, ?w2)"
    using run_transition [OF _ row1, of STARTABLE ?f] assms(1,3) by simp
  have row2: "row_is i ?r2 ?w2"
    using row_is_transition [OF row1 assms(3), of ?f "clock w"] by simp
  obtain u x where launch: "run (rt_launch (ctx_runtime c) i (expires_at r)) ?w2 = (Inr u, ?w2\<lparr>ext := x\<rparr>)" and P: "P u x"
    using assms(7) [of ?w2] assms(1) by auto
  have "run (worker_launch c r) ?w2 = (Inr u, ?w2\<lparr>ext := x\<rparr>)"
    using launch sid assms(6) by (simp add: worker_launch_def)
  then have timed: "run (asyncio_timeout T (worker_launch c r)) ?w2 = (Inr u, ?w2\<lparr>ext := x\<rparr>)" for T
    using run_asyncio_timeout [OF worker_helpers_quiet(3) [OF assms(5)], of ?w2 T r] assms(1) by simp
  let ?g = "\<lambda>q. q\<lparr>status := RUNNING, url := Some u, error := None\<rparr>"
  let ?w3 = "?w2\<lparr>ext := x\<rparr>"
  let ?rows = "update_rows (\<lambda>q. sid q = i \<and> status q \<in> {STARTING}) ?g (clock w) ?rows2"
  let ?q = "(?g ?r2)\<lparr>updated_at := clock w\<rparr>"
  have row3: "row_is i ?r2 ?w3" using row2 by (simp add: row_is_def)
  have serve: "run (transition i {STARTING} ?g) ?w3 = (Inr True, ?w3\<lparr>sandboxes := ?rows\<rparr>)"
    using run_transition [OF _ row3, of "{STARTING}" ?g] assms(1) by simp
  have "row_is i ?q (?w3\<lparr>sandboxes := ?rows\<rparr>)"
    using row_is_transition [OF row3, of "{STARTING}" ?g "clock w"] by simp
  then have q: "find_row i ?rows = Some ?q" by (simp add: row_is_def)
  have found: "find_row i (sandboxes w) = Some r" using assms(2) by (simp add: row_is_def)
  have "\<exists>ev. run (start_sandbox c (uuid_str i)) w = (Inr ''running'', w\<lparr>ext := x, sandboxes := ?rows, emitted := ev\<rparr>)"
    using assms(1,3,4) sid found pick timed serve
    by (simp add: start_sandbox_def start_body_def launched_def count_job_def run_timed_job run_pbind run_db_get
        run_get_now run_try_catch run_andthen run_emit Let_def del: singleton_iff) (rule exI, rule refl)
  moreover have "find_row j ?rows = find_row j (sandboxes w)" if "j \<noteq> i" for j
    by (simp add: find_row_update_other that)
  ultimately show ?thesis using P q by (intro exI [of _ ?q]) auto
qed

section \<open>The second attempt\<close>


lemma stub_probes_only_ask: "probes_only_ask stub_services stub_named"
  by (simp add: probes_only_ask_def)

text \<open>The job is killed after any number of steps and delivered again, as its second try.\<close>

definition crashed :: "nat \<Rightarrow> stub world" where
  "crashed n = (stub_world [keyed_row STARTING] 5)
     \<lparr>ext := ext (killed_after n (start_sandbox stub_ctx (uuid_str 7)) (\<lambda>_ v. v) 0 (stub_world [keyed_row QUEUED] 5))\<rparr>"


end
