(* ===== verification/Spec2Isabelle.thy ===== *)
theory Spec2Isabelle
  imports Typed Races Sweeps Routing Recovery
begin

text \<open>
  A verification development for the sandbox service (\<open>src/app\<close>): an HTTP API that records requests
  for sandboxes in Postgres and queues jobs in Redis, worker pools that start and stop one container
  per sandbox, and a reaper that converges containers and rows.

  \<^bold>\<open>Parts and how they interact.\<close> The API (\<open>routes/\<close>) inserts a row, then enqueues a job
  (\<open>queue.py\<close>) for the pool the canary router picks (\<open>rollout.py\<close>); a worker (\<open>worker.py\<close>) takes the
  job, moves the row by compare-and-set writes and drives Docker (\<open>runtime.py\<close>); the reaper (also
  \<open>worker.py\<close>) compares rows and containers; probes and scrapes (\<open>routes/health.py\<close>,
  \<open>routes/metrics.py\<close>) read all of it, and a middleware (\<open>observability.py\<close>) observes every request.
  They share the table, the weight in Redis, the queue and the daemon, and nothing else.

  \<^bold>\<open>The model.\<close> A coroutine is a value of type \<open>prog\<close> (Async): a tree of atomic steps on a shared
  \<open>world\<close> (World), one step per await, with exceptions as results. \<open>run\<close> executes it alone,
  \<open>run_with I\<close> with an environment that changes the world by \<open>I n\<close> before step \<open>n\<close>; \<open>guar\<close> and
  \<open>ensures\<close> are the guarantee and the weakest precondition of rely/guarantee reasoning, and
  \<open>pool_step\<close> interleaves any number of programs that may be killed at any step.

  \<^item> Prelude: digits, list facts, the collections \<open>guar_intros\<close> and \<open>run_simps\<close>.
  \<^item> Python: exceptions, \<open>int(str)\<close>, \<open>str(int)\<close>, \<open>uuid.UUID\<close>, \<open>zlib.crc32\<close>, time stamps.
  \<^item> Json: JSON values, \<open>json.dumps\<close>, and reading string literals back.
  \<^item> Async: programs, execution, guarantees, pools, preconditions.
  \<^item> Models (\<open>models.py\<close>): enumerations, the row, the types of its columns, and the life cycle \<open>edge\<close> as
    abstract specification.
  \<^item> Settings (\<open>config.py\<close>) and Db (\<open>db.py\<close>): settings, engine and session parameters, the start-up DDL.
  \<^item> World: the shared state, Postgres and Redis statements with their faults, services, metrics
    (\<open>metrics.py\<close>) as events and gauges.
  \<^item> Table: lookup and update laws, the locale \<open>compare_and_set\<close>, the relation \<open>evolves\<close>.
  \<^item> Queue (\<open>queue.py\<close>), Rollout (\<open>rollout.py\<close>, \<open>routes/rollout.py\<close>; locale \<open>weighted_router\<close>).
  \<^item> Runtime (\<open>runtime.py\<close>), Worker and Reaper (\<open>worker.py\<close>).
  \<^item> Schemas (\<open>schemas.py\<close>), Api (\<open>routes/sandboxes.py\<close>).
  \<^item> Health, Scrape (\<open>routes/health.py\<close>, \<open>routes/metrics.py\<close>).
  \<^item> Logging, Observability (\<open>observability.py\<close>), App (\<open>main.py\<close>, \<open>deps.py\<close>), Server (\<open>main.py\<close>),
    Metrics (\<open>metrics.py\<close>).
  \<^item> Fakes: an in-memory Docker client and the tests' \<open>FakeRuntime\<close>, to run the model on.
  \<^item> Containers: the contracts \<open>sandbox_runtime\<close> and \<open>docker_daemon\<close> as locales, interpreted on
    both fakes, with a sublocale: DockerRuntime on a lawful daemon is a lawful runtime.

  Definitions carry the names of the functions they translate; Python's private names lose their
  underscore, and a long handler is cut at its branches (\<open>start_body\<close>, \<open>launched\<close>, \<open>launch_failed\<close>).

  \<^bold>\<open>What is shown.\<close>

  \<^item> System: in every reachable state of any number of interleaved, repeated, killed requests, jobs,
    sweeps and replicas the table is well formed, rows are never lost, and no status moves backwards
    but for a retried start. Every component contributes only that its steps are legal writes
    (\<open>\<dots>_evolves\<close>, \<open>same_db\<close>).
  \<^item> Permissions: the locale of the relations that allow the elementary writes of the program; every
    process has every such relation as guarantee. Typed interprets it twice: rows stay well typed,
    and every sample has the labels its family declares, from a fixed vocabulary.
  \<^item> Jobs: the outcome of \<open>start_sandbox\<close> and \<open>stop_sandbox\<close> on their row for every environment that
    leaves the row alone, whichever statements, calls and deadlines fail.
  \<^item> Producer: the handlers of the API branch by branch, and, under any interference, idempotency keys
    and the order of insert and enqueue.
  \<^item> Sweeps: one sweep computes its specification on any runtime that keeps the contract.
  \<^item> Launching: DockerRuntime refines the map of named containers; probing is bounded.
  \<^item> Routing: monotone routing, failing safe, the weight's round trip, validation bounds.
  \<^item> Health, Scrape, Logging, Server, Db, App: readiness and scrapes tell the truth or say that they
    cannot; a log line cannot be forged; every request is answered and counted once; the DDL only
    expands.
  \<^item> Lifecycle: one sandbox from POST to removal through API, queue, worker, Docker and table.
  \<^item> Recovery: a start job killed after any number of steps is made good by its redelivery.
  \<^item> Races: executions in which the code does not do what its documents say.

  \<^bold>\<open>Bounds and assumptions.\<close> No fuel: a program tree is finite, and the one loop over time,
  \<open>_wait_ready\<close>, ends because every probe or pause uses up its budget (in microseconds, at least
  200 ms per round). Deadlines of \<open>asyncio.timeout\<close> may strike before any await of their block
  (\<open>deadlines\<close>), so theorems hold for every length; any statement may fail before or after it took
  effect (\<open>faults\<close>); theorems about undisturbed runs say \<open>quiet\<close>. An UPDATE and the commit after it
  are one step, since its row locks are held in between. The clock only moves between steps.
  Integers of the program are unbounded; UUIDs, bytes and the CRC are words of their width. Strings
  are byte strings. Floats of the configuration are rationals.

  \<^bold>\<open>Not modelled.\<close> Docker, arq, Postgres, Redis, FastAPI, Starlette, pydantic, prometheus_client and
  OpenTelemetry are outside the repository: they are the calls of \<open>services\<close>, the documented effect
  of a statement, or parameters, with what is relied on as locale assumptions or hypotheses. Trace
  spans and the texts of log messages have no effect on state and are left out, except for the
  formatter itself. The dependencies of \<open>deps.py\<close> are reads of the state that \<open>lifespan\<close> sets up; the
  handlers take what they inject as arguments. A session is known by its session maker, the pool of
  arq by the parameters it was opened with. Reading environment variables is pydantic-settings, the
  parse of a Redis URL arq's. Tests and deployment files are no code of the program.
\<close>

end
